(* ===== verification/Prelude.thy ===== *)
theory Prelude
  imports Main "HOL-Library.Word" "HOL-Library.AList"
begin

text \<open>
  Shared vocabulary of the development.

  \<^item> NETCONF errors: \<open>nc_err\<close> is what \<^verbatim>\<open>nc_err_new\<close> followed by \<^verbatim>\<open>nc_err_set\<close>
    leaves behind \<^verbatim>\<open>struct nc_err **\<close>.
  \<^item> Outcomes: a C function that returns \<^verbatim>\<open>EXIT_SUCCESS\<close> or \<^verbatim>\<open>EXIT_FAILURE\<close> and
    changes state on the way is a function into \<open>'s outcome\<close>. A failure carries the state
    as well, because the code does not undo what it did before failing. \<open>Undef\<close> is a
    step whose behaviour C leaves undefined (a NULL pointer read, a freed node, an
    uninitialised array cell).
  \<^item> C strings: \<open>char *\<close> that may be NULL is \<open>string option\<close>; \<^verbatim>\<open>xmlStrEqual\<close> is equality
    of two such values (NULL equals only NULL). The functions of the C library the sources
    call on strings (\<^verbatim>\<open>isspace\<close>, \<^verbatim>\<open>strchr\<close>, \<^verbatim>\<open>strstr\<close>, \<^verbatim>\<open>strtol\<close>, \<^verbatim>\<open>sscanf\<close>) are defined here.
  \<^item> String maps: a \<^verbatim>\<open>struct smap\<close> is an association list with distinct keys.
\<close>

named_theorems outcome_simps \<open>equations for sequencing outcomes\<close>
named_theorems smap_simps \<open>equations for string maps\<close>

section \<open>NETCONF errors\<close>

datatype nc_err_tag =
    NC_ERR_OP_FAILED | NC_ERR_BAD_ELEM | NC_ERR_MISSING_ELEM | NC_ERR_BAD_ATTR
  | NC_ERR_DATA_MISSING | NC_ERR_DATA_EXISTS | NC_ERR_LOCK_DENIED | NC_ERR_OP_NOT_SUPPORTED

record nc_err =
  err_tag :: nc_err_tag
  err_badelem :: "string option"
  err_badattr :: "string option"
  err_msg :: "string option"
  err_sid :: "string option"
  err_type :: "string option"

definition nc_err_new :: "nc_err_tag \<Rightarrow> nc_err" where
  "nc_err_new t = \<lparr>err_tag = t, err_badelem = None, err_badattr = None, err_msg = None, err_sid = None, err_type = None\<rparr>"

abbreviation op_failed :: nc_err where
  "op_failed \<equiv> nc_err_new NC_ERR_OP_FAILED"

definition err_text :: "nc_err_tag \<Rightarrow> string \<Rightarrow> nc_err" where
  "err_text t m = (nc_err_new t)\<lparr>err_msg := Some m\<rparr>"

definition err_elem :: "nc_err_tag \<Rightarrow> string \<Rightarrow> nc_err" where
  "err_elem t b = (nc_err_new t)\<lparr>err_badelem := Some b\<rparr>"

definition err_elem_text :: "nc_err_tag \<Rightarrow> string \<Rightarrow> string \<Rightarrow> nc_err" where
  "err_elem_text t b m = (nc_err_new t)\<lparr>err_badelem := Some b, err_msg := Some m\<rparr>"

lemma err_tag_simps [simp]:
  "err_tag (nc_err_new t) = t"
  "err_tag (err_text t m) = t"
  "err_tag (err_elem t b) = t"
  "err_tag (err_elem_text t b m) = t"
  by (simp_all add: nc_err_new_def err_text_def err_elem_def err_elem_text_def)

section \<open>Outcomes\<close>

datatype 's outcome = Success 's | Failure "nc_err option" 's | Undef

abbreviation fail :: "nc_err \<Rightarrow> 's \<Rightarrow> 's outcome" where
  "fail e s \<equiv> Failure (Some e) s"

fun andthen :: "'s outcome \<Rightarrow> ('s \<Rightarrow> 's outcome) \<Rightarrow> 's outcome" where
  "andthen (Success s) f = f s"
| "andthen (Failure e s) f = Failure e s"
| "andthen Undef f = Undef"

fun succeeded :: "'s outcome \<Rightarrow> bool" where
  "succeeded (Success s) = True"
| "succeeded (Failure e s) = False"
| "succeeded Undef = False"

text \<open>A predicate on states holds in whatever state an outcome leaves behind.\<close>

fun outcome_all :: "('s \<Rightarrow> bool) \<Rightarrow> 's outcome \<Rightarrow> bool" where
  "outcome_all P (Success s) = P s"
| "outcome_all P (Failure e s) = P s"
| "outcome_all P Undef = True"

declare andthen.simps [outcome_simps] succeeded.simps [outcome_simps]
  outcome_all.simps [outcome_simps]

lemma andthen_assoc: "andthen (andthen m f) g = andthen m (\<lambda>s. andthen (f s) g)"
  by (cases m) simp_all

lemma andthen_Success [simp]: "andthen m Success = m"
  by (cases m) simp_all

lemma andthen_eq_Success:
  "andthen m f = Success t \<longleftrightarrow> (\<exists>s. m = Success s \<and> f s = Success t)"
  by (cases m) auto

lemma outcome_all_andthen:
  assumes "outcome_all P m" and "\<And>s. P s \<Longrightarrow> outcome_all P (f s)"
  shows "outcome_all P (andthen m f)"
  using assms by (cases m) auto

lemma outcome_all_mono:
  "outcome_all P m \<Longrightarrow> (\<And>s. P s \<Longrightarrow> Q s) \<Longrightarrow> outcome_all Q m"
  by (cases m) auto

text \<open>
  Leaving a block with local variables: the outcome of the block carries them beside the state,
  \<open>drop_locals\<close> forgets them, and the code after the block sees them.
\<close>

fun leave :: "('a \<Rightarrow> 's) \<Rightarrow> 'a outcome \<Rightarrow> ('a \<Rightarrow> 's outcome) \<Rightarrow> 's outcome" where
  "leave drop_locals (Success a) f = f a"
| "leave drop_locals (Failure e a) f = Failure e (drop_locals a)"
| "leave drop_locals Undef f = Undef"

lemma leave_eq_Success:
  "leave d m f = Success t \<longleftrightarrow> (\<exists>a. m = Success a \<and> f a = Success t)"
  by (cases m) auto

lemma outcome_all_leave:
  assumes "outcome_all (\<lambda>a. P (d a)) m" and "\<And>a. P (d a) \<Longrightarrow> outcome_all P (f a)"
  shows "outcome_all P (leave d m f)"
  using assms by (cases m) auto

text \<open>A loop over a list that stops at the first failure.\<close>

fun for_each :: "('a \<Rightarrow> 's \<Rightarrow> 's outcome) \<Rightarrow> 'a list \<Rightarrow> 's \<Rightarrow> 's outcome" where
  "for_each f [] s = Success s"
| "for_each f (x # xs) s = andthen (f x s) (for_each f xs)"

lemma for_each_append:
  "for_each f (xs @ ys) s = andthen (for_each f xs s) (for_each f ys)"
proof (induction xs arbitrary: s)
  case (Cons x xs)
  then show ?case by (cases "f x s") simp_all
qed simp

lemma outcome_all_for_each:
  assumes "P s" and "\<And>x s. x \<in> set xs \<Longrightarrow> P s \<Longrightarrow> outcome_all P (f x s)"
  shows "outcome_all P (for_each f xs s)"
  using assms
proof (induction xs arbitrary: s)
  case (Cons x xs)
  have "outcome_all P (f x s)" using Cons.prems by simp
  then show ?case
    using Cons by (auto intro: outcome_all_andthen)
qed simp

lemma for_each_cong [fundef_cong]:
  assumes "xs = ys" and "s = t" and "\<And>x s. x \<in> set ys \<Longrightarrow> f x s = g x s"
  shows "for_each f xs s = for_each g ys t"
proof -
  have "for_each f ys t = for_each g ys t"
    using assms(3)
  proof (induction ys arbitrary: t)
    case (Cons y ys)
    then show ?case by (cases "g y t") simp_all
  qed simp
  then show ?thesis using assms(1,2) by simp
qed

section \<open>Lists of optional values\<close>

fun all_some :: "'a option list \<Rightarrow> 'a list option" where
  "all_some [] = Some []"
| "all_some (x # xs) =
     (case x of None \<Rightarrow> None | Some y \<Rightarrow> map_option ((#) y) (all_some xs))"

lemma all_some_Some_iff: "all_some xs = Some ys \<longleftrightarrow> xs = map Some ys"
  by (induction xs arbitrary: ys) (auto split: option.splits simp: Cons_eq_map_conv)

lemma all_some_None_iff: "all_some xs = None \<longleftrightarrow> None \<in> set xs"
  by (induction xs) (auto split: option.splits)

section \<open>The C library on strings\<close>

abbreviation NUL :: char where
  "NUL \<equiv> CHR 0x00"

definition isspace :: "char \<Rightarrow> bool" where
  "isspace c \<longleftrightarrow> c \<in> {CHR 0x20, CHR 0x09, CHR 0x0A, CHR 0x0B, CHR 0x0C, CHR 0x0D}"

lemma not_isspace_NUL [simp]: "\<not> isspace NUL"
  by (simp add: isspace_def)

text \<open>\<^verbatim>\<open>strchr\<close>/\<^verbatim>\<open>index\<close>: the position of the first occurrence, or None for NULL.\<close>

fun strchr :: "string \<Rightarrow> char \<Rightarrow> nat option" where
  "strchr [] c = None"
| "strchr (x # xs) c = (if x = c then Some 0 else map_option Suc (strchr xs c))"

lemma strchr_None [simp]: "strchr s c = None \<longleftrightarrow> c \<notin> set s"
  by (induction s) auto

lemma strchr_append:
  "c \<notin> set xs \<Longrightarrow> strchr (xs @ ys) c = map_option ((+) (length xs)) (strchr ys c)"
  by (induction xs) (auto simp: map_option_case simp del: strchr_None split: option.splits)

lemma strchr_append_Cons [simp]:
  "c \<notin> set xs \<Longrightarrow> strchr (xs @ c # ys) c = Some (length xs)"
  by (simp add: strchr_append)

text \<open>\<^verbatim>\<open>strstr\<close>: the position of the first occurrence of a substring.\<close>

fun strstr :: "string \<Rightarrow> string \<Rightarrow> nat option" where
  "strstr [] p = (if p = [] then Some 0 else None)"
| "strstr (x # xs) p =
     (if take (length p) (x # xs) = p then Some 0 else map_option Suc (strstr xs p))"

lemma strstr_prefix: "strstr (p @ s) p = Some 0"
  by (cases "p @ s"; cases p) auto

text \<open>
  Number scanning. \<^verbatim>\<open>strtol(s, NULL, 10)\<close> skips white space, takes a sign and decimal digits
  and gives 0 if there is none; \<^verbatim>\<open>sscanf(s, "%" SCNi64, &n)\<close> (the conversion \<^verbatim>\<open>%li\<close>) takes the
  base from the prefix, as \<^verbatim>\<open>strtol\<close> with base 0 does, and reports whether a number was there.
  Both clamp to the range of \<^verbatim>\<open>int64_t\<close>.
\<close>

definition digit_value :: "char \<Rightarrow> nat option" where
  "digit_value c =
     (let n = of_char c :: nat in
      if 48 \<le> n \<and> n \<le> 57 then Some (n - 48)
      else if 97 \<le> n \<and> n \<le> 102 then Some (n - 87)
      else if 65 \<le> n \<and> n \<le> 70 then Some (n - 55)
      else None)"

definition digit_in :: "nat \<Rightarrow> char \<Rightarrow> bool" where
  "digit_in base c = (case digit_value c of None \<Rightarrow> False | Some d \<Rightarrow> d < base)"

fun digits_value :: "nat \<Rightarrow> string \<Rightarrow> nat \<Rightarrow> nat" where
  "digits_value base [] acc = acc"
| "digits_value base (c # cs) acc =
     digits_value base cs (base * acc + (case digit_value c of None \<Rightarrow> 0 | Some d \<Rightarrow> d))"

definition clamp_int64 :: "int \<Rightarrow> int" where
  "clamp_int64 n = max (- (2 ^ 63)) (min (2 ^ 63 - 1) n)"

fun split_sign :: "string \<Rightarrow> bool \<times> string" where
  "split_sign [] = (False, [])"
| "split_sign (c # cs) =
     (if c = CHR ''-'' then (True, cs) else if c = CHR ''+'' then (False, cs) else (False, c # cs))"

definition signed_value :: "bool \<Rightarrow> nat \<Rightarrow> int" where
  "signed_value neg n = clamp_int64 (if neg then - int n else int n)"

definition strtol10 :: "string \<Rightarrow> int" where
  "strtol10 s =
     (let (neg, t) = split_sign (dropWhile isspace s)
      in signed_value neg (digits_value 10 (takeWhile (digit_in 10) t) 0))"

fun base_prefix :: "string \<Rightarrow> nat \<times> string" where
  "base_prefix (a # b # c # cs) =
     (if a = CHR ''0'' \<and> (b = CHR ''x'' \<or> b = CHR ''X'') \<and> digit_in 16 c then (16, c # cs)
      else if a = CHR ''0'' then (8, a # b # c # cs) else (10, a # b # c # cs))"
| "base_prefix s = (if s \<noteq> [] \<and> hd s = CHR ''0'' then (8, s) else (10, s))"

definition sscanf_i64 :: "string \<Rightarrow> int option" where
  "sscanf_i64 s =
     (let (neg, t) = split_sign (dropWhile isspace s);
          (base, u) = base_prefix t;
          ds = takeWhile (digit_in base) u
      in if ds = [] then None else Some (signed_value neg (digits_value base ds 0)))"

text \<open>Printing with \<^verbatim>\<open>PRId64\<close>.\<close>

fun show_nat :: "nat \<Rightarrow> string" where
  "show_nat n =
     (if n < 10 then [char_of (48 + n)] else show_nat (n div 10) @ [char_of (48 + n mod 10)])"

declare show_nat.simps [simp del]

definition show_int :: "int \<Rightarrow> string" where
  "show_int n = (if n < 0 then CHR ''-'' # show_nat (nat (- n)) else show_nat (nat n))"

lemma digit_value_char_of: "d < 10 \<Longrightarrow> digit_value (char_of (48 + d)) = Some d"
  by (simp add: digit_value_def)

lemma digits_value_append:
  "digits_value b (xs @ ys) acc = digits_value b ys (digits_value b xs acc)"
  by (induction xs arbitrary: acc) simp_all

lemma digits_value_show_nat: "digits_value 10 (show_nat n) 0 = n"
proof (induction n rule: show_nat.induct)
  case (1 n)
  then show ?case
    by (simp add: show_nat.simps [of n] digits_value_append digit_value_char_of)
qed

lemma digits_of_show_nat: "c \<in> set (show_nat n) \<Longrightarrow> digit_in 10 c"
proof (induction n rule: show_nat.induct)
  case (1 n)
  then show ?case
    by (auto simp: show_nat.simps [of n] digit_in_def digit_value_char_of split: if_splits)
qed

lemma show_nat_nonempty [simp]: "show_nat n \<noteq> []"
  by (simp add: show_nat.simps [of n])

lemma hd_show_nat_0: "hd (show_nat n) = CHR ''0'' \<longleftrightarrow> n = 0"
proof (induction n rule: show_nat.induct)
  case (1 n)
  have *: "char_of (48 + d) = CHR ''0'' \<longleftrightarrow> d = 0" if "d < 10" for d :: nat
  proof
    assume "char_of (48 + d) = CHR ''0''"
    then have "(of_char (char_of (48 + d) :: char) :: nat) = of_char CHR ''0''" by simp
    then show "d = 0" using that by simp
  next
    assume "d = 0"
    moreover have "char_of (48 :: nat) = CHR ''0''" by code_simp
    ultimately show "char_of (48 + d) = CHR ''0''" by simp
  qed
  show ?case
  proof (cases "n < 10")
    case True
    then show ?thesis using * [of n] by (simp add: show_nat.simps [of n])
  next
    case False
    then show ?thesis using "1.IH" by (simp add: show_nat.simps [of n])
  qed
qed

lemma base_prefix_show_nat: "base_prefix (show_nat n) = (if n = 0 then 8 else 10, show_nat n)"
proof -
  have hd: "hd (show_nat n) = CHR ''0'' \<longleftrightarrow> n = 0" by (rule hd_show_nat_0)
  show ?thesis
  proof (cases "n = 0")
    case True
    then have "show_nat n = [CHR ''0'']" by (simp add: show_nat.simps) code_simp
    then show ?thesis using True by simp
  next
    case False
    then obtain a s where "show_nat n = a # s" "a \<noteq> CHR ''0''"
      using hd show_nat_nonempty [of n] by (cases "show_nat n") auto
    then show ?thesis using False by (cases s; cases "tl s") auto
  qed
qed

lemma no_sign_show_nat:
  "dropWhile isspace (show_nat n) = show_nat n" "split_sign (show_nat n) = (False, show_nat n)"
proof -
  obtain a s where a: "show_nat n = a # s"
    using show_nat_nonempty [of n] by (cases "show_nat n") auto
  then have "digit_in 10 a" using digits_of_show_nat [of a n] by simp
  then have "\<not> isspace a" "a \<noteq> CHR ''-''" "a \<noteq> CHR ''+''"
    by (auto simp: digit_in_def digit_value_def isspace_def)
  then show "dropWhile isspace (show_nat n) = show_nat n" "split_sign (show_nat n) = (False, show_nat n)"
    by (simp_all add: a)
qed

lemma sscanf_show_nat:
  assumes "int n < 2 ^ 63"
  shows "sscanf_i64 (show_nat n) = Some (int n)"
proof (cases "n = 0")
  case True
  then have "show_nat n = [CHR ''0'']" by (simp add: show_nat.simps) code_simp
  moreover have "sscanf_i64 ''0'' = Some 0" by code_simp
  ultimately show ?thesis using True by simp
next
  case False
  have tw: "takeWhile (digit_in 10) (show_nat n) = show_nat n"
    by (simp add: takeWhile_eq_all_conv digits_of_show_nat)
  show ?thesis
    using False assms
    by (simp add: tw sscanf_i64_def no_sign_show_nat base_prefix_show_nat signed_value_def clamp_int64_def
        digits_value_show_nat)
qed

section \<open>String maps\<close>

type_synonym smap = "(string \<times> string) list"

definition smap_get :: "smap \<Rightarrow> string \<Rightarrow> string option" where
  "smap_get m k = map_of m k"

definition smap_replace :: "string \<Rightarrow> string \<Rightarrow> smap \<Rightarrow> smap" where
  "smap_replace k v m = AList.update k v m"

definition smap_remove :: "string \<Rightarrow> smap \<Rightarrow> smap" where
  "smap_remove k m = AList.delete k m"

definition smap_add_once :: "string \<Rightarrow> string \<Rightarrow> smap \<Rightarrow> smap" where
  "smap_add_once k v m = (if smap_get m k = None then smap_replace k v m else m)"

lemma smap_get_replace [simp, smap_simps]:
  "smap_get (smap_replace k v m) k' = (if k' = k then Some v else smap_get m k')"
  by (simp add: smap_get_def smap_replace_def update_conv')

lemma smap_get_remove [simp, smap_simps]:
  "smap_get (smap_remove k m) k' = (if k' = k then None else smap_get m k')"
  by (simp add: smap_get_def smap_remove_def delete_conv')

lemma smap_get_add_once [simp, smap_simps]:
  "smap_get (smap_add_once k v m) k' =
     (if k' = k \<and> smap_get m k = None then Some v else smap_get m k')"
  by (simp add: smap_add_once_def)

lemma smap_get_Nil [simp]: "smap_get [] k = None"
  by (simp add: smap_get_def)

end
