(* ===== verification/Xml_Tree.thy ===== *)
theory Xml_Tree
  imports Prelude
begin

text \<open>
  The libxml2 document tree as the sources read it, and the accessors of
  \<^verbatim>\<open>edit-config.c\<close> on it.

  An element carries the fields the code looks at: \<^verbatim>\<open>name\<close>, \<^verbatim>\<open>ns\<close>, \<^verbatim>\<open>nsDef\<close>, \<^verbatim>\<open>properties\<close> and
  the list of \<^verbatim>\<open>children\<close>. The first field \<open>xid\<close> is the address of the node, so that a node
  set computed earlier can be followed after the tree has changed: an address that no longer
  occurs in the document is a freed node. A namespace is the pair of its address and its
  \<^verbatim>\<open>href\<close>, since the code compares namespaces by pointer in one place and by \<^verbatim>\<open>href\<close> in another.
  Text nodes and the other node kinds (comments, processing instructions) have no children;
  libxml2 names the former \<^verbatim>\<open>text\<close>. CDATA sections and entity references are not represented.

  A pointer to a node also gives access to its parents. Functions that follow \<^verbatim>\<open>parent\<close> take the
  list of the ancestors, the nearest first; a node with no ancestor is a child of the document
  node.
\<close>

section \<open>Nodes\<close>

datatype xmlns = XmlNs (ns_addr: nat) (href: string)

datatype xattr = XAttr (a_name: string) (a_ns: "xmlns option") (a_value: string)

datatype xmlnode =
    Element (xid: nat) (e_name: string) (e_ns: "xmlns option") (e_nsdef: "xmlns list")
      (e_props: "xattr list") (e_kids: "xmlnode list")
  | TextNode (xid: nat) (t_content: string)
  | OtherNode (xid: nat) (o_name: string) (o_content: string)

type_synonym xmldoc = "xmlnode list"
type_synonym ancestors = "xmlnode list"

fun is_element :: "xmlnode \<Rightarrow> bool" where
  "is_element (Element i n s d p k) = True"
| "is_element _ = False"

fun is_text :: "xmlnode \<Rightarrow> bool" where
  "is_text (TextNode i c) = True"
| "is_text _ = False"

fun node_name :: "xmlnode \<Rightarrow> string" where
  "node_name (Element i n s d p k) = n"
| "node_name (TextNode i c) = ''text''"
| "node_name (OtherNode i n c) = n"

fun children :: "xmlnode \<Rightarrow> xmlnode list" where
  "children (Element i n s d p k) = k"
| "children _ = []"

fun content :: "xmlnode \<Rightarrow> string option" where
  "content (Element i n s d p k) = None"
| "content (TextNode i c) = Some c"
| "content (OtherNode i n c) = Some c"

fun node_ns :: "xmlnode \<Rightarrow> xmlns option" where
  "node_ns (Element i n s d p k) = s"
| "node_ns _ = None"

fun props :: "xmlnode \<Rightarrow> xattr list" where
  "props (Element i n s d p k) = p"
| "props _ = []"

fun set_children :: "xmlnode list \<Rightarrow> xmlnode \<Rightarrow> xmlnode" where
  "set_children ks (Element i n s d p k) = Element i n s d p ks"
| "set_children ks x = x"

text \<open>\<^verbatim>\<open>node->children ? node->children->content : NULL\<close>\<close>

definition first_content :: "xmlnode \<Rightarrow> string option" where
  "first_content x = (case children x of [] \<Rightarrow> None | c # cs \<Rightarrow> content c)"

text \<open>\<^verbatim>\<open>xmlNodeGetContent\<close> of an element: the text of all its descendants.\<close>

fun text_content :: "xmlnode \<Rightarrow> string" where
  "text_content (Element i n s d p k) = concat (map text_content k)"
| "text_content (TextNode i c) = c"
| "text_content (OtherNode i n c) = []"

text \<open>The name of the k-th ancestor; the document node has no name.\<close>

definition anc_name :: "ancestors \<Rightarrow> nat \<Rightarrow> string option" where
  "anc_name as k = (if k < length as then Some (node_name (as ! k)) else None)"

lemma set_children_simps [simp]:
  "node_name (set_children ks x) = node_name x"
  "is_element (set_children ks x) = is_element x"
  "xid (set_children ks x) = xid x"
  "node_ns (set_children ks x) = node_ns x"
  "props (set_children ks x) = props x"
  "content (set_children ks x) = content x"
  "is_element x \<Longrightarrow> children (set_children ks x) = ks"
  by (cases x; simp)+

lemma child_size [termination_simp]: "c \<in> set (children x) \<Longrightarrow> size c < size x"
  by (cases x) (auto simp: less_Suc_eq_le dest: size_list_estimation' [where f = size, OF _ order_refl])

section \<open>Accessors\<close>

text \<open>\<^verbatim>\<open>go2node\<close>: the first child element with the given name.\<close>

definition go2node :: "xmlnode option \<Rightarrow> string \<Rightarrow> xmlnode option" where
  "go2node parent name =
     (case parent of
        None \<Rightarrow> None
      | Some p \<Rightarrow> find (\<lambda>c. is_element c \<and> node_name c = name) (children p))"

text \<open>\<^verbatim>\<open>xmlIsBlankNode\<close>: a text node made of blanks only (XML blanks: space, tab, LF, CR).\<close>

definition is_blank_node :: "xmlnode \<Rightarrow> bool" where
  "is_blank_node x \<longleftrightarrow>
     is_text x \<and> (\<forall>c \<in> set (t_content x). c \<in> {CHR 0x20, CHR 0x09, CHR 0x0A, CHR 0x0D})"

text \<open>\<^verbatim>\<open>get_key\<close>: the text of the key leaf, NULL if the leaf is missing, empty or blank.\<close>

definition get_key :: "xmlnode \<Rightarrow> string \<Rightarrow> string option" where
  "get_key parent name =
     (case go2node (Some parent) name of
        None \<Rightarrow> None
      | Some node \<Rightarrow>
          (case children node of
             [] \<Rightarrow> None
           | c # cs \<Rightarrow>
               (case content c of
                  None \<Rightarrow> None
                | Some v \<Rightarrow> if is_blank_node c then None else Some v)))"

lemma go2node_Some:
  "go2node (Some p) n = Some c \<Longrightarrow> c \<in> set (children p) \<and> is_element c \<and> node_name c = n"
  by (auto simp: go2node_def find_Some_iff)

lemma go2node_None_iff:
  "go2node (Some p) n = None \<longleftrightarrow> (\<forall>c \<in> set (children p). is_element c \<longrightarrow> node_name c \<noteq> n)"
  by (auto simp: go2node_def find_None_iff)

lemma go2node_size: "go2node (Some p) n = Some c \<Longrightarrow> size c < size p"
  by (auto dest!: go2node_Some intro: child_size)

section \<open>Positions\<close>

text \<open>
  A node of a document is named by the child indices that lead to it. \<open>remove_at\<close> is
  \<^verbatim>\<open>xmlUnlinkNode\<close> followed by \<^verbatim>\<open>xmlFreeNode\<close>.
\<close>

type_synonym position = "nat list"

fun node_at :: "xmlnode list \<Rightarrow> position \<Rightarrow> xmlnode option" where
  "node_at ks [] = None"
| "node_at ks [i] = (if i < length ks then Some (ks ! i) else None)"
| "node_at ks (i # j # p) = (if i < length ks then node_at (children (ks ! i)) (j # p) else None)"

fun ancestors_at :: "xmlnode list \<Rightarrow> ancestors \<Rightarrow> position \<Rightarrow> ancestors" where
  "ancestors_at ks as [] = as"
| "ancestors_at ks as [i] = as"
| "ancestors_at ks as (i # j # p) =
     (if i < length ks then ancestors_at (children (ks ! i)) (ks ! i # as) (j # p) else as)"

fun update_at :: "position \<Rightarrow> (xmlnode list \<Rightarrow> nat \<Rightarrow> xmlnode list) \<Rightarrow> xmlnode list \<Rightarrow> xmlnode list" where
  "update_at [] f ks = ks"
| "update_at [i] f ks = (if i < length ks then f ks i else ks)"
| "update_at (i # j # p) f ks =
     (if i < length ks
      then ks[i := set_children (update_at (j # p) f (children (ks ! i))) (ks ! i)] else ks)"

definition remove_at :: "position \<Rightarrow> xmlnode list \<Rightarrow> xmlnode list" where
  "remove_at p = update_at p (\<lambda>ks i. take i ks @ drop (Suc i) ks)"

definition replace_at :: "position \<Rightarrow> xmlnode \<Rightarrow> xmlnode list \<Rightarrow> xmlnode list" where
  "replace_at p x = update_at p (\<lambda>ks i. ks[i := x])"

text \<open>\<^verbatim>\<open>xmlAddChild\<close> of an element, comment or text node at the end of the children.\<close>

fun merge_text :: "xmlnode list \<Rightarrow> xmlnode \<Rightarrow> xmlnode list" where
  "merge_text ks x =
     (if is_text x \<and> ks \<noteq> [] \<and> is_text (last ks)
      then butlast ks @ [TextNode (xid (last ks)) (t_content (last ks) @ t_content x)]
      else ks @ [x])"

definition add_child_at :: "position \<Rightarrow> xmlnode \<Rightarrow> xmlnode list \<Rightarrow> xmlnode list" where
  "add_child_at p x =
     update_at p (\<lambda>ks i. ks[i := set_children (merge_text (children (ks ! i)) x) (ks ! i)])"

text \<open>The number of nodes bounds the recursion over a forest.\<close>

definition forest_size :: "xmlnode list \<Rightarrow> nat" where
  "forest_size xs = size_list size xs"

lemma forest_size_children: "forest_size (children x) < Suc (size x)"
  by (cases x) (auto simp: forest_size_def)

text \<open>Nodes by address.\<close>

function (sequential) locate_in :: "nat \<Rightarrow> xmlnode list \<Rightarrow> ancestors \<Rightarrow> (xmlnode \<times> ancestors) option" where
  "locate_in a [] as = None"
| "locate_in a (x # xs) as =
     (if xid x = a then Some (x, as)
      else (case locate_in a (children x) (x # as) of
              Some r \<Rightarrow> Some r
            | None \<Rightarrow> locate_in a xs as))"
  by pat_completeness auto
termination
proof (relation "measure (\<lambda>(a, xs, as). forest_size xs)", goal_cases)
  case (2 a x xs as)
  then show ?case using forest_size_children [of x] by (simp add: forest_size_def)
next
  case (3 a x xs as)
  then show ?case by (simp add: forest_size_def)
qed simp

fun remove_addr_node :: "nat \<Rightarrow> xmlnode \<Rightarrow> xmlnode" where
  "remove_addr_node a (Element i n s d p k) =
     Element i n s d p (map (remove_addr_node a) (filter (\<lambda>c. xid c \<noteq> a) k))"
| "remove_addr_node a x = x"

definition remove_addr :: "nat \<Rightarrow> xmlnode list \<Rightarrow> xmlnode list" where
  "remove_addr a xs = map (remove_addr_node a) (filter (\<lambda>c. xid c \<noteq> a) xs)"

fun addrs :: "xmlnode \<Rightarrow> nat list" where
  "addrs (Element i n s d p k) = i # concat (map addrs k)"
| "addrs x = [xid x]"

lemma addrs_children: "addrs x = xid x # concat (map addrs (children x))"
  by (cases x) simp_all

lemma locate_in_addr: "locate_in a xs as = Some (x, bs) \<Longrightarrow> xid x = a"
  by (induction a xs as rule: locate_in.induct) (auto split: if_splits option.splits)

lemma locate_in_None:
  "locate_in a xs as = None \<longleftrightarrow> a \<notin> set (concat (map addrs xs))"
proof (induction a xs as rule: locate_in.induct)
  case (2 a x xs as)
  then show ?case by (auto simp: addrs_children [of x] split: option.split)
qed simp

lemma remove_addr_gone: "a \<notin> set (concat (map addrs (remove_addr a xs)))"
proof -
  have "a \<notin> set (addrs (remove_addr_node a x))" if "xid x \<noteq> a" for x
    using that
  proof (induction x)
    case (Element i n s d p k)
    then show ?case by auto
  qed simp_all
  then show ?thesis by (auto simp: remove_addr_def)
qed

lemma locate_after_remove [simp]: "locate_in a (remove_addr a xs) as = None"
  by (simp only: locate_in_None remove_addr_gone not_False_eq_True)

lemma remove_addr_subset:
  "set (concat (map addrs (remove_addr a xs))) \<subseteq> set (concat (map addrs xs)) - {a}"
proof -
  have "set (addrs (remove_addr_node a x)) \<subseteq> set (addrs x)" for x
    by (induction x) auto
  then show ?thesis using remove_addr_gone [of a xs] by (auto simp: remove_addr_def)
qed

end
