(* ===== verification/Edit_Match.thy ===== *)
theory Edit_Match
  imports Xml_Tree
begin

text \<open>
  The matching half of \<^verbatim>\<open>edit-config.c\<close>: \<^verbatim>\<open>clrwspace\<close>, \<^verbatim>\<open>nscmp\<close>, \<^verbatim>\<open>find_namespace_usage\<close>,
  \<^verbatim>\<open>clrns\<close>, \<^verbatim>\<open>get_defval\<close>, \<^verbatim>\<open>is_key\<close>, \<^verbatim>\<open>matching_elements\<close> and \<^verbatim>\<open>find_element_equiv\<close>.
\<close>

section \<open>Removing white space\<close>

text \<open>
  \<^verbatim>\<open>clrwspace\<close> works in place on a copy of the string with its terminating NUL. The first loop
  runs only when the string starts with white space; \<open>skip_space\<close> is its inner loop. It copies
  the remaining characters to the front but not the terminator, unless the inner loop ran
  into it. The second loop then walks back from \<open>j\<close>.
\<close>

function skip_space :: "string \<Rightarrow> nat \<Rightarrow> nat" where
  "skip_space r i = (if i < length r \<and> r ! i \<noteq> NUL \<and> isspace (r ! i) then skip_space r (Suc i) else i)"
  by pat_completeness auto
termination
  by (relation "measure (\<lambda>(r, i). length r - i)") auto

declare skip_space.simps [simp del]

lemma skip_space_ge: "i \<le> skip_space r i"
proof (induction r i rule: skip_space.induct)
  case (1 r i)
  then show ?case
    by (cases "i < length r \<and> r ! i \<noteq> NUL \<and> isspace (r ! i)")
      (auto simp: skip_space.simps [of r i])
qed

function shift_loop :: "string \<Rightarrow> nat \<Rightarrow> nat \<Rightarrow> nat \<Rightarrow> string \<times> nat" where
  "shift_loop r len i j =
     (if i < len then
        let i' = skip_space r i in shift_loop (r[j := r ! i']) len (Suc i') (Suc j)
      else (r, j))"
  by pat_completeness auto
termination
proof (relation "measure (\<lambda>(r, len, i, j). len - i)", goal_cases)
  case (2 r len i j i')
  then show ?case using skip_space_ge [of i r] by simp
qed simp

declare shift_loop.simps [simp del]

fun trail_loop :: "string \<Rightarrow> nat \<Rightarrow> string" where
  "trail_loop r 0 = (if isspace (r ! 0) then r[0 := NUL] else r)"
| "trail_loop r (Suc j) = (if isspace (r ! Suc j) then trail_loop (r[Suc j := NUL]) j else r)"

definition clrwspace :: "string \<Rightarrow> string" where
  "clrwspace s =
     (let r = s @ [NUL];
          (r1, j) = (if isspace (r ! 0) then shift_loop r (length s) 0 0 else (r, 0))
      in takeWhile (\<lambda>c. c \<noteq> NUL) (trail_loop r1 j))"

lemma skip_space_eq:
  assumes "drop i r = rest @ [NUL]" and "NUL \<notin> set rest"
  shows "skip_space r i = i + length (takeWhile isspace rest)"
  using assms
proof (induction rest arbitrary: i)
  case Nil
  then have "r ! i = NUL" by (metis append_Nil nth_via_drop)
  then show ?case by (simp add: skip_space.simps [of r i])
next
  case (Cons c rest)
  have i: "i < length r" using Cons.prems(1) by (cases "i < length r") auto
  have c: "r ! i = c" using Cons.prems(1) by (simp add: nth_via_drop)
  have d: "drop (Suc i) r = rest @ [NUL]"
    using Cons.prems(1) i by (simp add: Cons_nth_drop_Suc [symmetric])
  have "skip_space r (Suc i) = Suc i + length (takeWhile isspace rest)"
    using Cons.prems(2) d by (intro Cons.IH) auto
  then show ?case using Cons.prems(2) i c by (auto simp: skip_space.simps [of r i])
qed

text \<open>What the first loop writes: the non-blank characters, and the terminator if it meets it.\<close>

definition squeezed :: "string \<Rightarrow> string" where
  "squeezed s = filter (\<lambda>c. \<not> isspace c) s @ (if s \<noteq> [] \<and> isspace (last s) then [NUL] else [])"

lemma squeezed_Cons: "squeezed (c # q) = (if isspace c \<and> q \<noteq> [] then squeezed q
    else if isspace c then [NUL] else c # squeezed q)"
  by (auto simp: squeezed_def)

lemma squeezed_dropWhile: "dropWhile isspace s = c # q \<Longrightarrow> squeezed s = c # squeezed q"
  by (induction s) (auto simp: squeezed_Cons split: if_splits)

lemma shift_loop_eq:
  assumes "i < length r \<Longrightarrow> drop i r = rest @ [NUL]" and "length r \<le> i \<Longrightarrow> rest = []"
    and "NUL \<notin> set rest" and "length r = Suc len" and "j \<le> i"
  shows "shift_loop r len i j =
           (take j r @ squeezed rest @ drop (j + length (squeezed rest)) r, j + length (squeezed rest))"
  using assms
proof (induction "length rest" arbitrary: r i j rest rule: less_induct)
  case less
  show ?case
  proof (cases "i < len")
    case False
    have "rest = []"
    proof (cases "i < length r")
      case True
      then have "length (drop i r) = length rest + 1" using less.prems(1) by simp
      then have "length r - i = length rest + 1" by simp
      then have "length rest = 0" using False less.prems(4) by linarith
      then show ?thesis by simp
    qed (use less.prems in simp)
    then show ?thesis using False by (simp add: shift_loop.simps [of r len i j] squeezed_def)
  next
    case True
    then have d: "drop i r = rest @ [NUL]" using less.prems by simp
    let ?p = "takeWhile isspace rest" and ?q = "dropWhile isspace rest"
    let ?i = "i + length ?p"
    have sk: "skip_space r i = ?i" using d less.prems(3) by (rule skip_space_eq)
    have dr: "drop ?i r = ?q @ [NUL]"
      using d length_takeWhile_le [of isspace rest]
      by (simp add: add.commute [of i] drop_drop [symmetric] dropWhile_eq_drop)
    have unf: "shift_loop r len i j = shift_loop (r[j := r ! ?i]) len (Suc ?i) (Suc j)"
      using True by (simp add: shift_loop.simps [of r len i j] sk Let_def)
    have j: "j < length r" using True less.prems by simp
    show ?thesis
    proof (cases ?q)
      case Nil
      have lr: "length rest = len - i" using arg_cong [OF d, of length] less.prems(4) by simp
      then have ne: "rest \<noteq> []" using True by auto
      have sp: "\<forall>x \<in> set rest. isspace x" using Nil by (simp add: dropWhile_eq_Nil_conv)
      then have all: "squeezed rest = [NUL]" using ne by (simp add: squeezed_def)
      have tw: "takeWhile isspace rest = rest" using sp by (simp add: takeWhile_eq_all_conv)
      have i: "?i = len" using lr True by (simp add: tw)
      have "r ! len = NUL" using dr Nil i by (metis append_Nil nth_via_drop)
      then show ?thesis
        unfolding unf i by (simp add: all shift_loop.simps [of _ len "Suc len"] upd_conv_take_nth_drop j)
    next
      case (Cons c q)
      let ?r = "r[j := r ! ?i]"
      have c: "r ! ?i = c" using dr Cons by (metis append_Cons nth_via_drop)
      have d': "drop (Suc ?i) ?r = q @ [NUL]"
        using dr Cons less.prems(5) by (simp add: drop_Suc tl_drop [symmetric]) (metis drop_Suc drop_update_cancel le_imp_less_Suc list.sel(3) tl_drop trans_le_add1)
      have "length q < length rest"
        using Cons length_dropWhile_le [of isspace rest] by simp
      moreover have "NUL \<notin> set q"
        using Cons less.prems(3) set_dropWhileD [of NUL isspace rest] by auto
      ultimately have "shift_loop ?r len (Suc ?i) (Suc j) =
          (take (Suc j) ?r @ squeezed q @ drop (Suc j + length (squeezed q)) ?r, Suc j + length (squeezed q))"
        using d' less.prems(4,5) by (intro less.hyps) (auto dest: arg_cong [where f = length])
      then show ?thesis
        using squeezed_dropWhile [OF Cons] j c unf by (simp add: take_Suc_conv_app_nth)
    qed
  qed
qed

lemma trail_loop_stop: "\<not> isspace (r ! j) \<Longrightarrow> trail_loop r j = r"
  by (cases j) simp_all

lemma takeWhile_upto_NUL:
  "NUL \<notin> set t \<Longrightarrow> takeWhile (\<lambda>c. c \<noteq> NUL) (t @ NUL # u) = t"
  "NUL \<notin> set t \<Longrightarrow> takeWhile (\<lambda>c. c \<noteq> NUL) (t @ [NUL]) = t"
  by (auto simp: takeWhile_append)

lemma clrwspace_leading:
  assumes nul: "NUL \<notin> set s" and s: "s \<noteq> []" "isspace (hd s)"
  defines "t \<equiv> filter (\<lambda>c. \<not> isspace c) s"
  shows "clrwspace s =
           (if isspace (last s) \<or> isspace (s ! length t) then t else t @ drop (length t) s)"
proof -
  let ?r = "s @ [NUL]"
  have t: "NUL \<notin> set t" "\<forall>c \<in> set t. \<not> isspace c" using nul by (auto simp: t_def)
  have lt: "length t < length s"
    using s unfolding t_def by (cases s) (auto simp: le_imp_less_Suc)
  have loop: "shift_loop ?r (length s) 0 0 =
      (squeezed s @ drop (length (squeezed s)) ?r, length (squeezed s))"
    using shift_loop_eq [of 0 ?r s "length s" 0] nul by simp
  have clr: "clrwspace s = takeWhile (\<lambda>c. c \<noteq> NUL)
      (trail_loop (squeezed s @ drop (length (squeezed s)) ?r) (length (squeezed s)))"
    using s by (simp add: clrwspace_def loop nth_append hd_conv_nth)
  show ?thesis
  proof (cases "isspace (last s)")
    case True
    then have sq: "squeezed s = t @ [NUL]" using s by (simp add: squeezed_def t_def)
    have stop: "trail_loop (t @ NUL # v) (length t) = t @ NUL # v" for v
      by (simp add: trail_loop_stop)
    have "takeWhile (\<lambda>c. c \<noteq> NUL) (trail_loop (t @ NUL # u) (Suc (length t))) = t" for u
      using t(1) by (simp add: list_update_append stop takeWhile_upto_NUL)
    then show ?thesis unfolding clr sq using True by simp
  next
    case False
    then have sq: "squeezed s = t" by (simp add: squeezed_def t_def)
    have d: "drop (length t) ?r = s ! length t # drop (Suc (length t)) ?r"
      using lt by (simp add: Cons_nth_drop_Suc [symmetric] nth_append)
    have "last s \<in> set t" using False s by (simp add: t_def)
    then obtain t' c where tc: "t = t' @ [c]" by (metis empty_iff empty_set rev_exhaust)
    show ?thesis
    proof (cases "isspace (s ! length t)")
      case True
      then have "trail_loop (t @ drop (length t) ?r) (length t) = t @ NUL # drop (Suc (length t)) ?r"
        unfolding d using t tc by (simp add: nth_append list_update_append trail_loop_stop)
      then show ?thesis unfolding clr sq using True t by (simp add: takeWhile_upto_NUL)
    next
      case nsp: False
      then have "trail_loop (t @ drop (length t) ?r) (length t) = t @ drop (length t) ?r"
        unfolding d by (simp add: trail_loop_stop)
      moreover have "drop (length t) ?r = drop (length t) s @ [NUL]" using lt by simp
      moreover have "NUL \<notin> set (t @ drop (length t) s)"
        using t nul by (auto dest: in_set_dropD)
      ultimately show ?thesis
        unfolding clr sq using False nsp takeWhile_upto_NUL(2) [of "t @ drop (length t) s"] by simp
    qed
  qed
qed

lemma clrwspace_no_leading:
  assumes "NUL \<notin> set s" and "s = [] \<or> \<not> isspace (hd s)"
  shows "clrwspace s = s"
  using assms by (cases s) (auto simp: clrwspace_def takeWhile_append)

section \<open>Namespaces\<close>

definition NC_NS_BASE10 :: string where
  "NC_NS_BASE10 = ''urn:ietf:params:xml:ns:netconf:base:1.0''"

text \<open>\<^verbatim>\<open>nscmp\<close>: 0 when the namespaces match, with the wildcard of RFC 6241.\<close>

definition nscmp :: "xmlnode \<Rightarrow> xmlnode \<Rightarrow> int" where
  "nscmp reference node =
     (case node_ns reference of
        None \<Rightarrow> 0
      | Some ns \<Rightarrow>
          if href ns = NC_NS_BASE10 \<or> clrwspace (href ns) = [] then 0
          else (case node_ns node of
                  None \<Rightarrow> 1
                | Some ns' \<Rightarrow> if href ns = href ns' then 0 else 1))"

fun find_namespace_usage :: "xmlnode \<Rightarrow> nat \<Rightarrow> bool" where
  "find_namespace_usage (Element i n s d p k) ns \<longleftrightarrow>
     (case s of None \<Rightarrow> False | Some x \<Rightarrow> ns_addr x = ns)
     \<or> list_ex (\<lambda>a. case a_ns a of None \<Rightarrow> False | Some x \<Rightarrow> ns_addr x = ns) p
     \<or> list_ex (\<lambda>c. find_namespace_usage c ns) k"
| "find_namespace_usage _ ns \<longleftrightarrow> False"

fun clrns :: "xmlnode \<Rightarrow> xmlnode" where
  "clrns (Element i n s d p k) =
     Element i n s (filter (\<lambda>x. find_namespace_usage (Element i n s d p k) (ns_addr x)) d) p k"
| "clrns x = x"

lemma nscmp_01: "nscmp a b = 0 \<or> nscmp a b = 1"
  by (simp add: nscmp_def split: option.split)

lemma nscmp_refl [simp]: "nscmp a a = 0"
  by (simp add: nscmp_def split: option.split)

section \<open>Defaults and keys of the data model\<close>

definition get_defval :: "xmlnode \<Rightarrow> ancestors \<Rightarrow> string option" where
  "get_defval node as =
     (let n = node_name node in
      if n = ''lost-connection-behavior'' then Some ''failSecureMode''
      else if n = ''port'' \<and> anc_name as 0 = Some ''controller'' then Some ''6633''
      else if n = ''protocol'' then Some ''tls''
      else if n = ''checksum-present'' \<or> n = ''key-present'' \<or> n = ''auto-negotiate''
        then Some ''true''
      else if n = ''no-receive'' \<or> n = ''no-forward'' \<or> n = ''no-packet-in'' then Some ''false''
      else if n = ''admin-state'' then Some ''up''
      else None)"

definition is_key :: "xmlnode \<Rightarrow> ancestors \<Rightarrow> bool" where
  "is_key node as =
     (let n = node_name node; p = anc_name as 0 in
      if n = ''id'' then p = Some ''switch'' \<or> p = Some ''controller''
      else if n = ''table-id'' then True
      else if n = ''name'' \<and> p \<noteq> Some ''flow-table'' then True
      else n = ''resource-id'' \<and> p \<noteq> Some ''flow-table'')"

section \<open>Matching elements\<close>

definition first_child :: "xmlnode \<Rightarrow> xmlnode option" where
  "first_child x = (case children x of [] \<Rightarrow> None | c # cs \<Rightarrow> Some c)"

definition is_leaf_list_name :: "xmlnode \<Rightarrow> ancestors \<Rightarrow> bool" where
  "is_leaf_list_name node2 as \<longleftrightarrow>
     node_name node2 \<in> {''queue'', ''flow-table'', ''rate'', ''medium''}
     \<or> (node_name node2 = ''port'' \<and> anc_name as 0 = Some ''resources'')"

definition list_key :: "xmlnode \<Rightarrow> ancestors \<Rightarrow> string option" where
  "list_key node2 as =
     (let n = node_name node2; gp = anc_name as 1 in
      if n = ''controller'' \<or> n = ''switch'' then Some ''id''
      else if n = ''port'' \<and> gp = Some ''capable-switch'' then Some ''name''
      else if n = ''flow-table'' \<and> gp = Some ''capable-switch'' then Some ''table-id''
      else if (n = ''queue'' \<or> n = ''owned-certificate'' \<or> n = ''external-certificate'')
              \<and> gp = Some ''capable-switch'' then Some ''resource-id''
      else None)"

text \<open>
  \<^verbatim>\<open>matching_elements\<close>: 1 for a match, 0 for none, -1 if a node is missing. The list \<open>as\<close> holds
  the ancestors of the second node.
\<close>

lemma first_child_size [termination_simp]: "first_child x = Some c \<Longrightarrow> size c < size x"
  by (auto simp: first_child_def split: list.splits intro!: child_size)

function matching_elements :: "xmlnode option \<Rightarrow> xmlnode option \<Rightarrow> ancestors \<Rightarrow> int" where
  "matching_elements (Some node1) (Some node2) as =
     (if is_text node1 \<and> is_text node2 then
        (if clrwspace (t_content node1) = clrwspace (t_content node2) then 1 else 0)
      else if \<not> is_element node1 \<or> \<not> is_element node2 then 0
      else if node_name node1 \<noteq> node_name node2 then 0
      else if nscmp node1 node2 \<noteq> 0 then 0
      else if is_leaf_list_name node2 as
              \<and> (case (first_child node1, first_child node2) of
                   (Some c1, Some c2) \<Rightarrow> is_text c1 \<and> is_text c2 | _ \<Rightarrow> False)
        then matching_elements (first_child node1) (first_child node2) (node2 # as)
      else (case list_key node2 as of
              None \<Rightarrow> 1
            | Some k \<Rightarrow>
                (case go2node (Some node1) k of
                   None \<Rightarrow> 0
                 | Some key1 \<Rightarrow>
                     (case go2node (Some node2) k of
                        None \<Rightarrow> 0
                      | Some key2 \<Rightarrow>
                          matching_elements (first_child key1) (first_child key2)
                            (key2 # node2 # as)))))"
| "matching_elements None y as = -1"
| "matching_elements (Some x) None as = -1"
  by pat_completeness auto
termination
proof (relation "measure (\<lambda>(x, y, as). case x of None \<Rightarrow> 0 | Some a \<Rightarrow> size a)", goal_cases)
  case (3 node1 node2 as k key1 key2)
  then have "size key1 < size node1" by (simp add: go2node_size)
  then show ?case by (auto split: option.splits dest!: first_child_size)
qed (auto split: option.splits dest!: first_child_size)

declare matching_elements.simps(1) [simp del]

text \<open>The first child of the original document's node that matches, with its position.\<close>

fun find_child :: "xmlnode \<Rightarrow> xmlnode list \<Rightarrow> ancestors \<Rightarrow> (nat \<times> xmlnode) option" where
  "find_child e [] as = None"
| "find_child e (c # cs) as =
     (if matching_elements (Some e) (Some c) as = 0
      then map_option (\<lambda>(i, x). (Suc i, x)) (find_child e cs as)
      else Some (0, c))"

text \<open>
  \<^verbatim>\<open>find_element_equiv\<close> climbs to the root of the edit document and descends in the original
  one, taking the first matching child at every level. The result is the position of the node
  found, as the list of child indices from the document node.
\<close>

fun find_equiv :: "xmlnode list \<Rightarrow> ancestors \<Rightarrow> xmlnode list \<Rightarrow> nat list option" where
  "find_equiv kids as [] = Some []"
| "find_equiv kids as (e # es) =
     (case find_child e kids as of
        None \<Rightarrow> None
      | Some (i, c) \<Rightarrow> map_option (\<lambda>p. i # p) (find_equiv (children c) (c # as) es))"

definition find_element_equiv :: "xmldoc \<Rightarrow> ancestors \<Rightarrow> xmlnode \<Rightarrow> nat list option" where
  "find_element_equiv orig_doc eas edit = find_equiv orig_doc [] (rev (edit # eas))"

section \<open>What the search finds\<close>

lemma find_child_Some_iff:
  "find_child e kids as = Some (i, c) \<longleftrightarrow>
     i < length kids \<and> c = kids ! i \<and> matching_elements (Some e) (Some c) as \<noteq> 0
     \<and> (\<forall>j < i. matching_elements (Some e) (Some (kids ! j)) as = 0)"
proof (induction kids arbitrary: i)
  case (Cons k kids)
  show ?case
  proof (cases i)
    case 0
    then show ?thesis using Cons.IH by auto
  next
    case (Suc i')
    then show ?thesis
      using Cons.IH [of i'] by (auto simp: All_less_Suc2)
  qed
qed simp

lemma find_child_None_iff:
  "find_child e kids as = None \<longleftrightarrow> (\<forall>c \<in> set kids. matching_elements (Some e) (Some c) as = 0)"
  by (induction kids) auto

text \<open>
  The declarative reading of the descent: at every level the position takes the least index
  whose node matches the edit node of that level.
\<close>

fun least_match_path :: "xmlnode list \<Rightarrow> ancestors \<Rightarrow> xmlnode list \<Rightarrow> position \<Rightarrow> bool" where
  "least_match_path kids as [] p \<longleftrightarrow> p = []"
| "least_match_path kids as (e # es) [] \<longleftrightarrow> False"
| "least_match_path kids as (e # es) (i # p) \<longleftrightarrow>
     i < length kids \<and> matching_elements (Some e) (Some (kids ! i)) as \<noteq> 0
     \<and> (\<forall>j < i. matching_elements (Some e) (Some (kids ! j)) as = 0)
     \<and> least_match_path (children (kids ! i)) (kids ! i # as) es p"

lemma find_equiv_iff: "find_equiv kids as es = Some p \<longleftrightarrow> least_match_path kids as es p"
proof (induction kids as es p rule: least_match_path.induct)
  case (3 kids as e es i p)
  show ?case
  proof
    assume "find_equiv kids as (e # es) = Some (i # p)"
    then obtain c where c: "find_child e kids as = Some (i, c)"
      and r: "find_equiv (children c) (c # as) es = Some p"
      by (auto split: option.splits)
    then show "least_match_path kids as (e # es) (i # p)"
      using "3.IH" by (auto simp: find_child_Some_iff)
  next
    assume m: "least_match_path kids as (e # es) (i # p)"
    then have "find_child e kids as = Some (i, kids ! i)"
      by (simp add: find_child_Some_iff)
    then show "find_equiv kids as (e # es) = Some (i # p)" using m "3.IH" by simp
  qed
qed (auto split: option.splits)

lemma least_match_path_node_at:
  assumes "least_match_path kids as es p" and "es \<noteq> []"
  shows "\<exists>n. node_at kids p = Some n
            \<and> matching_elements (Some (last es)) (Some n) (ancestors_at kids as p) \<noteq> 0"
  using assms
proof (induction kids as es p rule: least_match_path.induct)
  case (3 kids as e es i p)
  then show ?case by (cases es; cases p) auto
qed auto

lemma find_element_equiv_node_at:
  assumes "find_element_equiv doc eas e = Some p"
  shows "\<exists>n. node_at doc p = Some n
            \<and> matching_elements (Some e) (Some n) (ancestors_at doc [] p) \<noteq> 0"
  using assms least_match_path_node_at [of doc "[]" "rev (e # eas)" p]
  by (simp add: find_element_equiv_def find_equiv_iff)

section \<open>Properties\<close>

text \<open>
  C26: what \<^verbatim>\<open>clrwspace\<close> returns, for every string. Without leading white space the string is
  returned as it is, trailing white space included. With leading white space all white space is
  removed, also between words, and unless the string ends in white space or the loop leaves a blank
  where the text now ends, the tail of the old string stays behind the text.
\<close>

theorem clrwspace_exact:
  assumes "NUL \<notin> set s"
  shows "clrwspace s =
     (let t = filter (\<lambda>c. \<not> isspace c) s in
      if s = [] \<or> \<not> isspace (hd s) then s
      else if isspace (last s) \<or> isspace (s ! length t) then t
      else t @ drop (length t) s)"
  using clrwspace_no_leading [OF assms] clrwspace_leading [OF assms] by (simp add: Let_def)

theorem clrwspace_exact_witness:
  "clrwspace '' ab'' = ''abb'' \<and> clrwspace ''ab '' = ''ab '' \<and> clrwspace '' a b '' = ''ab''"
  using clrwspace_exact [of "'' ab''"] clrwspace_exact [of "''ab ''"] clrwspace_exact [of "'' a b ''"]
  by (simp add: isspace_def)

text \<open>
  C23: the search for the equivalent of an edit node takes, at every level from the root, the first
  child of the original document that matches the edit node of that level, and never backtracks;
  when it finds a node, that node matches the edit node.
\<close>

theorem find_element_equiv_first_match:
  "(find_element_equiv doc eas e = Some p \<longleftrightarrow> least_match_path doc [] (rev (e # eas)) p)
   \<and> (find_element_equiv doc eas e = None \<longleftrightarrow> (\<nexists>q. least_match_path doc [] (rev (e # eas)) q))
   \<and> (case find_element_equiv doc eas e of
        None \<Rightarrow> True
      | Some q \<Rightarrow> \<exists>n. node_at doc q = Some n
                    \<and> matching_elements (Some e) (Some n) (ancestors_at doc [] q) \<noteq> 0)"
proof -
  have iff: "find_element_equiv doc eas e = Some q \<longleftrightarrow> least_match_path doc [] (rev (e # eas)) q" for q
    by (simp only: find_element_equiv_def find_equiv_iff)
  then have "find_element_equiv doc eas e = None \<longleftrightarrow> (\<nexists>q. least_match_path doc [] (rev (e # eas)) q)"
    by (metis not_None_eq)
  then show ?thesis
    using iff find_element_equiv_node_at [of doc eas e] by (auto split: option.split)
qed

end
