(* ===== verification/Edit_Check.thy ===== *)
theory Edit_Check
  imports Edit_Match
begin

text \<open>
  The checking half of \<^verbatim>\<open>edit-config.c\<close>: the operation attribute, the check of list keys, the
  check of the hierarchy of operations, \<^verbatim>\<open>check_edit_ops\<close> and the compaction of redundant
  operation attributes.

  The two enumerations of libnetconf are datatypes. The code casts a default operation to an
  operation; since the numbers are not part of these sources, the cast is a parameter
  \<open>cast\<close> where it matters.
\<close>

datatype edit_op =
    NC_EDIT_OP_ERROR | NC_EDIT_OP_NOTSET | NC_EDIT_OP_MERGE | NC_EDIT_OP_REPLACE
  | NC_EDIT_OP_CREATE | NC_EDIT_OP_DELETE | NC_EDIT_OP_REMOVE

datatype defop =
    NC_EDIT_DEFOP_NOTSET | NC_EDIT_DEFOP_MERGE | NC_EDIT_DEFOP_REPLACE | NC_EDIT_DEFOP_NONE

datatype ncwd_mode = NCWD_MODE_ALL | NCWD_MODE_TRIM | NCWD_MODE_EXPLICIT | NCWD_MODE_OTHER

section \<open>The operation attribute\<close>

definition is_op_attr :: "xattr \<Rightarrow> bool" where
  "is_op_attr a \<longleftrightarrow>
     a_name a = ''operation'' \<and> (case a_ns a of None \<Rightarrow> False | Some ns \<Rightarrow> href ns = NC_NS_BASE10)"

text \<open>\<^verbatim>\<open>xmlGetNsProp(node, "operation", NC_NS_BASE10)\<close>\<close>

definition op_attr :: "xmlnode \<Rightarrow> string option" where
  "op_attr node = map_option a_value (find is_op_attr (props node))"

definition op_string :: "edit_op \<Rightarrow> string option" where
  "op_string op =
     (case op of
        NC_EDIT_OP_MERGE \<Rightarrow> Some ''merge''
      | NC_EDIT_OP_REPLACE \<Rightarrow> Some ''replace''
      | NC_EDIT_OP_CREATE \<Rightarrow> Some ''create''
      | NC_EDIT_OP_DELETE \<Rightarrow> Some ''delete''
      | NC_EDIT_OP_REMOVE \<Rightarrow> Some ''remove''
      | _ \<Rightarrow> None)"

text \<open>
  \<^verbatim>\<open>get_operation\<close>: the operation of the node, \<open>defop\<close> if there is none,
  \<open>NC_EDIT_OP_ERROR\<close> if the value is not an operation. The error the code stores in the
  last case is \<open>bad_operation\<close>.
\<close>

definition get_operation :: "xmlnode \<Rightarrow> edit_op \<Rightarrow> edit_op" where
  "get_operation node defop =
     (case op_attr node of
        None \<Rightarrow> defop
      | Some v \<Rightarrow>
          if v = ''merge'' then NC_EDIT_OP_MERGE
          else if v = ''replace'' then NC_EDIT_OP_REPLACE
          else if v = ''create'' then NC_EDIT_OP_CREATE
          else if v = ''delete'' then NC_EDIT_OP_DELETE
          else if v = ''remove'' then NC_EDIT_OP_REMOVE
          else NC_EDIT_OP_ERROR)"

definition bad_operation :: nc_err where
  "bad_operation = (nc_err_new NC_ERR_BAD_ATTR)\<lparr>err_badattr := Some ''operation''\<rparr>"

text \<open>
  \<^verbatim>\<open>get_operation_elements\<close>: the addresses of the nodes selected by
  \<^verbatim>\<open>//*[@nc:operation='...']\<close>, in document order.
\<close>

fun nodes_with_op :: "string \<Rightarrow> xmlnode \<Rightarrow> nat list" where
  "nodes_with_op v (Element i n s d p k) =
     (if op_attr (Element i n s d p k) = Some v then [i] else [])
     @ concat (map (nodes_with_op v) k)"
| "nodes_with_op v x = []"

definition get_operation_elements :: "edit_op \<Rightarrow> xmldoc \<Rightarrow> nat list option" where
  "get_operation_elements op edit =
     (case op_string op of
        None \<Rightarrow> None
      | Some v \<Rightarrow> Some (concat (map (nodes_with_op v) edit)))"

section \<open>Keys of list instances\<close>

fun first_some :: "('a \<Rightarrow> 'b option) \<Rightarrow> 'a list \<Rightarrow> 'b option" where
  "first_some f [] = None"
| "first_some f (x # xs) = (case f x of Some y \<Rightarrow> Some y | None \<Rightarrow> first_some f xs)"

definition lacks :: "xmlnode \<Rightarrow> string \<Rightarrow> xmlnode option" where
  "lacks x k = (if go2node (Some x) k = None then Some x else None)"

text \<open>The three nested loops of \<^verbatim>\<open>check_keys\<close>; each gives the first element with no key.\<close>

definition resource_no_key :: "xmlnode \<Rightarrow> xmlnode option" where
  "resource_no_key l2 =
     (if \<not> is_element l2 then None
      else if node_name l2 = ''port'' then lacks l2 ''name''
      else if node_name l2 = ''queue'' \<or> node_name l2 = ''owned-certificate''
              \<or> node_name l2 = ''external-certificate'' then lacks l2 ''resource-id''
      else if node_name l2 = ''flow-table'' then lacks l2 ''table-id''
      else None)"

definition controller_no_key :: "xmlnode \<Rightarrow> xmlnode option" where
  "controller_no_key l3 =
     (if \<not> is_element l3 \<or> node_name l3 \<noteq> ''controller'' then None else lacks l3 ''id'')"

definition switch_no_key :: "xmlnode \<Rightarrow> xmlnode option" where
  "switch_no_key l2 =
     (if \<not> is_element l2 \<or> node_name l2 \<noteq> ''switch'' then None
      else case lacks l2 ''id'' of
             Some e \<Rightarrow> Some e
           | None \<Rightarrow>
               (case go2node (Some l2) ''controllers'' of
                  None \<Rightarrow> None
                | Some l3 \<Rightarrow> first_some controller_no_key (children l3)))"

definition top_no_key :: "xmlnode \<Rightarrow> xmlnode option" where
  "top_no_key l1 =
     (if \<not> is_element l1 then None
      else if node_name l1 = ''resources'' then first_some resource_no_key (children l1)
      else if node_name l1 = ''logical-switches'' then first_some switch_no_key (children l1)
      else None)"

text \<open>\<^verbatim>\<open>xmlDocGetRootElement\<close>\<close>

definition root_element :: "xmldoc \<Rightarrow> xmlnode option" where
  "root_element doc = find is_element doc"

definition check_keys :: "xmldoc \<Rightarrow> nc_err option" where
  "check_keys doc =
     (case root_element doc of
        None \<Rightarrow> None
      | Some root \<Rightarrow>
          (case first_some top_no_key (children root) of
             None \<Rightarrow> None
           | Some enode \<Rightarrow>
               Some (err_elem_text NC_ERR_BAD_ELEM (node_name enode) ''The list element misses key.'')))"

section \<open>Hierarchy of operations\<close>

fun check_parents :: "edit_op list \<Rightarrow> ancestors \<Rightarrow> nc_err option" where
  "check_parents bad [] = None"
| "check_parents bad (parent # ps) =
     (let parent_op = get_operation parent NC_EDIT_OP_NOTSET in
      if parent_op = NC_EDIT_OP_ERROR then Some bad_operation
      else if parent_op \<in> set bad then Some op_failed
      else check_parents bad ps)"

definition check_edit_ops_hierarchy :: "xmlnode \<Rightarrow> ancestors \<Rightarrow> defop \<Rightarrow> nc_err option" where
  "check_edit_ops_hierarchy edit as defop =
     (let op = get_operation edit NC_EDIT_OP_NOTSET in
      if op = NC_EDIT_OP_NOTSET then None
      else if op = NC_EDIT_OP_ERROR then Some bad_operation
      else if op = NC_EDIT_OP_DELETE \<or> op = NC_EDIT_OP_REMOVE then
        (if defop = NC_EDIT_DEFOP_REPLACE then Some op_failed
         else check_parents [NC_EDIT_OP_CREATE, NC_EDIT_OP_REPLACE] as)
      else if op = NC_EDIT_OP_CREATE \<or> op = NC_EDIT_OP_REPLACE then
        check_parents [NC_EDIT_OP_DELETE, NC_EDIT_OP_REMOVE] as
      else None)"

section \<open>Checks against the original data\<close>

text \<open>
  One round of the loop of \<^verbatim>\<open>check_edit_ops\<close>. With the with-defaults modes \<^verbatim>\<open>all\<close> and \<^verbatim>\<open>trim\<close> the
  code compares the element with its default value; \<^verbatim>\<open>get_defval\<close> returns a string literal, which
  the code passes to \<^verbatim>\<open>xmlFree\<close> on every path where it is not NULL, so those paths are undefined.
  \<open>xmlNodeGetContent\<close> of an element never gives NULL.
\<close>

definition default_branch :: "nc_err_tag \<Rightarrow> xmlnode \<Rightarrow> ancestors \<Rightarrow> unit outcome" where
  "default_branch tag node as =
     (case get_defval node as of
        None \<Rightarrow> fail (nc_err_new tag) ()
      | Some v \<Rightarrow> Undef)"

definition check_edit_op_node ::
  "edit_op \<Rightarrow> defop \<Rightarrow> ncwd_mode \<Rightarrow> xmldoc option \<Rightarrow> xmldoc \<Rightarrow> nat \<Rightarrow> unit \<Rightarrow> unit outcome" where
  "check_edit_op_node op defop mode orig edit a u =
     (case locate_in a edit [] of
        None \<Rightarrow> Undef
      | Some (node, as) \<Rightarrow>
          (case check_edit_ops_hierarchy node as defop of
             Some e \<Rightarrow> fail e ()
           | None \<Rightarrow>
               (let n = (case orig of None \<Rightarrow> None | Some d \<Rightarrow> find_element_equiv d as node) in
                if op = NC_EDIT_OP_DELETE \<and> n = None then
                  (if mode = NCWD_MODE_ALL then default_branch NC_ERR_DATA_MISSING node as
                   else fail (nc_err_new NC_ERR_DATA_MISSING) ())
                else if op = NC_EDIT_OP_CREATE \<and> n \<noteq> None then
                  (if mode = NCWD_MODE_TRIM then default_branch NC_ERR_DATA_EXISTS node as
                   else fail (nc_err_new NC_ERR_DATA_EXISTS) ())
                else Success ())))"

definition check_edit_ops ::
  "edit_op \<Rightarrow> defop \<Rightarrow> ncwd_mode \<Rightarrow> xmldoc option \<Rightarrow> xmldoc \<Rightarrow> unit outcome" where
  "check_edit_ops op defop mode orig edit =
     (case get_operation_elements op edit of
        None \<Rightarrow> fail op_failed ()
      | Some nodes \<Rightarrow> for_each (check_edit_op_node op defop mode orig edit) nodes ())"

section \<open>Compaction\<close>

text \<open>
  \<^verbatim>\<open>xmlRemoveProp(xmlHasNsProp(node, "operation", NC_NS_BASE10))\<close>, then \<^verbatim>\<open>clrns\<close>. \<^verbatim>\<open>get_operation\<close> is
  called with a NULL error pointer here and writes through it when the attribute is not an
  operation: \<open>None\<close> stands for that.
\<close>

fun remove_first :: "('a \<Rightarrow> bool) \<Rightarrow> 'a list \<Rightarrow> 'a list" where
  "remove_first P [] = []"
| "remove_first P (x # xs) = (if P x then xs else x # remove_first P xs)"

fun drop_op_attr :: "xmlnode \<Rightarrow> xmlnode" where
  "drop_op_attr (Element i n s d p k) = clrns (Element i n s d (remove_first is_op_attr p) k)"
| "drop_op_attr x = x"

fun compact_edit_operations_r :: "edit_op \<Rightarrow> xmlnode \<Rightarrow> xmlnode option" where
  "compact_edit_operations_r supreme_op (Element i n s d p k) =
     (let node = Element i n s d p k; op = get_operation node NC_EDIT_OP_NOTSET in
      if op = NC_EDIT_OP_ERROR then None
      else
        let node' = (if op \<noteq> NC_EDIT_OP_NOTSET \<and> op = supreme_op then drop_op_attr node else node);
            op' = (if op = NC_EDIT_OP_NOTSET then supreme_op else op)
        in map_option (\<lambda>ks. set_children ks node')
             (all_some (map (compact_edit_operations_r op') k)))"
| "compact_edit_operations_r supreme_op x = Some x"

definition compact_edit_operations :: "(defop \<Rightarrow> edit_op) \<Rightarrow> xmldoc \<Rightarrow> defop \<Rightarrow> xmldoc option" where
  "compact_edit_operations cast edit_doc defop =
     all_some (map (\<lambda>root. if is_element root then compact_edit_operations_r (cast defop) root
                            else Some root) edit_doc)"

section \<open>Lemmas\<close>

lemma first_some_None: "first_some f xs = None \<longleftrightarrow> (\<forall>x \<in> set xs. f x = None)"
  by (induction xs) (auto split: option.split)

lemma first_some_Some:
  "first_some f xs = Some y \<Longrightarrow> \<exists>x \<in> set xs. f x = Some y"
  by (induction xs) (auto split: option.splits)

subsection \<open>Keys\<close>

definition has_child :: "xmlnode \<Rightarrow> string \<Rightarrow> bool" where
  "has_child x n \<longleftrightarrow> (\<exists>c \<in> set (children x). is_element c \<and> node_name c = n)"

text \<open>Which leaf identifies an instance of a list of \<^verbatim>\<open>/capable-switch/resources\<close>.\<close>

definition resource_key :: "string \<Rightarrow> string option" where
  "resource_key n =
     map_of [(''port'', ''name''), (''queue'', ''resource-id''), (''owned-certificate'', ''resource-id''),
             (''external-certificate'', ''resource-id''), (''flow-table'', ''table-id'')] n"

definition child_elements :: "xmlnode \<Rightarrow> string \<Rightarrow> xmlnode set" where
  "child_elements x n = {c \<in> set (children x). is_element c \<and> node_name c = n}"

definition keys_present :: "xmlnode \<Rightarrow> bool" where
  "keys_present root \<longleftrightarrow>
     (\<forall>res \<in> child_elements root ''resources''. \<forall>l \<in> set (children res). \<forall>k.
        is_element l \<longrightarrow> resource_key (node_name l) = Some k \<longrightarrow> has_child l k)
   \<and> (\<forall>ls \<in> child_elements root ''logical-switches''. \<forall>sw \<in> child_elements ls ''switch''.
        has_child sw ''id''
        \<and> (\<forall>cs. go2node (Some sw) ''controllers'' = Some cs \<longrightarrow>
              (\<forall>c \<in> child_elements cs ''controller''. has_child c ''id'')))"

lemma lacks_None: "lacks x k = None \<longleftrightarrow> has_child x k"
  by (auto simp: lacks_def go2node_None_iff has_child_def)

lemma resource_no_key_None:
  "resource_no_key l = None \<longleftrightarrow>
     (\<forall>k. is_element l \<longrightarrow> resource_key (node_name l) = Some k \<longrightarrow> has_child l k)"
  by (auto simp: resource_no_key_def resource_key_def lacks_None split: if_splits)

lemma controllers_no_key_None:
  "first_some controller_no_key (children cs) = None \<longleftrightarrow>
     (\<forall>c \<in> child_elements cs ''controller''. has_child c ''id'')"
  by (auto simp: first_some_None controller_no_key_def lacks_None child_elements_def split: if_splits)

lemma switch_no_key_None:
  "switch_no_key sw = None \<longleftrightarrow>
     (is_element sw \<longrightarrow> node_name sw = ''switch'' \<longrightarrow>
        has_child sw ''id''
        \<and> (\<forall>cs. go2node (Some sw) ''controllers'' = Some cs \<longrightarrow>
              (\<forall>c \<in> child_elements cs ''controller''. has_child c ''id'')))"
  using lacks_None [of sw "''id''"]
  by (auto simp: switch_no_key_def controllers_no_key_None split: option.splits)

lemma tops_no_key_None:
  "first_some top_no_key (children root) = None \<longleftrightarrow> keys_present root"
  by (auto simp: first_some_None top_no_key_def resource_no_key_None switch_no_key_None
      keys_present_def child_elements_def split: if_splits)

lemma check_keys_None:
  "check_keys doc = None \<longleftrightarrow> (\<forall>root. root_element doc = Some root \<longrightarrow> keys_present root)"
  by (auto simp: check_keys_def tops_no_key_None [symmetric] split: option.splits)

lemma check_keys_Some:
  "check_keys doc = Some e \<Longrightarrow> err_tag e = NC_ERR_BAD_ELEM"
  by (auto simp: check_keys_def split: option.splits)

subsection \<open>Hierarchy\<close>

lemma check_parents_None:
  "check_parents bad as = None \<longleftrightarrow>
     (\<forall>p \<in> set as. get_operation p NC_EDIT_OP_NOTSET \<notin> set (NC_EDIT_OP_ERROR # bad))"
  by (induction as) (auto simp: Let_def)

text \<open>
  The rule of the comment above \<^verbatim>\<open>check_edit_ops_hierarchy\<close>: a removal has no creation above it, a
  creation no removal, where the default operation counts for a removal.
\<close>

definition removal_ops :: "edit_op set" where
  "removal_ops = {NC_EDIT_OP_DELETE, NC_EDIT_OP_REMOVE}"

definition creation_ops :: "edit_op set" where
  "creation_ops = {NC_EDIT_OP_CREATE, NC_EDIT_OP_REPLACE}"

definition hierarchy_ok :: "xmlnode \<Rightarrow> ancestors \<Rightarrow> defop \<Rightarrow> bool" where
  "hierarchy_ok node as defop \<longleftrightarrow>
     (let op = get_operation node NC_EDIT_OP_NOTSET;
          none_above = (\<lambda>S. \<forall>p \<in> set as. get_operation p NC_EDIT_OP_NOTSET \<notin> S)
      in op \<noteq> NC_EDIT_OP_ERROR
         \<and> (op \<in> removal_ops \<longrightarrow>
              defop \<noteq> NC_EDIT_DEFOP_REPLACE \<and> none_above (insert NC_EDIT_OP_ERROR creation_ops))
         \<and> (op \<in> creation_ops \<longrightarrow> none_above (insert NC_EDIT_OP_ERROR removal_ops)))"

lemma check_hierarchy_None:
  "check_edit_ops_hierarchy node as defop = None \<longleftrightarrow> hierarchy_ok node as defop"
  by (cases "get_operation node NC_EDIT_OP_NOTSET")
    (simp_all add: check_edit_ops_hierarchy_def hierarchy_ok_def check_parents_None removal_ops_def
      creation_ops_def)

subsection \<open>Compaction keeps the operation of every node\<close>

text \<open>The operation in force at a node: its own, or the nearest one above, or the default.\<close>

definition op_in_force :: "edit_op \<Rightarrow> xmlnode \<Rightarrow> edit_op" where
  "op_in_force inh x = get_operation x inh"

fun effective_ops :: "edit_op \<Rightarrow> xmlnode \<Rightarrow> (nat \<times> edit_op) list" where
  "effective_ops inh (Element i n s d p k) =
     (let op = op_in_force inh (Element i n s d p k)
      in (i, op) # concat (map (effective_ops op) k))"
| "effective_ops inh x = [(xid x, inh)]"

text \<open>No node repeats the operation it would inherit.\<close>

fun ops_compact :: "edit_op \<Rightarrow> xmlnode \<Rightarrow> bool" where
  "ops_compact inh (Element i n s d p k) \<longleftrightarrow>
     (get_operation (Element i n s d p k) NC_EDIT_OP_NOTSET \<noteq> inh \<or> inh = NC_EDIT_OP_NOTSET)
     \<and> list_all (ops_compact (op_in_force inh (Element i n s d p k))) k"
| "ops_compact inh x \<longleftrightarrow> True"

text \<open>XML allows an attribute once per element; all operations are valid.\<close>

fun ops_wf :: "xmlnode \<Rightarrow> bool" where
  "ops_wf (Element i n s d p k) \<longleftrightarrow>
     length (filter is_op_attr p) \<le> 1
     \<and> get_operation (Element i n s d p k) NC_EDIT_OP_NOTSET \<noteq> NC_EDIT_OP_ERROR
     \<and> list_all ops_wf k"
| "ops_wf x \<longleftrightarrow> True"

lemma remove_first_only: "length (filter P p) \<le> 1 \<Longrightarrow> filter P (remove_first P p) = []"
  by (induction p) (auto split: if_splits)

lemma no_op_attr_left:
  assumes "length (filter P p) \<le> 1"
  shows "find P (remove_first P p) = None"
  using remove_first_only [OF assms] by (simp add: find_None_iff filter_empty_conv)

lemma get_operation_props:
  "get_operation (Element i n s d p k) o1 = get_operation (Element i' n' s' d' p k') o1"
  by (simp add: get_operation_def op_attr_def)

lemma get_operation_drop:
  assumes "length (filter is_op_attr p) \<le> 1"
  shows "get_operation (set_children ks (drop_op_attr (Element i n s d p k))) o1 = o1"
  using no_op_attr_left [OF assms] by (simp add: get_operation_def op_attr_def)

lemma op_in_force_eq:
  "op_in_force inh x =
     (if get_operation x NC_EDIT_OP_NOTSET = NC_EDIT_OP_NOTSET then inh
      else get_operation x NC_EDIT_OP_NOTSET)"
  by (simp add: op_in_force_def get_operation_def split: option.splits)

text \<open>One step of the compaction, in terms of the operation in force.\<close>

definition compact_head :: "edit_op \<Rightarrow> xmlnode \<Rightarrow> xmlnode" where
  "compact_head inh x =
     (if get_operation x NC_EDIT_OP_NOTSET \<noteq> NC_EDIT_OP_NOTSET
         \<and> get_operation x NC_EDIT_OP_NOTSET = inh then drop_op_attr x else x)"

lemma compact_step:
  assumes "is_element x" and "get_operation x NC_EDIT_OP_NOTSET \<noteq> NC_EDIT_OP_ERROR"
  shows "compact_edit_operations_r inh x =
     map_option (\<lambda>ks. set_children ks (compact_head inh x))
       (all_some (map (compact_edit_operations_r (op_in_force inh x)) (children x)))"
  using assms by (cases x) (simp_all only: compact_edit_operations_r.simps compact_head_def
      op_in_force_eq Let_def children.simps if_False is_element.simps)

lemma compact_head_ops:
  assumes "is_element x" and "length (filter is_op_attr (props x)) \<le> 1"
  shows "op_in_force inh (set_children ks (compact_head inh x)) = op_in_force inh x"
    and "get_operation (set_children ks (compact_head inh x)) NC_EDIT_OP_NOTSET \<noteq> inh
         \<or> inh = NC_EDIT_OP_NOTSET"
proof -
  obtain i n s d p k where x: "x = Element i n s d p k" using assms(1) by (cases x) auto
  have g: "get_operation (set_children ks (drop_op_attr x)) o1 = o1" for o1
    using assms(2) unfolding x by (intro get_operation_drop) simp
  have same: "get_operation (set_children ks x) o1 = get_operation x o1" for o1
    unfolding x by (simp add: get_operation_props [of i n s d p ks _ i n s d k])
  show "op_in_force inh (set_children ks (compact_head inh x)) = op_in_force inh x"
    by (simp add: compact_head_def op_in_force_eq g same)
  show "get_operation (set_children ks (compact_head inh x)) NC_EDIT_OP_NOTSET \<noteq> inh
         \<or> inh = NC_EDIT_OP_NOTSET"
    by (auto simp: compact_head_def g same)
qed

lemma compact_head_Element:
  "\<exists>d' p'. set_children ks (compact_head inh (Element i n s d p k)) = Element i n s d' p' ks"
  by (simp add: compact_head_def)

lemma compact_total: "ops_wf x \<Longrightarrow> compact_edit_operations_r inh x \<noteq> None"
proof (induction x arbitrary: inh)
  case (Element i n s d p k)
  let ?x = "Element i n s d p k"
  have "\<forall>c \<in> set k. compact_edit_operations_r (op_in_force inh ?x) c \<noteq> None"
    using Element by (simp add: list_all_iff)
  then have "all_some (map (compact_edit_operations_r (op_in_force inh ?x)) k) \<noteq> None"
    unfolding all_some_None_iff by (metis (no_types, lifting) imageE list.set_map)
  then show ?case using Element.prems by (subst compact_step) simp_all
qed simp_all

lemma compact_effective_ops:
  assumes "ops_wf x" and "compact_edit_operations_r inh x = Some y"
  shows "effective_ops inh y = effective_ops inh x \<and> ops_compact inh y"
  using assms
proof (induction x arbitrary: inh y)
  case (Element i n s d p k)
  let ?x = "Element i n s d p k"
  let ?op = "op_in_force inh ?x"
  have ok: "get_operation ?x NC_EDIT_OP_NOTSET \<noteq> NC_EDIT_OP_ERROR"
    and one: "length (filter is_op_attr (props ?x)) \<le> 1" using Element.prems(1) by simp_all
  obtain ks where m: "map (compact_edit_operations_r ?op) k = map Some ks"
    and y: "y = set_children ks (compact_head inh ?x)"
    using Element.prems(2) ok by (subst (asm) compact_step) (auto simp: all_some_Some_iff)
  have len: "length ks = length k" using m by (metis length_map)
  have IH: "effective_ops ?op (ks ! j) = effective_ops ?op (k ! j) \<and> ops_compact ?op (ks ! j)"
    if "j < length k" for j
  proof -
    have "compact_edit_operations_r ?op (k ! j) = Some (ks ! j)"
      using m that len by (metis nth_map)
    moreover have "ops_wf (k ! j)" using Element.prems(1) that by (simp add: list_all_length)
    ultimately show ?thesis using Element.IH [OF nth_mem [OF that]] by blast
  qed
  have "map (effective_ops ?op) ks = map (effective_ops ?op) k"
    using IH len by (intro nth_equalityI) auto
  moreover have "list_all (ops_compact ?op) ks" using IH len by (simp add: list_all_length)
  moreover obtain d' p' where "y = Element i n s d' p' ks"
    using y compact_head_Element by blast
  ultimately show ?case
    using compact_head_ops [OF _ one, where inh = inh and ks = ks] unfolding y
    by (simp add: Let_def)
qed simp_all

section \<open>Properties\<close>

text \<open>
  C24: \<^verbatim>\<open>check_keys\<close> accepts a document exactly if every list instance of the data model (port, queue,
  certificate, flow table, switch, controller) has its key leaf; otherwise the error is
  bad-element.
\<close>

theorem check_keys_exact:
  "(check_keys doc = None \<longleftrightarrow>
      (case root_element doc of None \<Rightarrow> True | Some root \<Rightarrow> keys_present root))
   \<and> (case check_keys doc of None \<Rightarrow> True | Some e \<Rightarrow> err_tag e = NC_ERR_BAD_ELEM)"
  using check_keys_None [of doc] check_keys_Some [of doc] by (auto split: option.split)

text \<open>
  \<^verbatim>\<open>check_edit_ops_hierarchy\<close> reports no error exactly if the operation of the node is valid and
  compatible with all the operations above it: no creation above a removal, no removal above a
  creation.
\<close>

lemma check_hierarchy_exact:
  "check_edit_ops_hierarchy node as defop = None \<longleftrightarrow> hierarchy_ok node as defop"
  by (rule check_hierarchy_None)

lemma nodes_with_op_addrs: "set (nodes_with_op v x) \<subseteq> set (addrs x)"
  by (induction x) auto

lemma locate_operation_element:
  assumes "get_operation_elements op edit = Some nodes" and "a \<in> set nodes"
  shows "\<exists>node as. locate_in a edit [] = Some (node, as)"
proof -
  have "a \<in> set (concat (map addrs edit))"
    using assms nodes_with_op_addrs by (fastforce simp: get_operation_elements_def split: option.splits)
  then show ?thesis using locate_in_None [of a edit "[]"] by (cases "locate_in a edit []") auto
qed

text \<open>What RFC 6241 asks of a node marked for deletion or creation.\<close>

definition op_admissible :: "edit_op \<Rightarrow> defop \<Rightarrow> xmldoc \<Rightarrow> xmldoc \<Rightarrow> nat \<Rightarrow> bool" where
  "op_admissible op defop orig edit a \<longleftrightarrow>
     (\<exists>node as. locate_in a edit [] = Some (node, as) \<and> hierarchy_ok node as defop
        \<and> (op = NC_EDIT_OP_DELETE \<longrightarrow> find_element_equiv orig as node \<noteq> None)
        \<and> (op = NC_EDIT_OP_CREATE \<longrightarrow> find_element_equiv orig as node = None))"

lemma check_node_success:
  assumes "mode \<noteq> NCWD_MODE_ALL" and "mode \<noteq> NCWD_MODE_TRIM"
  shows "check_edit_op_node op defop mode (Some orig) edit a () = Success ()
           \<longleftrightarrow> op_admissible op defop orig edit a"
  using assms
  by (auto simp: check_edit_op_node_def op_admissible_def check_hierarchy_None [symmetric] Let_def
      split: option.splits if_splits)

lemma for_each_unit: "for_each f xs () = Success () \<longleftrightarrow> (\<forall>x \<in> set xs. f x () = Success ())"
  by (induction xs) (auto simp: andthen_eq_Success)

text \<open>
  C22: outside the with-defaults modes report-all and trim, \<^verbatim>\<open>check_edit_ops\<close> passes exactly if all the
  nodes that carry the operation are admissible: the hierarchy is right, a node to delete exists, a
  node to create does not. It never ends in undefined behaviour then.
\<close>

theorem check_edit_ops_exact:
  assumes "mode \<noteq> NCWD_MODE_ALL" and "mode \<noteq> NCWD_MODE_TRIM"
    and "get_operation_elements op edit = Some nodes"
  shows "(check_edit_ops op defop mode (Some orig) edit = Success ()
            \<longleftrightarrow> list_all (op_admissible op defop orig edit) nodes)
         \<and> check_edit_ops op defop mode (Some orig) edit \<noteq> Undef"
proof
  show "check_edit_ops op defop mode (Some orig) edit = Success ()
            \<longleftrightarrow> list_all (op_admissible op defop orig edit) nodes"
    using assms(3) check_node_success [OF assms(1,2)]
    by (simp add: check_edit_ops_def for_each_unit list_all_iff)
  have "for_each (check_edit_op_node op defop mode (Some orig) edit) xs () \<noteq> Undef"
    if "set xs \<subseteq> set nodes" for xs
    using that
  proof (induction xs)
    case (Cons x xs)
    obtain node as where "locate_in x edit [] = Some (node, as)"
      using locate_operation_element [OF assms(3), of x] Cons.prems by auto
    then have "check_edit_op_node op defop mode (Some orig) edit x () \<noteq> Undef"
      using assms(1,2) by (simp add: check_edit_op_node_def Let_def split: option.split)
    then show ?case
      using Cons by (cases "check_edit_op_node op defop mode (Some orig) edit x ()") auto
  qed simp
  then show "check_edit_ops op defop mode (Some orig) edit \<noteq> Undef"
    using assms(3) by (simp add: check_edit_ops_def)
qed

definition demo_op :: "string \<Rightarrow> xattr" where
  "demo_op v = XAttr ''operation'' (Some (XmlNs 0 NC_NS_BASE10)) v"

definition demo_edit :: xmldoc where
  "demo_edit = [Element 1 ''capable-switch'' None [] []
     [Element 2 ''resources'' None [] []
       [Element 3 ''port'' None [] [demo_op ''delete''] [Element 4 ''name'' None [] [] [TextNode 5 ''eth0'']]]]]"

lemma demo_edit_nodes: "get_operation_elements NC_EDIT_OP_DELETE demo_edit = Some [3]"
  by (simp add: demo_edit_def demo_op_def get_operation_elements_def op_string_def op_attr_def is_op_attr_def)

theorem check_edit_ops_exact_witness:
  "check_edit_ops NC_EDIT_OP_DELETE NC_EDIT_DEFOP_MERGE NCWD_MODE_EXPLICIT (Some []) demo_edit \<noteq> Success ()"
  using check_edit_ops_exact [OF _ _ demo_edit_nodes, of NCWD_MODE_EXPLICIT NC_EDIT_DEFOP_MERGE "[]"]
  by (simp add: op_admissible_def find_element_equiv_def demo_edit_def)

text \<open>
  C1: \<^verbatim>\<open>compact_edit_operations\<close> succeeds on every document whose operation attributes are valid; the
  operation in force at every node is the same afterwards, and no node repeats the operation it
  inherits.
\<close>

theorem compaction_keeps_operations:
  assumes "list_all ops_wf doc"
  shows "\<exists>doc'. compact_edit_operations cast doc defop = Some doc'
           \<and> map (effective_ops (cast defop)) doc' = map (effective_ops (cast defop)) doc
           \<and> list_all (ops_compact (cast defop)) doc'"
  using assms
proof (induction doc)
  case Nil
  then show ?case by (simp add: compact_edit_operations_def)
next
  case (Cons x doc)
  then obtain doc' where doc': "compact_edit_operations cast doc defop = Some doc'"
      "map (effective_ops (cast defop)) doc' = map (effective_ops (cast defop)) doc"
      "list_all (ops_compact (cast defop)) doc'" by auto
  obtain y where y: "compact_edit_operations_r (cast defop) x = Some y"
    using compact_total [of x "cast defop"] Cons.prems by auto
  have "effective_ops (cast defop) y = effective_ops (cast defop) x \<and> ops_compact (cast defop) y"
    using compact_effective_ops y Cons.prems by auto
  moreover have "is_element x \<or> y = x" using y by (cases x) auto
  then have "compact_edit_operations cast (x # doc) defop = Some (y # doc')"
    using y doc'(1) by (auto simp: compact_edit_operations_def)
  ultimately show ?case using doc' by auto
qed

theorem compaction_keeps_operations_witness:
  "\<exists>doc'. compact_edit_operations (\<lambda>d. NC_EDIT_OP_MERGE) demo_edit NC_EDIT_DEFOP_MERGE = Some doc'
     \<and> map (effective_ops NC_EDIT_OP_MERGE) doc' = map (effective_ops NC_EDIT_OP_MERGE) demo_edit"
  using compaction_keeps_operations [of demo_edit "\<lambda>d. NC_EDIT_OP_MERGE" NC_EDIT_DEFOP_MERGE]
  by (auto simp: demo_edit_def demo_op_def get_operation_def op_attr_def is_op_attr_def)

end
