(* ===== verification/Ovsdb.thy ===== *)
theory Ovsdb
  imports Xml_Tree
begin

text \<open>
  The state of \<^verbatim>\<open>ovs-data.c\<close>: the replica of the Open vSwitch database as the IDL of libovs shows
  it, the transaction, and the data kept outside of the database; then the transaction itself
  (\<^verbatim>\<open>txn_init\<close>, \<^verbatim>\<open>txn_abort\<close>, \<^verbatim>\<open>txn_commit\<close>), \<^verbatim>\<open>txn_del_all\<close> and the wrappers of \<^verbatim>\<open>ioctl\<close>.

  A row is named by its identity, a number. A table holds the order in which
  \<^verbatim>\<open>OVSREC_..._FOR_EACH\<close> visits the rows and the contents of the row structures. A deleted row
  leaves the order; its structure can still be read until the end of the transaction, unless
  the row was inserted in the same transaction, which frees it. What libovs decides is in the
  parameter \<open>env\<close>: the place of a new row in the iteration order, the order in which a column that
  is a set or a map keeps what it is given, the contents of a new row, the result of a commit,
  the replica after an abort.

  \<^verbatim>\<open>ovsrec_T_set_C(row, v)\<close> is \<open>set_row\<close> on the table with the name of the column; it changes the
  structure and records that the column is part of the transaction (\<open>wlog\<close>). A store
  into the structure with no such call is \<open>poke_row\<close>; it is recorded in \<open>poked\<close>.
\<close>

named_theorems wf_intros \<open>operations keep the tables well-formed\<close>

section \<open>Rows and tables\<close>

type_synonym rowid = nat

record 'r table =
  order :: "rowid list"
  cells :: "rowid \<Rightarrow> 'r option"

record ovs_row =
  o_bridges :: "rowid list"
  o_ssl :: "rowid option"

record bridge_row =
  br_name :: "string option"
  br_datapath_id :: "string option"
  br_fail_mode :: "string option"
  br_controller :: "rowid list"
  br_ports :: "rowid list"
  br_flow_tables :: "(int \<times> rowid) list"
  br_other_config :: smap

record port_row =
  p_name :: "string option"
  p_interfaces :: "rowid list"
  p_qos :: "rowid option"

record iface_row =
  i_name :: "string option"
  i_type :: "string option"
  i_ofport_request :: "int option"
  i_options :: smap
  i_external_ids :: smap

record queue_row =
  q_external_ids :: smap
  q_other_config :: smap

record qos_row =
  qos_type :: "string option"
  qos_queues :: "(int \<times> rowid) list"

record ft_row =
  ft_name :: "string option"
  ft_external_ids :: smap

record contr_row =
  c_target :: "string option"
  c_local_ip :: "string option"
  c_connection_mode :: "string option"
  c_external_ids :: smap

record ssl_row =
  ssl_certificate :: "string option"
  ssl_private_key :: "string option"
  ssl_ca_cert :: "string option"
  ssl_external_ids :: smap

record db =
  tb_ovs :: "ovs_row table"
  tb_bridge :: "bridge_row table"
  tb_port :: "port_row table"
  tb_iface :: "iface_row table"
  tb_queue :: "queue_row table"
  tb_qos :: "qos_row table"
  tb_ft :: "ft_row table"
  tb_contr :: "contr_row table"
  tb_ssl :: "ssl_row table"
  tb_fscs :: "unit table"

section \<open>State and environment\<close>

datatype txn_status =
    TXN_UNCOMMITTED | TXN_UNCHANGED | TXN_INCOMPLETE | TXN_ABORTED | TXN_SUCCESS
  | TXN_TRY_AGAIN | TXN_NOT_LOCKED | TXN_ERROR

text \<open>An open transaction remembers the replica at its start; a committed one is only freed.\<close>

datatype txn_handle = TxnOpen db | TxnDone

datatype advert =
    ADVERTISED_10baseT_Half | ADVERTISED_10baseT_Full | ADVERTISED_100baseT_Half
  | ADVERTISED_100baseT_Full | ADVERTISED_1000baseT_Half | ADVERTISED_1000baseT_Full
  | ADVERTISED_1000baseKX_Full | ADVERTISED_10000baseT_Full | ADVERTISED_10000baseKX4_Full
  | ADVERTISED_10000baseKR_Full | ADVERTISED_40000baseKR4_Full | ADVERTISED_40000baseCR4_Full
  | ADVERTISED_40000baseSR4_Full | ADVERTISED_40000baseLR4_Full
  | ADVERTISED_TP | ADVERTISED_FIBRE | ADVERTISED_Autoneg | ADVERTISED_Pause
  | ADVERTISED_Asym_Pause

text \<open>
  \<open>'k\<close> is the state of the kernel behind \<^verbatim>\<open>ioctl\<close>: interface flags (\<^verbatim>\<open>SIOCGIFFLAGS\<close>,
  \<^verbatim>\<open>SIOCSIFFLAGS\<close>), the driver (\<^verbatim>\<open>ETHTOOL_GDRVINFO\<close>, None when \<^verbatim>\<open>errno\<close> is set) and the member
  \<^verbatim>\<open>advertising\<close> of the settings (\<^verbatim>\<open>ETHTOOL_GSET\<close>, \<^verbatim>\<open>ETHTOOL_SSET\<close>). The fields \<open>os_...\<close> tell
  whether a system call on a file succeeds; \<open>os_read\<close> and \<open>os_write\<close> give the number of bytes for the path,
  the contents of the file and the data (None when the call returns -1). \<open>OFC_DATADIR\<close> is set when the
  program is built.

  OpenFlow: \<open>vconn_open\<close> and \<open>vconn_connect\<close> tell for every attempt, counted from 0, whether a name can be
  opened and the error of connecting (0 for none); \<open>ofp_supported\<close> whether the version of the peer is.
  \<open>of_port_desc\<close> is the reply to a request for the ports (\<open>OfLost\<close> if there is none, \<open>OfOther\<close> for a message of
  another type, else names and numbers), \<open>of_port_mod\<close> the result of changing one bit of the
  configuration of a port: an error number, whether the switch answered with an error, and the new state.
  \<open>of_port_config\<close> is the configuration in the reply for a port. \<open>iface_admin_state\<close> is a column of the
  interfaces that only the switch writes, and \<open>idl_run\<close> brings the replica up to date with the database.
\<close>

datatype of_bit = OFPUTIL_PC_NO_RECV | OFPUTIL_PC_NO_FWD | OFPUTIL_PC_NO_PACKET_IN | OFPUTIL_PC_PORT_DOWN

datatype of_reply = OfLost | OfOther | OfPorts "(string \<times> nat) list"

record 'k env =
  idl_place :: "rowid \<Rightarrow> rowid list \<Rightarrow> rowid list"
  idl_commit :: "db \<Rightarrow> db \<Rightarrow> txn_status \<times> db"
  idl_error :: "db \<Rightarrow> string"
  idl_destroy :: "(rowid \<times> string) list \<Rightarrow> db \<Rightarrow> db \<Rightarrow> db"
  idl_set :: "rowid list \<Rightarrow> rowid list"
  idl_map :: "(int \<times> rowid) list \<Rightarrow> (int \<times> rowid) list"
  new_ovs :: ovs_row
  new_bridge :: bridge_row
  new_port :: port_row
  new_iface :: iface_row
  new_queue :: queue_row
  new_qos :: qos_row
  new_ft :: ft_row
  new_contr :: contr_row
  new_ssl :: ssl_row
  SIOCGIFFLAGS :: "'k \<Rightarrow> string \<Rightarrow> (16 word) option"
  SIOCSIFFLAGS :: "string \<Rightarrow> 16 word \<Rightarrow> 'k \<Rightarrow> 'k"
  ETHTOOL_GDRVINFO :: "'k \<Rightarrow> string \<Rightarrow> string option"
  ETHTOOL_GSET :: "'k \<Rightarrow> string \<Rightarrow> 32 word"
  ETHTOOL_SSET :: "string \<Rightarrow> 32 word \<Rightarrow> 'k \<Rightarrow> 'k"
  IFF_UP :: "32 word"
  adv_bit :: "advert \<Rightarrow> 32 word"
  OFC_DATADIR :: string
  os_creat :: "string \<Rightarrow> bool"
  os_open :: "string \<Rightarrow> bool"
  os_unlink :: "string \<Rightarrow> bool"
  os_truncate :: "string \<Rightarrow> bool"
  os_read :: "string \<Rightarrow> string \<Rightarrow> nat option"
  os_write :: "string \<Rightarrow> string \<Rightarrow> string \<Rightarrow> nat option"
  ovs_rundir :: string
  dp_parse_name :: "string \<Rightarrow> string"
  vconn_open :: "nat \<Rightarrow> string \<Rightarrow> bool"
  vconn_connect :: "nat \<Rightarrow> string \<Rightarrow> nat"
  ofp_supported :: "string \<Rightarrow> bool"
  of_port_desc :: "'k \<Rightarrow> string \<Rightarrow> of_reply"
  of_port_mod :: "string \<Rightarrow> nat \<Rightarrow> of_bit \<Rightarrow> bool \<Rightarrow> 'k \<Rightarrow> nat \<times> bool \<times> 'k"
  ovs_strerror :: "nat \<Rightarrow> string"
  ofp_to_string :: "of_reply \<Rightarrow> string"
  of_port_config :: "'k \<Rightarrow> string \<Rightarrow> string \<Rightarrow> of_bit \<Rightarrow> bool"
  iface_admin_state :: "'k \<Rightarrow> rowid \<Rightarrow> string option"
  idl_run :: "'k \<Rightarrow> db \<Rightarrow> db"

record 'k ofc =
  db :: db
  next_row :: rowid
  base_row :: rowid
  wlog :: "(rowid \<times> string) list"
  poked :: "(rowid \<times> string) list"
  txn :: "txn_handle option"
  added_interface :: bool
  cs_id :: "string option"
  files :: "string \<Rightarrow> string option"
  kst :: 'k

section \<open>Access to rows\<close>

type_synonym 'r getter = "db \<Rightarrow> 'r table"
type_synonym 'r putter = "('r table \<Rightarrow> 'r table) \<Rightarrow> db \<Rightarrow> db"

definition live :: "'r table \<Rightarrow> rowid \<Rightarrow> bool" where
  "live t r \<longleftrightarrow> r \<in> set (order t)"

text \<open>\<^verbatim>\<open>OVSREC_T_FOR_EACH (row, idl) { if (P(row)) break; }\<close>\<close>

definition find_row :: "('r \<Rightarrow> bool) \<Rightarrow> 'r table \<Rightarrow> rowid option" where
  "find_row P t = find (\<lambda>r. case cells t r of None \<Rightarrow> False | Some x \<Rightarrow> P x) (order t)"

definition change_row ::
  "'r getter \<Rightarrow> 'r putter \<Rightarrow> rowid \<Rightarrow> ('r \<Rightarrow> 'r) \<Rightarrow> 'k ofc \<Rightarrow> 'k ofc outcome" where
  "change_row get put r f s =
     (case (if live (get (db s)) r then cells (get (db s)) r else None) of
        None \<Rightarrow> Undef
      | Some x \<Rightarrow> Success (s\<lparr>db := put (\<lambda>t. t\<lparr>cells := (cells t)(r \<mapsto> f x)\<rparr>) (db s)\<rparr>))"

definition set_row ::
  "'r getter \<Rightarrow> 'r putter \<Rightarrow> rowid \<Rightarrow> string \<Rightarrow> ('r \<Rightarrow> 'r) \<Rightarrow> 'k ofc \<Rightarrow> 'k ofc outcome" where
  "set_row get put r col f s =
     andthen (change_row get put r f s) (\<lambda>s. Success (s\<lparr>wlog := (r, col) # wlog s\<rparr>))"

definition poke_row ::
  "'r getter \<Rightarrow> 'r putter \<Rightarrow> rowid \<Rightarrow> string \<Rightarrow> ('r \<Rightarrow> 'r) \<Rightarrow> 'k ofc \<Rightarrow> 'k ofc outcome" where
  "poke_row get put r col f s =
     andthen (change_row get put r f s) (\<lambda>s. Success (s\<lparr>poked := (r, col) # poked s\<rparr>))"

definition del_row :: "'r getter \<Rightarrow> 'r putter \<Rightarrow> rowid \<Rightarrow> 'k ofc \<Rightarrow> 'k ofc outcome" where
  "del_row get put r s =
     (if live (get (db s)) r then
        Success (s\<lparr>db := put (\<lambda>t. t\<lparr>order := removeAll r (order t),
                                     cells := if r < base_row s then cells t
                                              else (cells t)(r := None)\<rparr>) (db s)\<rparr>)
      else Undef)"

definition insert_row ::
  "'k env \<Rightarrow> 'r putter \<Rightarrow> 'r \<Rightarrow> 'k ofc \<Rightarrow> rowid \<times> 'k ofc" where
  "insert_row env put x s =
     (let r = next_row s in
      (r, s\<lparr>db := put (\<lambda>t. t\<lparr>order := idl_place env r (order t), cells := (cells t)(r \<mapsto> x)\<rparr>) (db s),
            next_row := Suc r\<rparr>))"

abbreviation set_ovs :: "rowid \<Rightarrow> string \<Rightarrow> (ovs_row \<Rightarrow> ovs_row) \<Rightarrow> 'k ofc \<Rightarrow> 'k ofc outcome" where
  "set_ovs \<equiv> set_row tb_ovs tb_ovs_update"

abbreviation set_bridge :: "rowid \<Rightarrow> string \<Rightarrow> (bridge_row \<Rightarrow> bridge_row) \<Rightarrow> 'k ofc \<Rightarrow> 'k ofc outcome" where
  "set_bridge \<equiv> set_row tb_bridge tb_bridge_update"

abbreviation set_port :: "rowid \<Rightarrow> string \<Rightarrow> (port_row \<Rightarrow> port_row) \<Rightarrow> 'k ofc \<Rightarrow> 'k ofc outcome" where
  "set_port \<equiv> set_row tb_port tb_port_update"

abbreviation set_iface :: "rowid \<Rightarrow> string \<Rightarrow> (iface_row \<Rightarrow> iface_row) \<Rightarrow> 'k ofc \<Rightarrow> 'k ofc outcome" where
  "set_iface \<equiv> set_row tb_iface tb_iface_update"

abbreviation set_queue :: "rowid \<Rightarrow> string \<Rightarrow> (queue_row \<Rightarrow> queue_row) \<Rightarrow> 'k ofc \<Rightarrow> 'k ofc outcome" where
  "set_queue \<equiv> set_row tb_queue tb_queue_update"

abbreviation set_qos :: "rowid \<Rightarrow> string \<Rightarrow> (qos_row \<Rightarrow> qos_row) \<Rightarrow> 'k ofc \<Rightarrow> 'k ofc outcome" where
  "set_qos \<equiv> set_row tb_qos tb_qos_update"

abbreviation set_ft :: "rowid \<Rightarrow> string \<Rightarrow> (ft_row \<Rightarrow> ft_row) \<Rightarrow> 'k ofc \<Rightarrow> 'k ofc outcome" where
  "set_ft \<equiv> set_row tb_ft tb_ft_update"

abbreviation set_contr :: "rowid \<Rightarrow> string \<Rightarrow> (contr_row \<Rightarrow> contr_row) \<Rightarrow> 'k ofc \<Rightarrow> 'k ofc outcome" where
  "set_contr \<equiv> set_row tb_contr tb_contr_update"

abbreviation set_ssl :: "rowid \<Rightarrow> string \<Rightarrow> (ssl_row \<Rightarrow> ssl_row) \<Rightarrow> 'k ofc \<Rightarrow> 'k ofc outcome" where
  "set_ssl \<equiv> set_row tb_ssl tb_ssl_update"

text \<open>A sequence of calls that ends at the first one that does not succeed.\<close>

definition steps :: "('s \<Rightarrow> 's outcome) list \<Rightarrow> 's \<Rightarrow> 's outcome" where
  "steps fs = for_each (\<lambda>f. f) fs"

text \<open>Follow a reference to a row; a row that is gone is a read of freed memory.\<close>

definition with_row :: "'r getter \<Rightarrow> rowid \<Rightarrow> ('r \<Rightarrow> 'k ofc \<Rightarrow> 'k ofc outcome) \<Rightarrow> 'k ofc \<Rightarrow> 'k ofc outcome" where
  "with_row get r f s = (case cells (get (db s)) r of None \<Rightarrow> Undef | Some x \<Rightarrow> f x s)"

section \<open>The kernel\<close>

definition dev_get_flags :: "'k env \<Rightarrow> 'k ofc \<Rightarrow> string \<Rightarrow> 32 word" where
  "dev_get_flags env s ifname =
     (case SIOCGIFFLAGS env (kst s) ifname of None \<Rightarrow> 0 | Some f \<Rightarrow> scast f)"

definition dev_set_flags :: "'k env \<Rightarrow> string \<Rightarrow> 32 word \<Rightarrow> 'k ofc \<Rightarrow> 'k ofc" where
  "dev_set_flags env ifname flags s = s\<lparr>kst := SIOCSIFFLAGS env ifname (ucast flags) (kst s)\<rparr>"

definition dev_is_system :: "'k env \<Rightarrow> 'k ofc \<Rightarrow> string \<Rightarrow> bool" where
  "dev_is_system env s ifname =
     (case ETHTOOL_GDRVINFO env (kst s) ifname of None \<Rightarrow> False | Some d \<Rightarrow> d \<noteq> ''openvswitch'')"

definition dev_get_ethtool :: "'k env \<Rightarrow> 'k ofc \<Rightarrow> string \<Rightarrow> 32 word" where
  "dev_get_ethtool env s ifname = ETHTOOL_GSET env (kst s) ifname"

definition dev_set_ethtool :: "'k env \<Rightarrow> string \<Rightarrow> 32 word \<Rightarrow> 'k ofc \<Rightarrow> 'k ofc" where
  "dev_set_ethtool env ifname advertising s =
     s\<lparr>kst := ETHTOOL_SSET env ifname advertising (kst s)\<rparr>"

section \<open>Transactions\<close>

definition ofc_set_switchid :: "xmlnode option \<Rightarrow> 'k ofc \<Rightarrow> 'k ofc outcome" where
  "ofc_set_switchid node s =
     (case node of
        None \<Rightarrow> Success (s\<lparr>cs_id := None\<rparr>)
      | Some n \<Rightarrow>
          (case children n of
             [] \<Rightarrow> Failure None s
           | c # _ \<Rightarrow> if is_text c then Success (s\<lparr>cs_id := content c\<rparr>) else Failure None s))"

definition txn_init :: "'k ofc \<Rightarrow> 'k ofc" where
  "txn_init s =
     s\<lparr>txn := Some (TxnOpen (db s)), base_row := next_row s, wlog := [], poked := [],
       added_interface := False\<rparr>"

definition txn_abort :: "'k env \<Rightarrow> 'k ofc \<Rightarrow> 'k ofc" where
  "txn_abort env s =
     (case txn s of
        None \<Rightarrow> s
      | Some (TxnOpen d) \<Rightarrow> s\<lparr>db := idl_destroy env (poked s) (db s) d, txn := None\<rparr>
      | Some TxnDone \<Rightarrow> s\<lparr>txn := None\<rparr>)"

definition commit_message :: "'k env \<Rightarrow> db \<Rightarrow> txn_status \<Rightarrow> string option" where
  "commit_message env d status =
     (case status of
        TXN_SUCCESS \<Rightarrow> None
      | TXN_UNCHANGED \<Rightarrow> None
      | TXN_UNCOMMITTED \<Rightarrow> Some ''Invalid OVSDB transaction''
      | TXN_INCOMPLETE \<Rightarrow> Some ''Invalid OVSDB transaction''
      | TXN_ABORTED \<Rightarrow> Some ''OVSDB transaction aborted''
      | TXN_TRY_AGAIN \<Rightarrow> Some (idl_error env d)
      | TXN_ERROR \<Rightarrow> Some (idl_error env d)
      | TXN_NOT_LOCKED \<Rightarrow> Some ''OVSDB not locked'')"

text \<open>
  \<^verbatim>\<open>txn_commit(e)\<close>; \<open>has_e\<close> tells whether \<^verbatim>\<open>e\<close> is a pointer or NULL, which \<^verbatim>\<open>txn_del_all\<close> passes and
  which a failed commit writes through.
\<close>

definition txn_commit :: "'k env \<Rightarrow> bool \<Rightarrow> 'k ofc \<Rightarrow> 'k ofc outcome" where
  "txn_commit env has_e s =
     (case txn s of
        Some (TxnOpen d) \<Rightarrow>
          (let (status, d') = idl_commit env (db s) d;
               s' = s\<lparr>db := d', txn := Some TxnDone\<rparr>
           in case commit_message env (db s) status of
                None \<Rightarrow> Success (txn_abort env s')
              | Some m \<Rightarrow>
                  if has_e then fail (err_text NC_ERR_OP_FAILED m) (txn_abort env s') else Undef)
      | _ \<Rightarrow> Undef)"

definition del_ovs :: "rowid \<Rightarrow> 'k ofc \<Rightarrow> 'k ofc outcome" where
  "del_ovs r = steps
     [set_ovs r ''bridges'' (\<lambda>x. x\<lparr>o_bridges := []\<rparr>),
      set_ovs r ''ssl'' (\<lambda>x. x\<lparr>o_ssl := None\<rparr>),
      del_row tb_ovs tb_ovs_update r]"

definition del_qos :: "rowid \<Rightarrow> 'k ofc \<Rightarrow> 'k ofc outcome" where
  "del_qos r = steps
     [set_qos r ''queues'' (\<lambda>x. x\<lparr>qos_queues := []\<rparr>), del_row tb_qos tb_qos_update r]"

definition del_port :: "rowid \<Rightarrow> 'k ofc \<Rightarrow> 'k ofc outcome" where
  "del_port r = steps
     [set_port r ''qos'' (\<lambda>x. x\<lparr>p_qos := None\<rparr>), del_row tb_port tb_port_update r]"

definition txn_del_all :: "'k env \<Rightarrow> 'k ofc \<Rightarrow> 'k ofc outcome" where
  "txn_del_all env = steps
     [\<lambda>s. for_each del_ovs (order (tb_ovs (db s))) s,
      \<lambda>s. for_each (del_row tb_fscs tb_fscs_update) (order (tb_fscs (db s))) s,
      txn_commit env False,
      \<lambda>s. Success (txn_init s),
      \<lambda>s. for_each del_qos (order (tb_qos (db s))) s,
      \<lambda>s. for_each (del_row tb_queue tb_queue_update) (order (tb_queue (db s))) s,
      \<lambda>s. for_each del_port (order (tb_port (db s))) s,
      \<lambda>s. for_each (del_row tb_ssl tb_ssl_update) (order (tb_ssl (db s))) s,
      ofc_set_switchid None]"

section \<open>Well-formed tables\<close>

definition twf :: "rowid \<Rightarrow> 'r table \<Rightarrow> bool" where
  "twf n t \<longleftrightarrow> distinct (order t) \<and> (\<forall>r \<in> set (order t). cells t r \<noteq> None)
             \<and> (\<forall>r. cells t r \<noteq> None \<longrightarrow> r < n)"

definition db_wf :: "rowid \<Rightarrow> db \<Rightarrow> bool" where
  "db_wf n d \<longleftrightarrow> twf n (tb_ovs d) \<and> twf n (tb_bridge d) \<and> twf n (tb_port d) \<and> twf n (tb_iface d)
     \<and> twf n (tb_queue d) \<and> twf n (tb_qos d) \<and> twf n (tb_ft d) \<and> twf n (tb_contr d)
     \<and> twf n (tb_ssl d) \<and> twf n (tb_fscs d)"

definition store_wf :: "'k ofc \<Rightarrow> bool" where
  "store_wf s \<longleftrightarrow> db_wf (next_row s) (db s)"

text \<open>What the development relies on of libovs.\<close>

definition idl_places :: "'k env \<Rightarrow> bool" where
  "idl_places env \<longleftrightarrow>
     (\<forall>r rs. set (idl_place env r rs) = insert r (set rs)
             \<and> (r \<notin> set rs \<longrightarrow> distinct rs \<longrightarrow> distinct (idl_place env r rs)))"

definition idl_columns :: "'k env \<Rightarrow> bool" where
  "idl_columns env \<longleftrightarrow>
     (\<forall>xs. set (idl_set env xs) = set xs \<and> distinct (idl_set env xs))
     \<and> (\<forall>m. distinct (map fst (idl_map env m)) \<and> set (idl_map env m) \<subseteq> set m
            \<and> fst ` set (idl_map env m) = fst ` set m)"

lemma idl_map_same:
  assumes "idl_columns env" and "distinct (map fst m)"
  shows "set (idl_map env m) = set m"
proof -
  have sub: "set (idl_map env m) \<subseteq> set m" and keys: "fst ` set (idl_map env m) = fst ` set m"
    using assms(1) by (simp_all add: idl_columns_def)
  have "x \<in> set (idl_map env m)" if "x \<in> set m" for x
  proof -
    have "fst x \<in> fst ` set (idl_map env m)" using keys that by simp
    then obtain v where v: "(fst x, v) \<in> set (idl_map env m)" by auto
    have "(fst x, v) \<in> set m" "(fst x, snd x) \<in> set m" using v sub that by auto
    then have "v = snd x" using eq_key_imp_eq_value [OF assms(2)] by blast
    then show ?thesis using v by simp
  qed
  then show ?thesis using sub by blast
qed

lemma twf_mono: "twf n t \<Longrightarrow> n \<le> m \<Longrightarrow> twf m t"
  by (fastforce simp: twf_def)

lemma db_wf_mono: "db_wf n d \<Longrightarrow> n \<le> m \<Longrightarrow> db_wf m d"
  by (auto simp: db_wf_def intro: twf_mono)

lemma twf_cells: "twf n t \<Longrightarrow> cells t r = Some x \<Longrightarrow> r < n"
  by (simp add: twf_def)

lemma twf_fresh: "twf n t \<Longrightarrow> n \<le> m \<Longrightarrow> cells t m = None \<and> m \<notin> set (order t)"
  by (meson leD twf_def)

lemma twf_set: "twf n t \<Longrightarrow> cells t r = Some x \<Longrightarrow> twf n (t\<lparr>cells := (cells t)(r \<mapsto> y)\<rparr>)"
  by (auto simp: twf_def)

lemma twf_del:
  "twf n t \<Longrightarrow> twf n (t\<lparr>order := removeAll r (order t),
                       cells := if b then cells t else (cells t)(r := None)\<rparr>)"
  by (auto simp: twf_def distinct_removeAll)

lemma twf_insert:
  assumes "idl_places env" and "twf n t"
  shows "twf (Suc n) (t\<lparr>order := idl_place env n (order t), cells := (cells t)(n \<mapsto> x)\<rparr>)"
proof -
  have "n \<notin> set (order t)" using assms(2) by (auto simp: twf_def)
  then show ?thesis using assms by (auto simp: twf_def idl_places_def less_Suc_eq)
qed

lemma find_row_Some:
  "find_row P t = Some r \<Longrightarrow> live t r \<and> (\<exists>x. cells t r = Some x \<and> P x)"
  by (auto simp: find_row_def live_def find_Some_iff split: option.splits)

lemma find_row_None:
  "find_row P t = None \<longleftrightarrow> (\<forall>r x. live t r \<longrightarrow> cells t r = Some x \<longrightarrow> \<not> P x)"
  by (force simp: find_row_def live_def find_None_iff split: option.splits)

text \<open>
  The operations of a transaction keep the tables well-formed and stay in the transaction.
\<close>

definition in_txn :: "txn_handle \<Rightarrow> 'k ofc \<Rightarrow> bool" where
  "in_txn h s \<longleftrightarrow> store_wf s \<and> txn s = Some h"

lemma in_txn_update [simp]:
  "in_txn h (s\<lparr>wlog := w\<rparr>) = in_txn h s"
  "in_txn h (s\<lparr>poked := w\<rparr>) = in_txn h s"
  "in_txn h (s\<lparr>added_interface := a\<rparr>) = in_txn h s"
  "in_txn h (s\<lparr>cs_id := c\<rparr>) = in_txn h s"
  "in_txn h (s\<lparr>files := f\<rparr>) = in_txn h s"
  "in_txn h (s\<lparr>kst := k\<rparr>) = in_txn h s"
  by (simp_all add: in_txn_def store_wf_def)

lemma in_txn_dev [simp]:
  "in_txn h (dev_set_flags env i f s) = in_txn h s"
  "in_txn h (dev_set_ethtool env i a s) = in_txn h s"
  by (simp_all add: dev_set_flags_def dev_set_ethtool_def)

lemma steps_simps [simp]:
  "steps [] s = Success s" "steps (f # fs) s = andthen (f s) (steps fs)"
  by (simp_all add: steps_def)

lemma steps_append: "steps (fs @ gs) s = andthen (steps fs s) (steps gs)"
  unfolding steps_def by (rule for_each_append)

lemma steps_Nil [simp]: "steps [] = Success"
  by (rule ext) simp

text \<open>A table of the replica: its accessors and what they keep.\<close>

locale table_of =
  fixes get :: "'r getter" and put :: "'r putter"
  assumes get_put: "get (put f d) = f (get d)"
    and wf_get: "db_wf n d \<Longrightarrow> twf n (get d)"
    and wf_put: "db_wf n d \<Longrightarrow> twf n (f (get d)) \<Longrightarrow> db_wf n (put f d)"
    and put_id: "put (\<lambda>t. t) d = d"
    and put_put: "put f (put g d) = put (\<lambda>t. f (g t)) d"
begin

lemma change_in_txn: "in_txn h s \<Longrightarrow> outcome_all (in_txn h) (change_row get put r f s)"
  by (auto simp: change_row_def in_txn_def store_wf_def split: option.splits if_splits
      intro!: wf_put twf_set wf_get)

lemma set_in_txn: "in_txn h s \<Longrightarrow> outcome_all (in_txn h) (set_row get put r c f s)"
  unfolding set_row_def by (rule outcome_all_andthen [OF change_in_txn]) simp_all

lemma poke_in_txn: "in_txn h s \<Longrightarrow> outcome_all (in_txn h) (poke_row get put r c f s)"
  unfolding poke_row_def by (rule outcome_all_andthen [OF change_in_txn]) simp_all

lemma del_in_txn: "in_txn h s \<Longrightarrow> outcome_all (in_txn h) (del_row get put r s)"
  by (auto simp: del_row_def in_txn_def store_wf_def simp del: fun_upd_apply
      intro!: wf_put twf_del wf_get)

lemma insert_in_txn:
  assumes "idl_places env" and "in_txn h s" and "insert_row env put x s = (r, s')"
  shows "in_txn h s'"
proof -
  have wf: "db_wf (Suc (next_row s)) (db s)" "twf (next_row s) (get (db s))"
    using assms(2) by (auto simp: in_txn_def store_wf_def intro: db_wf_mono wf_get)
  show ?thesis
    using assms wf by (auto simp: insert_row_def in_txn_def store_wf_def Let_def intro!: wf_put twf_insert)
qed

lemma insert_row_live:
  assumes "idl_places env" and "insert_row env put x s = (r, s')"
  shows "live (get (db s')) r \<and> cells (get (db s')) r = Some x \<and> files s' = files s"
  using assms by (auto simp: insert_row_def live_def idl_places_def Let_def get_put)

lemma live_row:
  assumes "in_txn h s" and "live (get (db s)) r"
  shows "\<exists>x. cells (get (db s)) r = Some x"
  using assms wf_get [of "next_row s" "db s"] by (auto simp: in_txn_def store_wf_def twf_def live_def)

lemma set_row_live:
  assumes "store_wf s" and "live (get (db s)) r"
  obtains x where "cells (get (db s)) r = Some x"
    and "set_row get put r c f s =
           Success (s\<lparr>db := put (\<lambda>t. t\<lparr>cells := (cells t)(r \<mapsto> f x)\<rparr>) (db s), wlog := (r, c) # wlog s\<rparr>)"
proof -
  have "twf (next_row s) (get (db s))" using assms(1) by (simp add: store_wf_def wf_get)
  then obtain x where "cells (get (db s)) r = Some x" using assms(2) by (auto simp: twf_def live_def)
  then show ?thesis using that assms(2) by (simp add: set_row_def change_row_def)
qed

text \<open>A loop that deletes every row it visits leaves the table empty and the others alone.\<close>

lemma sweep:
  fixes op :: "rowid \<Rightarrow> 'k ofc \<Rightarrow> 'k ofc outcome"
  assumes op: "\<And>r s. store_wf s \<Longrightarrow> live (get (db s)) r \<Longrightarrow>
      \<exists>F w. op r s = Success (s\<lparr>db := put F (db s), wlog := w\<rparr>)
            \<and> order (F (get (db s))) = removeAll r (order (get (db s)))
            \<and> twf (next_row s) (F (get (db s)))"
    and "store_wf s" and "order (get (db s)) = rs"
  shows "\<exists>F w. for_each op rs s = Success (s\<lparr>db := put F (db s), wlog := w\<rparr>)
               \<and> order (F (get (db s))) = [] \<and> twf (next_row s) (F (get (db s)))"
  using assms(2,3)
proof (induction rs arbitrary: s)
  case Nil
  then show ?case
    by (intro exI [where x = "\<lambda>t. t"] exI [where x = "wlog s"]) (simp add: put_id store_wf_def wf_get)
next
  case (Cons r rs)
  obtain F w where F: "op r s = Success (s\<lparr>db := put F (db s), wlog := w\<rparr>)"
      "order (F (get (db s))) = removeAll r (order (get (db s)))" "twf (next_row s) (F (get (db s)))"
    using op [of s r] Cons.prems by (auto simp: live_def)
  let ?s = "s\<lparr>db := put F (db s), wlog := w\<rparr>"
  have "distinct (r # rs)" using Cons.prems wf_get by (metis store_wf_def twf_def)
  then have "order (get (db ?s)) = rs" using F(2) Cons.prems(2) by (simp add: get_put)
  moreover have "store_wf ?s" using F(3) Cons.prems(1) by (simp add: store_wf_def wf_put)
  ultimately obtain G v where "for_each op rs ?s = Success (?s\<lparr>db := put G (db ?s), wlog := v\<rparr>)"
      "order (G (get (db ?s))) = []" "twf (next_row ?s) (G (get (db ?s)))"
    using Cons.IH by blast
  then have "for_each op (r # rs) s = Success (s\<lparr>db := put (\<lambda>t. G (F t)) (db s), wlog := v\<rparr>)
      \<and> order (G (F (get (db s)))) = [] \<and> twf (next_row s) (G (F (get (db s))))"
    by (simp add: F(1) put_put get_put)
  then show ?case by (intro exI [where x = "\<lambda>t. G (F t)"] exI [where x = v])
qed

lemma del_shape:
  fixes s :: "'k ofc"
  assumes "store_wf s" and "live (get (db s)) r"
  shows "\<exists>F w. del_row get put r s = Success (s\<lparr>db := put F (db s), wlog := w\<rparr>)
      \<and> order (F (get (db s))) = removeAll r (order (get (db s))) \<and> twf (next_row s) (F (get (db s)))"
proof -
  let ?F = "\<lambda>t. t\<lparr>order := removeAll r (order t), cells := if r < base_row s then cells t else (cells t)(r := None)\<rparr>"
  have "twf (next_row s) (?F (get (db s)))"
    using assms by (intro twf_del) (simp add: store_wf_def wf_get)
  then show ?thesis using assms
    by (intro exI [where x = ?F] exI [where x = "wlog s"]) (simp add: del_row_def)
qed

lemma sweep_del:
  assumes "store_wf s"
  shows "\<exists>F w. for_each (del_row get put) (order (get (db s))) s
                 = Success (s\<lparr>db := put F (db s), wlog := w\<rparr>)
               \<and> order (F (get (db s))) = [] \<and> twf (next_row s) (F (get (db s)))"
  by (rule sweep [OF _ assms refl]) (rule del_shape)

lemma steps_del_shape:
  fixes s :: "'k ofc"
  assumes "store_wf s" and "live (get (db s)) r"
  shows "\<exists>F w. steps [del_row get put r] s = Success (s\<lparr>db := put F (db s), wlog := w\<rparr>)
      \<and> order (F (get (db s))) = removeAll r (order (get (db s))) \<and> twf (next_row s) (F (get (db s)))"
proof -
  have "steps [del_row get put r] s = del_row get put r s"
    by (cases "del_row get put r s") simp_all
  then show ?thesis using del_shape [OF assms] by simp
qed

lemma steps_set_shape:
  fixes s :: "'k ofc"
  assumes "store_wf s" and "live (get (db s)) r"
    and next_op: "\<And>s :: 'k ofc. store_wf s \<Longrightarrow> live (get (db s)) r \<Longrightarrow>
        \<exists>F w. steps gs s = Success (s\<lparr>db := put F (db s), wlog := w\<rparr>)
          \<and> order (F (get (db s))) = removeAll r (order (get (db s))) \<and> twf (next_row s) (F (get (db s)))"
  shows "\<exists>F w. steps (set_row get put r c f # gs) s = Success (s\<lparr>db := put F (db s), wlog := w\<rparr>)
          \<and> order (F (get (db s))) = removeAll r (order (get (db s))) \<and> twf (next_row s) (F (get (db s)))"
proof -
  obtain x where x: "cells (get (db s)) r = Some x"
    and "set_row get put r c f s =
           Success (s\<lparr>db := put (\<lambda>t. t\<lparr>cells := (cells t)(r \<mapsto> f x)\<rparr>) (db s), wlog := (r, c) # wlog s\<rparr>)"
    (is "_ = Success ?s") using set_row_live [OF assms(1,2)] by blast
  moreover have "store_wf ?s"
    using assms(1) x by (auto simp: store_wf_def intro!: wf_put twf_set wf_get)
  moreover have "live (get (db ?s)) r" using assms(2) by (simp add: live_def get_put)
  moreover from calculation obtain G v where "steps gs ?s = Success (?s\<lparr>db := put G (db ?s), wlog := v\<rparr>)"
      "order (G (get (db ?s))) = removeAll r (order (get (db ?s)))" "twf (next_row ?s) (G (get (db ?s)))"
    using next_op by blast
  ultimately show ?thesis
    by (intro exI [where x = "\<lambda>t. G (t\<lparr>cells := (cells t)(r \<mapsto> f x)\<rparr>)"] exI [where x = v])
      (simp add: get_put put_put)
qed

end

interpretation ovs: table_of tb_ovs tb_ovs_update
  by unfold_locales (simp_all add: db_wf_def comp_def)

interpretation bridge: table_of tb_bridge tb_bridge_update
  by unfold_locales (simp_all add: db_wf_def comp_def)

interpretation port: table_of tb_port tb_port_update
  by unfold_locales (simp_all add: db_wf_def comp_def)

interpretation iface: table_of tb_iface tb_iface_update
  by unfold_locales (simp_all add: db_wf_def comp_def)

interpretation queue: table_of tb_queue tb_queue_update
  by unfold_locales (simp_all add: db_wf_def comp_def)

interpretation qos: table_of tb_qos tb_qos_update
  by unfold_locales (simp_all add: db_wf_def comp_def)

interpretation ft: table_of tb_ft tb_ft_update
  by unfold_locales (simp_all add: db_wf_def comp_def)

interpretation contr: table_of tb_contr tb_contr_update
  by unfold_locales (simp_all add: db_wf_def comp_def)

interpretation ssl: table_of tb_ssl tb_ssl_update
  by unfold_locales (simp_all add: db_wf_def comp_def)

interpretation fscs: table_of tb_fscs tb_fscs_update
  by unfold_locales (simp_all add: db_wf_def comp_def)

lemmas set_keeps = ovs.set_in_txn bridge.set_in_txn port.set_in_txn iface.set_in_txn queue.set_in_txn
  qos.set_in_txn ft.set_in_txn contr.set_in_txn ssl.set_in_txn

lemmas del_keeps = ovs.del_in_txn bridge.del_in_txn port.del_in_txn iface.del_in_txn queue.del_in_txn
  qos.del_in_txn ft.del_in_txn contr.del_in_txn ssl.del_in_txn fscs.del_in_txn

lemmas insert_keeps = ovs.insert_in_txn bridge.insert_in_txn port.insert_in_txn iface.insert_in_txn queue.insert_in_txn
  qos.insert_in_txn ft.insert_in_txn contr.insert_in_txn ssl.insert_in_txn

declare set_keeps [wf_intros] del_keeps [wf_intros] contr.poke_in_txn [wf_intros]

lemma steps_keeps [wf_intros]:
  assumes "P s" and "\<And>f s. f \<in> set fs \<Longrightarrow> P s \<Longrightarrow> outcome_all P (f s)"
  shows "outcome_all P (steps fs s)"
  unfolding steps_def using assms by (intro outcome_all_for_each) simp_all

lemma with_row_keeps [wf_intros]:
  "P s \<Longrightarrow> (\<And>x. outcome_all P (f x s)) \<Longrightarrow> outcome_all P (with_row get r f s)"
  by (simp add: with_row_def split: option.split)

section \<open>Deleting everything\<close>

definition commit_wf :: "'k env \<Rightarrow> rowid \<Rightarrow> bool" where
  "commit_wf env n \<longleftrightarrow> (\<forall>d d0. db_wf n d \<longrightarrow> db_wf n (snd (idl_commit env d d0)))"

lemma sweep_ovs:
  assumes "store_wf s"
  shows "\<exists>F w. for_each del_ovs (order (tb_ovs (db s))) s
                 = Success (s\<lparr>db := tb_ovs_update F (db s), wlog := w\<rparr>)
               \<and> order (F (tb_ovs (db s))) = [] \<and> twf (next_row s) (F (tb_ovs (db s)))"
  by (rule ovs.sweep [OF _ assms refl])
    (simp only: del_ovs_def, intro ovs.steps_set_shape ovs.steps_del_shape)

lemma sweep_qos:
  assumes "store_wf s"
  shows "\<exists>F w. for_each del_qos (order (tb_qos (db s))) s
                 = Success (s\<lparr>db := tb_qos_update F (db s), wlog := w\<rparr>)
               \<and> order (F (tb_qos (db s))) = [] \<and> twf (next_row s) (F (tb_qos (db s)))"
  by (rule qos.sweep [OF _ assms refl])
    (simp only: del_qos_def, intro qos.steps_set_shape qos.steps_del_shape)

lemma sweep_port:
  assumes "store_wf s"
  shows "\<exists>F w. for_each del_port (order (tb_port (db s))) s
                 = Success (s\<lparr>db := tb_port_update F (db s), wlog := w\<rparr>)
               \<and> order (F (tb_port (db s))) = [] \<and> twf (next_row s) (F (tb_port (db s)))"
  by (rule port.sweep [OF _ assms refl])
    (simp only: del_port_def, intro port.steps_set_shape port.steps_del_shape)

definition commits :: "'k env \<Rightarrow> bool" where
  "commits env \<longleftrightarrow> (\<forall>d d0. fst (idl_commit env d d0) \<in> {TXN_SUCCESS, TXN_UNCHANGED})"

lemma commit_success:
  assumes "commits env" and "txn s = Some (TxnOpen d0)"
  shows "txn_commit env e s = Success (s\<lparr>db := snd (idl_commit env (db s) d0), txn := None\<rparr>)"
proof -
  obtain st d where c: "idl_commit env (db s) d0 = (st, d)" by (cases "idl_commit env (db s) d0")
  then have "st \<in> {TXN_SUCCESS, TXN_UNCHANGED}" using assms(1) by (metis commits_def fst_conv)
  then show ?thesis using assms(2) c by (auto simp: txn_commit_def commit_message_def txn_abort_def)
qed

lemma del_base_tables:
  assumes "store_wf s"
  shows "\<exists>s1. andthen (for_each del_ovs (order (tb_ovs (db s))) s)
           (\<lambda>s. for_each (del_row tb_fscs tb_fscs_update) (order (tb_fscs (db s))) s) = Success s1
         \<and> store_wf s1 \<and> txn s1 = txn s \<and> next_row s1 = next_row s
         \<and> order (tb_ovs (db s1)) = [] \<and> order (tb_fscs (db s1)) = []"
proof -
  obtain F w where F: "for_each del_ovs (order (tb_ovs (db s))) s
        = Success (s\<lparr>db := tb_ovs_update F (db s), wlog := w\<rparr>)" (is "_ = Success ?a")
    "order (F (tb_ovs (db s))) = []" "twf (next_row s) (F (tb_ovs (db s)))"
    using sweep_ovs [OF assms] by blast
  have a: "store_wf ?a" using assms F(3) by (simp add: store_wf_def db_wf_def)
  obtain G v where "for_each (del_row tb_fscs tb_fscs_update) (order (tb_fscs (db ?a))) ?a
        = Success (?a\<lparr>db := tb_fscs_update G (db ?a), wlog := v\<rparr>)" (is "_ = Success ?b")
    "order (G (tb_fscs (db ?a))) = []" "twf (next_row ?a) (G (tb_fscs (db ?a)))"
    using fscs.sweep_del [OF a] by blast
  moreover from this have "store_wf ?b" using a by (simp add: store_wf_def db_wf_def)
  ultimately show ?thesis using F by (intro exI [where x = ?b]) simp
qed

lemma del_qos_queue_tables:
  assumes "store_wf s"
  shows "\<exists>s1. andthen (for_each del_qos (order (tb_qos (db s))) s)
           (\<lambda>s. for_each (del_row tb_queue tb_queue_update) (order (tb_queue (db s))) s) = Success s1
         \<and> store_wf s1 \<and> txn s1 = txn s
         \<and> order (tb_qos (db s1)) = [] \<and> order (tb_queue (db s1)) = []"
proof -
  obtain F w where F: "for_each del_qos (order (tb_qos (db s))) s
        = Success (s\<lparr>db := tb_qos_update F (db s), wlog := w\<rparr>)" (is "_ = Success ?a")
    "order (F (tb_qos (db s))) = []" "twf (next_row s) (F (tb_qos (db s)))"
    using sweep_qos [OF assms] by blast
  have a: "store_wf ?a" using assms F(3) by (simp add: store_wf_def db_wf_def)
  obtain G v where "for_each (del_row tb_queue tb_queue_update) (order (tb_queue (db ?a))) ?a
        = Success (?a\<lparr>db := tb_queue_update G (db ?a), wlog := v\<rparr>)" (is "_ = Success ?b")
    "order (G (tb_queue (db ?a))) = []" "twf (next_row ?a) (G (tb_queue (db ?a)))"
    using queue.sweep_del [OF a] by blast
  moreover from this have "store_wf ?b" using a by (simp add: store_wf_def db_wf_def)
  ultimately show ?thesis using F by (intro exI [where x = ?b]) simp
qed

lemma del_port_ssl_tables:
  assumes "store_wf s"
  shows "\<exists>s1. andthen (for_each del_port (order (tb_port (db s))) s)
           (\<lambda>s. for_each (del_row tb_ssl tb_ssl_update) (order (tb_ssl (db s))) s) = Success s1
         \<and> store_wf s1 \<and> txn s1 = txn s
         \<and> tb_qos (db s1) = tb_qos (db s) \<and> tb_queue (db s1) = tb_queue (db s)
         \<and> order (tb_port (db s1)) = [] \<and> order (tb_ssl (db s1)) = []"
proof -
  obtain F w where F: "for_each del_port (order (tb_port (db s))) s
        = Success (s\<lparr>db := tb_port_update F (db s), wlog := w\<rparr>)" (is "_ = Success ?a")
    "order (F (tb_port (db s))) = []" "twf (next_row s) (F (tb_port (db s)))"
    using sweep_port [OF assms] by blast
  have a: "store_wf ?a" using assms F(3) by (simp add: store_wf_def db_wf_def)
  obtain G v where "for_each (del_row tb_ssl tb_ssl_update) (order (tb_ssl (db ?a))) ?a
        = Success (?a\<lparr>db := tb_ssl_update G (db ?a), wlog := v\<rparr>)" (is "_ = Success ?b")
    "order (G (tb_ssl (db ?a))) = []" "twf (next_row ?a) (G (tb_ssl (db ?a)))"
    using ssl.sweep_del [OF a] by blast
  moreover from this have "store_wf ?b" using a by (simp add: store_wf_def db_wf_def)
  ultimately show ?thesis using F by (intro exI [where x = ?b]) simp
qed

lemma del_all_tables:
  assumes wf: "store_wf s" and open_txn: "txn s = Some (TxnOpen d0)"
    and "commits env" and "commit_wf env (next_row s)"
  shows "\<exists>s' d. txn_del_all env s = Success s' \<and> store_wf s' \<and> cs_id s' = None
           \<and> order (tb_ovs d) = [] \<and> order (tb_fscs d) = []
           \<and> txn s' = Some (TxnOpen (snd (idl_commit env d d0)))
           \<and> order (tb_qos (db s')) = [] \<and> order (tb_queue (db s')) = []
           \<and> order (tb_port (db s')) = [] \<and> order (tb_ssl (db s')) = []"
proof -
  obtain s1 where s1: "andthen (for_each del_ovs (order (tb_ovs (db s))) s)
           (\<lambda>s. for_each (del_row tb_fscs tb_fscs_update) (order (tb_fscs (db s))) s) = Success s1"
      "store_wf s1" "txn s1 = Some (TxnOpen d0)" "next_row s1 = next_row s"
      "order (tb_ovs (db s1)) = []" "order (tb_fscs (db s1)) = []"
    using del_base_tables [OF wf] open_txn by auto
  let ?d = "snd (idl_commit env (db s1) d0)"
  let ?s2 = "txn_init (s1\<lparr>db := ?d, txn := None\<rparr>)"
  have commit: "txn_commit env False s1 = Success (s1\<lparr>db := ?d, txn := None\<rparr>)"
    using commit_success assms(3) s1(3) by blast
  have "store_wf ?s2"
    using assms(4) s1(2,4) by (simp add: store_wf_def txn_init_def commit_wf_def)
  then obtain s3 where s3: "andthen (for_each del_qos (order (tb_qos (db ?s2))) ?s2)
           (\<lambda>s. for_each (del_row tb_queue tb_queue_update) (order (tb_queue (db s))) s) = Success s3"
      "store_wf s3" "txn s3 = Some (TxnOpen ?d)" "order (tb_qos (db s3)) = []" "order (tb_queue (db s3)) = []"
    using del_qos_queue_tables [of ?s2] by (auto simp: txn_init_def)
  then obtain s4 where s4: "andthen (for_each del_port (order (tb_port (db s3))) s3)
           (\<lambda>s. for_each (del_row tb_ssl tb_ssl_update) (order (tb_ssl (db s))) s) = Success s4"
      "store_wf s4" "txn s4 = Some (TxnOpen ?d)" "order (tb_qos (db s4)) = []"
      "order (tb_queue (db s4)) = []" "order (tb_port (db s4)) = []" "order (tb_ssl (db s4)) = []"
    using del_port_ssl_tables [of s3] by auto
  have "txn_del_all env s = Success (s4\<lparr>cs_id := None\<rparr>)"
    using s1(1) s3(1) s4(1) commit
    by (auto simp: txn_del_all_def andthen_eq_Success ofc_set_switchid_def)
  moreover have "store_wf (s4\<lparr>cs_id := None\<rparr>)" using s4(2) by (simp add: store_wf_def)
  ultimately show ?thesis
    using s1(5,6) s4 by (intro exI [where x = "s4\<lparr>cs_id := None\<rparr>"] exI [where x = "db s1"]) simp
qed

section \<open>A concrete environment\<close>

text \<open>
  An environment in which the assumptions hold, for applying the theorems: new rows come first,
  commits succeed, an abort restores the replica, and one device answers to all names.
\<close>

definition demo_env :: "(16 word \<times> 32 word) env" where
  "demo_env =
    \<lparr>idl_place = (#), idl_commit = (\<lambda>d d0. (TXN_SUCCESS, d)), idl_error = (\<lambda>d. []),
     idl_destroy = (\<lambda>p d d0. if p = [] then d0 else d),
     idl_set = remdups, idl_map = AList.clearjunk,
     new_ovs = \<lparr>o_bridges = [], o_ssl = None\<rparr>,
     new_bridge = \<lparr>br_name = None, br_datapath_id = None, br_fail_mode = None, br_controller = [],
                   br_ports = [], br_flow_tables = [], br_other_config = []\<rparr>,
     new_port = \<lparr>p_name = None, p_interfaces = [], p_qos = None\<rparr>,
     new_iface = \<lparr>i_name = None, i_type = None, i_ofport_request = None, i_options = [], i_external_ids = []\<rparr>,
     new_queue = \<lparr>q_external_ids = [], q_other_config = []\<rparr>,
     new_qos = \<lparr>qos_type = None, qos_queues = []\<rparr>,
     new_ft = \<lparr>ft_name = None, ft_external_ids = []\<rparr>,
     new_contr = \<lparr>c_target = None, c_local_ip = None, c_connection_mode = None, c_external_ids = []\<rparr>,
     new_ssl = \<lparr>ssl_certificate = None, ssl_private_key = None, ssl_ca_cert = None, ssl_external_ids = []\<rparr>,
     SIOCGIFFLAGS = (\<lambda>k n. Some (fst k)), SIOCSIFFLAGS = (\<lambda>n f k. (f, snd k)),
     ETHTOOL_GDRVINFO = (\<lambda>k n. Some ''e1000''), ETHTOOL_GSET = (\<lambda>k n. snd k),
     ETHTOOL_SSET = (\<lambda>n a k. (fst k, a)), IFF_UP = 1,
     adv_bit = (\<lambda>a. case a of
         ADVERTISED_10baseT_Half \<Rightarrow> 2 ^ 0 | ADVERTISED_10baseT_Full \<Rightarrow> 2 ^ 1
       | ADVERTISED_100baseT_Half \<Rightarrow> 2 ^ 2 | ADVERTISED_100baseT_Full \<Rightarrow> 2 ^ 3
       | ADVERTISED_1000baseT_Half \<Rightarrow> 2 ^ 4 | ADVERTISED_1000baseT_Full \<Rightarrow> 2 ^ 5
       | ADVERTISED_Autoneg \<Rightarrow> 2 ^ 6 | ADVERTISED_TP \<Rightarrow> 2 ^ 7 | ADVERTISED_FIBRE \<Rightarrow> 2 ^ 10
       | ADVERTISED_10000baseT_Full \<Rightarrow> 2 ^ 12 | ADVERTISED_Pause \<Rightarrow> 2 ^ 13
       | ADVERTISED_Asym_Pause \<Rightarrow> 2 ^ 14 | ADVERTISED_1000baseKX_Full \<Rightarrow> 2 ^ 17
       | ADVERTISED_10000baseKX4_Full \<Rightarrow> 2 ^ 18 | ADVERTISED_10000baseKR_Full \<Rightarrow> 2 ^ 19
       | ADVERTISED_40000baseKR4_Full \<Rightarrow> 2 ^ 23 | ADVERTISED_40000baseCR4_Full \<Rightarrow> 2 ^ 24
       | ADVERTISED_40000baseSR4_Full \<Rightarrow> 2 ^ 25 | ADVERTISED_40000baseLR4_Full \<Rightarrow> 2 ^ 26),
     OFC_DATADIR = ''/d'', os_creat = (\<lambda>f. True), os_open = (\<lambda>f. True), os_unlink = (\<lambda>f. True),
     os_truncate = (\<lambda>f. True), os_read = (\<lambda>f c. Some (length c)), os_write = (\<lambda>f c d. Some (length d)),
     ovs_rundir = ''/run'', dp_parse_name = (\<lambda>n. n), vconn_open = (\<lambda>i n. True), vconn_connect = (\<lambda>i n. if i = 0 then 1 else 0),
     ofp_supported = (\<lambda>n. True), of_port_desc = (\<lambda>k n. OfPorts [(''eth0'', 1)]),
     of_port_mod = (\<lambda>n p b v k. (0, False, (if v then 1 else 0, snd k))), ovs_strerror = (\<lambda>n. []), ofp_to_string = (\<lambda>r. []),
     of_port_config = (\<lambda>k n p b. False), iface_admin_state = (\<lambda>k r. None), idl_run = (\<lambda>k d. d)\<rparr>"

definition no_rows :: "'r table" where
  "no_rows = \<lparr>order = [], cells = Map.empty\<rparr>"

definition one_row :: "rowid \<Rightarrow> 'r \<Rightarrow> 'r table" where
  "one_row r x = \<lparr>order = [r], cells = [r \<mapsto> x]\<rparr>"

definition empty_db :: db where
  "empty_db = \<lparr>tb_ovs = no_rows, tb_bridge = no_rows, tb_port = no_rows, tb_iface = no_rows,
     tb_queue = no_rows, tb_qos = no_rows, tb_ft = no_rows, tb_contr = no_rows, tb_ssl = no_rows,
     tb_fscs = no_rows\<rparr>"

definition demo_ofc :: "db \<Rightarrow> (16 word \<times> 32 word) ofc" where
  "demo_ofc d = \<lparr>db = d, next_row = 100, base_row = 100, wlog = [], poked = [], txn = Some (TxnOpen d),
     added_interface = False, cs_id = None, files = Map.empty, kst = (0, 0)\<rparr>"

lemma demo_env_places: "idl_places demo_env"
  by (auto simp: idl_places_def demo_env_def)

lemma demo_env_columns: "idl_columns demo_env"
proof -
  have "set (AList.clearjunk m) \<subseteq> set m" for m :: "(int \<times> rowid) list"
  proof (induction m rule: AList.clearjunk.induct)
    case (2 p ps)
    then show ?case by (auto simp: AList.delete_eq)
  qed simp
  moreover have "fst ` set (AList.clearjunk m) = fst ` set m" for m :: "(int \<times> rowid) list"
    by (metis dom_map_of_conv_image_fst map_of_clearjunk)
  ultimately show ?thesis by (simp add: idl_columns_def demo_env_def distinct_clearjunk)
qed

lemma demo_env_commits: "commits demo_env" "commit_wf demo_env n"
  by (auto simp: commits_def commit_wf_def demo_env_def)

lemma twf_demo [simp]: "twf n no_rows" "twf n (one_row r x) \<longleftrightarrow> r < n"
  by (auto simp: twf_def no_rows_def one_row_def)

lemma empty_db_wf [simp]: "db_wf n empty_db"
  by (simp add: db_wf_def empty_db_def)

lemma demo_env_simps [simp]:
  "idl_place demo_env = (#)" "idl_commit demo_env = (\<lambda>d d0. (TXN_SUCCESS, d))"
  "idl_set demo_env = remdups" "idl_map demo_env = AList.clearjunk"
  "idl_destroy demo_env = (\<lambda>p d d0. if p = [] then d0 else d)"
  "new_ovs demo_env = \<lparr>o_bridges = [], o_ssl = None\<rparr>"
  "new_bridge demo_env = \<lparr>br_name = None, br_datapath_id = None, br_fail_mode = None, br_controller = [],
                   br_ports = [], br_flow_tables = [], br_other_config = []\<rparr>"
  "new_port demo_env = \<lparr>p_name = None, p_interfaces = [], p_qos = None\<rparr>"
  "new_iface demo_env = \<lparr>i_name = None, i_type = None, i_ofport_request = None, i_options = [], i_external_ids = []\<rparr>"
  "new_queue demo_env = \<lparr>q_external_ids = [], q_other_config = []\<rparr>"
  "new_qos demo_env = \<lparr>qos_type = None, qos_queues = []\<rparr>"
  "new_ft demo_env = \<lparr>ft_name = None, ft_external_ids = []\<rparr>"
  "new_contr demo_env = \<lparr>c_target = None, c_local_ip = None, c_connection_mode = None, c_external_ids = []\<rparr>"
  "new_ssl demo_env = \<lparr>ssl_certificate = None, ssl_private_key = None, ssl_ca_cert = None, ssl_external_ids = []\<rparr>"
  "SIOCGIFFLAGS demo_env k n = Some (fst k)" "SIOCSIFFLAGS demo_env n f k = (f, snd k)"
  "ETHTOOL_GDRVINFO demo_env k n = Some ''e1000''" "ETHTOOL_GSET demo_env k n = snd k"
  "ETHTOOL_SSET demo_env n a k = (fst k, a)" "IFF_UP demo_env = 1"
  "OFC_DATADIR demo_env = ''/d''" "os_creat demo_env p" "os_open demo_env p" "os_unlink demo_env p" "os_truncate demo_env p"
  "os_read demo_env p c = Some (length c)" "os_write demo_env p c d = Some (length d)"
  "vconn_open demo_env i p" "vconn_connect demo_env i p = (if i = 0 then 1 else 0)" "ofp_supported demo_env p"
  "of_port_desc demo_env k p = OfPorts [(''eth0'', 1)]"
  "of_port_mod demo_env p r b v k = (0, False, (if v then 1 else 0, snd k))" "idl_run demo_env k dd = dd"
  by (simp_all add: demo_env_def)

lemma demo_ofc_simps [simp]:
  "db (demo_ofc d) = d" "next_row (demo_ofc d) = 100" "base_row (demo_ofc d) = 100"
  "txn (demo_ofc d) = Some (TxnOpen d)" "poked (demo_ofc d) = []" "kst (demo_ofc d) = (0, 0)"
  "cs_id (demo_ofc d) = None" "files (demo_ofc d) = Map.empty"
  by (simp_all add: demo_ofc_def)

lemma table_simps [simp]:
  "order no_rows = []" "cells no_rows = Map.empty" "order (one_row r x) = [r]" "cells (one_row r x) = [r \<mapsto> x]"
  by (simp_all add: no_rows_def one_row_def)

lemma empty_db_simps [simp]:
  "tb_ovs empty_db = no_rows" "tb_bridge empty_db = no_rows" "tb_port empty_db = no_rows"
  "tb_iface empty_db = no_rows" "tb_queue empty_db = no_rows" "tb_qos empty_db = no_rows"
  "tb_ft empty_db = no_rows" "tb_contr empty_db = no_rows" "tb_ssl empty_db = no_rows"
  "tb_fscs empty_db = no_rows"
  by (simp_all add: empty_db_def)

section \<open>Properties\<close>

text \<open>
  C21: \<^verbatim>\<open>txn_commit\<close> on an open transaction succeeds exactly if libovs reports success or no change;
  any other status gives an operation-failed error with a message. Either way the transaction is
  closed and nothing but the replica changes.
\<close>

theorem commit_reports_status:
  assumes "txn s = Some (TxnOpen d0)" and "idl_commit env (db s) d0 = (status, d)"
  shows "(status \<in> {TXN_SUCCESS, TXN_UNCHANGED} \<longrightarrow>
            txn_commit env True s = Success (s\<lparr>db := d, txn := None\<rparr>))
       \<and> (status \<notin> {TXN_SUCCESS, TXN_UNCHANGED} \<longrightarrow>
            (\<exists>m. txn_commit env True s = fail (err_text NC_ERR_OP_FAILED m) (s\<lparr>db := d, txn := None\<rparr>)))"
  using assms
  by (cases status) (simp_all add: txn_commit_def commit_message_def txn_abort_def, blast+)

theorem commit_reports_status_witness:
  "txn_commit demo_env True (demo_ofc empty_db) = Success ((demo_ofc empty_db)\<lparr>db := empty_db, txn := None\<rparr>)"
  using commit_reports_status [of "demo_ofc empty_db" empty_db demo_env TXN_SUCCESS empty_db] by simp

text \<open>
  C20: when commits succeed, \<^verbatim>\<open>txn_del_all\<close> succeeds: the two base tables are empty in what it
  commits, and it leaves a new transaction open in which the tables of QoS, queues, ports and SSL
  settings are empty and the identifier of the switch is gone. The new transaction starts from the
  committed replica, so a later abort does not bring the deleted tables back.
\<close>

theorem del_all_empties:
  assumes "store_wf s" and "txn s = Some (TxnOpen d0)" and "commits env" and "commit_wf env (next_row s)"
  shows "\<exists>s' d. txn_del_all env s = Success s' \<and> store_wf s' \<and> cs_id s' = None
           \<and> order (tb_ovs d) = [] \<and> order (tb_fscs d) = []
           \<and> txn s' = Some (TxnOpen (snd (idl_commit env d d0)))
           \<and> order (tb_qos (db s')) = [] \<and> order (tb_queue (db s')) = []
           \<and> order (tb_port (db s')) = [] \<and> order (tb_ssl (db s')) = []"
  using assms by (rule del_all_tables)

definition demo_full :: db where
  "demo_full = empty_db\<lparr>tb_ovs := one_row 1 \<lparr>o_bridges = [], o_ssl = None\<rparr>,
     tb_port := one_row 2 \<lparr>p_name = Some ''eth0'', p_interfaces = [], p_qos = Some 3\<rparr>,
     tb_qos := one_row 3 \<lparr>qos_type = Some ''linux-htb'', qos_queues = []\<rparr>\<rparr>"

theorem del_all_empties_witness:
  "\<exists>s'. txn_del_all demo_env (demo_ofc demo_full) = Success s' \<and> order (tb_port (db s')) = []
        \<and> order (tb_qos (db s')) = []"
proof -
  have "store_wf (demo_ofc demo_full)" by (simp add: store_wf_def demo_full_def db_wf_def)
  then show ?thesis
    using del_all_empties [of "demo_ofc demo_full" demo_full demo_env] demo_env_commits by auto
qed

text \<open>
  a commit inside \<^verbatim>\<open>txn_del_all\<close> that fails makes the code write its error through a NULL
  pointer, since it calls \<^verbatim>\<open>txn_commit(NULL)\<close>.
\<close>

lemma del_all_commit_failure:
  assumes "store_wf s" and "txn s = Some (TxnOpen d0)"
    and "\<forall>d. fst (idl_commit env d d0) \<notin> {TXN_SUCCESS, TXN_UNCHANGED}"
  shows "txn_del_all env s = Undef"
proof -
  obtain s1 where s1: "andthen (for_each del_ovs (order (tb_ovs (db s))) s)
           (\<lambda>s. for_each (del_row tb_fscs tb_fscs_update) (order (tb_fscs (db s))) s) = Success s1"
      "txn s1 = Some (TxnOpen d0)"
    using del_base_tables [OF assms(1)] assms(2) by auto
  obtain st d where c: "idl_commit env (db s1) d0 = (st, d)" by (cases "idl_commit env (db s1) d0")
  then have "st \<notin> {TXN_SUCCESS, TXN_UNCHANGED}" using assms(3) by (metis fst_conv)
  then have "txn_commit env False s1 = Undef"
    using s1(2) c by (cases st) (simp_all add: txn_commit_def commit_message_def)
  then show ?thesis using s1(1) by (auto simp: txn_del_all_def andthen_eq_Success)
qed

lemma del_all_commit_failure_example:
  "txn_del_all (demo_env\<lparr>idl_commit := \<lambda>d d0. (TXN_ERROR, d)\<rparr>) (demo_ofc empty_db) = Undef"
  using del_all_commit_failure [of "demo_ofc empty_db" empty_db "demo_env\<lparr>idl_commit := \<lambda>d d0. (TXN_ERROR, d)\<rparr>"]
  by (simp add: store_wf_def)

end
