(* ===== verification/Ovs_Port.thy ===== *)
theory Ovs_Port
  imports Ovsdb
begin

text \<open>
  Ports of \<^verbatim>\<open>ovs-data.c\<close>: creation and deletion, the requested number, the administrative state,
  the advertised features and the tunnels.
\<close>

section \<open>Helpers\<close>

abbreviation bad_elem :: "string \<Rightarrow> string \<Rightarrow> nc_err" where
  "bad_elem b m \<equiv> err_elem_text NC_ERR_BAD_ELEM b m"

abbreviation no_port :: nc_err where
  "no_port \<equiv> bad_elem ''name'' ''Port does not exist in OVSDB''"

definition find_iface :: "string option \<Rightarrow> 'k ofc \<Rightarrow> rowid option" where
  "find_iface name s = find_row (\<lambda>x. name = i_name x) (tb_iface (db s))"

definition find_port :: "string option \<Rightarrow> 'k ofc \<Rightarrow> rowid option" where
  "find_port name s = find_row (\<lambda>x. name = p_name x) (tb_port (db s))"

text \<open>
  The same loop with \<^verbatim>\<open>strcmp\<close>, which must not meet a row with no name before the match:
  \<open>None\<close> stands for the NULL pointer read.
\<close>

fun scan_name :: "('r \<Rightarrow> string option) \<Rightarrow> string \<Rightarrow> (rowid \<Rightarrow> 'r option) \<Rightarrow> rowid list \<Rightarrow> rowid option option" where
  "scan_name nm v c [] = Some None"
| "scan_name nm v c (r # rs) =
     (case c r of
        None \<Rightarrow> None
      | Some x \<Rightarrow>
          (case nm x of
             None \<Rightarrow> None
           | Some n \<Rightarrow> if n = v then Some (Some r) else scan_name nm v c rs))"

definition port_name_of :: "'k ofc \<Rightarrow> rowid \<Rightarrow> string option" where
  "port_name_of s r = (case cells (tb_port (db s)) r of None \<Rightarrow> None | Some x \<Rightarrow> p_name x)"

definition iface_name_of :: "'k ofc \<Rightarrow> rowid \<Rightarrow> string option" where
  "iface_name_of s r = (case cells (tb_iface (db s)) r of None \<Rightarrow> None | Some x \<Rightarrow> i_name x)"

section \<open>Deletion and simple properties\<close>

definition txn_del_port :: "string option \<Rightarrow> 'k ofc \<Rightarrow> 'k ofc outcome" where
  "txn_del_port port_name s =
     (if port_name = None then fail op_failed s
      else case (find_port port_name s, find_iface port_name s) of
             (Some port, Some iface) \<Rightarrow>
               steps [del_row tb_port tb_port_update port, del_row tb_iface tb_iface_update iface] s
           | _ \<Rightarrow> fail no_port s)"

definition txn_mod_port_reqnumber :: "string option \<Rightarrow> string option \<Rightarrow> 'k ofc \<Rightarrow> 'k ofc outcome" where
  "txn_mod_port_reqnumber port_name value s =
     (if port_name = None then fail op_failed s
      else case find_iface port_name s of
             None \<Rightarrow> fail no_port s
           | Some iface \<Rightarrow>
               set_iface iface ''ofport_request''
                 (\<lambda>x. x\<lparr>i_ofport_request := map_option strtol10 value\<rparr>) s)"

text \<open>
  \<^verbatim>\<open>txn_mod_port_admin_state\<close>. When the element is deleted the code tests
  \<^verbatim>\<open>flags && IFF_UP\<close>, the logical conjunction.
\<close>

definition check_admin_state :: "'k env \<Rightarrow> string \<Rightarrow> bool \<Rightarrow> 'k ofc \<Rightarrow> 'k ofc outcome" where
  "check_admin_state env port_name req s =
     (let up = (and (dev_get_flags env s port_name) (IFF_UP env) \<noteq> 0) in
      if (req \<and> \<not> up) \<or> (\<not> req \<and> up)
      then fail (err_text NC_ERR_OP_FAILED ''Interface admin state not set to the requested value.'') s
      else Success s)"

definition txn_mod_port_admin_state ::
  "'k env \<Rightarrow> string option \<Rightarrow> string option \<Rightarrow> 'k ofc \<Rightarrow> 'k ofc outcome" where
  "txn_mod_port_admin_state env port_name value s =
     (case port_name of
        None \<Rightarrow> fail op_failed s
      | Some p \<Rightarrow>
          (let flags = dev_get_flags env s p in
           case value of
             None \<Rightarrow>
               if flags \<noteq> 0 \<and> IFF_UP env \<noteq> 0 then Success s
               else check_admin_state env p True (dev_set_flags env p (or flags (IFF_UP env)) s)
           | Some v \<Rightarrow>
               if v = ''up'' then
                 check_admin_state env p True (dev_set_flags env p (or flags (IFF_UP env)) s)
               else if v = ''down'' then
                 check_admin_state env p False (dev_set_flags env p (and flags (not (IFF_UP env))) s)
               else fail (bad_elem ''admin-state'' ''Invalid value to set.'') s))"

section \<open>Advertised features\<close>

definition rates :: "(advert \<times> string) list" where
  "rates =
    [(ADVERTISED_10baseT_Half, ''10Mb-HD''), (ADVERTISED_10baseT_Full, ''10Mb-FD''),
     (ADVERTISED_100baseT_Half, ''100Mb-HD''), (ADVERTISED_100baseT_Full, ''100Mb-FD''),
     (ADVERTISED_1000baseT_Half, ''1Gb-HD''), (ADVERTISED_1000baseT_Full, ''1Gb-FD''),
     (ADVERTISED_1000baseKX_Full, ''1Gb-FD''), (ADVERTISED_10000baseT_Full, ''10Gb''),
     (ADVERTISED_10000baseKX4_Full, ''10Gb''), (ADVERTISED_10000baseKR_Full, ''10Gb''),
     (ADVERTISED_40000baseKR4_Full, ''40Gb''), (ADVERTISED_40000baseCR4_Full, ''40Gb''),
     (ADVERTISED_40000baseSR4_Full, ''40Gb''), (ADVERTISED_40000baseLR4_Full, ''40Gb'')]"

definition medium :: "(advert \<times> string) list" where
  "medium = [(ADVERTISED_TP, ''copper''), (ADVERTISED_FIBRE, ''fiber'')]"

text \<open>The bit of the first entry with the given string; no bit if there is none.\<close>

definition table_bit :: "'k env \<Rightarrow> (advert \<times> string) list \<Rightarrow> string option \<Rightarrow> 32 word" where
  "table_bit env tab v =
     (case find (\<lambda>(a, str). v = Some str) tab of None \<Rightarrow> 0 | Some (a, str) \<Rightarrow> adv_bit env a)"

text \<open>
  The three bodies that turn one child of \<^verbatim>\<open>advertised\<close> into a change of the mask. \<open>None\<close> is the
  read of \<^verbatim>\<open>children->content\<close> of an element with no children.
\<close>

definition read_child :: "xmlnode \<Rightarrow> (string option \<Rightarrow> 'a) \<Rightarrow> 'a option" where
  "read_child x f = map_option (\<lambda>c. f (content c)) (case children x of [] \<Rightarrow> None | c # _ \<Rightarrow> Some c)"

definition new_port_advert :: "'k env \<Rightarrow> xmlnode \<Rightarrow> 32 word \<Rightarrow> (32 word) option" where
  "new_port_advert env x adv =
     (if \<not> is_element x then Some adv
      else if node_name x = ''rate'' then
        read_child x (\<lambda>v. or adv (table_bit env rates v))
      else if node_name x = ''medium'' then
        read_child x (\<lambda>v. or adv (table_bit env medium v))
      else if node_name x = ''auto-negotiate'' then
        read_child x (\<lambda>v. if v = Some ''false'' then and adv (not (adv_bit env ADVERTISED_Autoneg)) else adv)
      else if node_name x = ''pause'' then
        read_child x (\<lambda>v. if v = Some ''symetric'' then or adv (adv_bit env ADVERTISED_Pause)
                          else if v = Some ''asymetric'' then or adv (adv_bit env ADVERTISED_Asym_Pause)
                          else adv)
      else Some adv)"

definition add_advert :: "'k env \<Rightarrow> xmlnode \<Rightarrow> 32 word \<Rightarrow> (32 word) option" where
  "add_advert env x adv =
     (if node_name x = ''rate'' then read_child x (\<lambda>v. or adv (table_bit env rates v))
      else if node_name x = ''medium'' then read_child x (\<lambda>v. or adv (table_bit env medium v))
      else if node_name x = ''auto-negotiate'' then
        read_child x (\<lambda>v. if v = Some ''false'' then and adv (not (adv_bit env ADVERTISED_Autoneg))
                          else if v = Some ''true'' then or adv (adv_bit env ADVERTISED_Autoneg)
                          else adv)
      else if node_name x = ''pause'' then
        read_child x (\<lambda>v. if v = Some ''asymetric'' then
                            or (and adv (not (adv_bit env ADVERTISED_Pause))) (adv_bit env ADVERTISED_Asym_Pause)
                          else if v = Some ''symetric'' then
                            or (and adv (not (adv_bit env ADVERTISED_Asym_Pause))) (adv_bit env ADVERTISED_Pause)
                          else adv)
      else Some adv)"

definition del_advert :: "'k env \<Rightarrow> xmlnode \<Rightarrow> 32 word \<Rightarrow> (32 word) option" where
  "del_advert env x adv =
     (if node_name x = ''rate'' then read_child x (\<lambda>v. and adv (not (table_bit env rates v)))
      else if node_name x = ''medium'' then read_child x (\<lambda>v. and adv (not (table_bit env medium v)))
      else if node_name x = ''auto-negotiate'' then Some (or adv (adv_bit env ADVERTISED_Autoneg))
      else if node_name x = ''pause'' then
        Some (and (and adv (not (adv_bit env ADVERTISED_Pause))) (not (adv_bit env ADVERTISED_Asym_Pause)))
      else Some adv)"

definition change_advert ::
  "'k env \<Rightarrow> (xmlnode \<Rightarrow> 32 word \<Rightarrow> (32 word) option) \<Rightarrow> string option \<Rightarrow> xmlnode option \<Rightarrow> 'k ofc \<Rightarrow> 'k ofc outcome" where
  "change_advert env f port_name node s =
     (case (port_name, node) of
        (Some p, Some x) \<Rightarrow>
          if \<not> dev_is_system env s p then
            fail (err_text NC_ERR_OP_FAILED ''Unable to set advertised values on this type of interface'') s
          else (case f x (dev_get_ethtool env s p) of
                  None \<Rightarrow> Undef
                | Some adv \<Rightarrow> Success (dev_set_ethtool env p adv s))
      | _ \<Rightarrow> fail op_failed s)"

definition txn_add_port_advert ::
  "'k env \<Rightarrow> string option \<Rightarrow> xmlnode option \<Rightarrow> 'k ofc \<Rightarrow> 'k ofc outcome" where
  "txn_add_port_advert env = change_advert env (add_advert env)"

definition txn_del_port_advert ::
  "'k env \<Rightarrow> string option \<Rightarrow> xmlnode option \<Rightarrow> 'k ofc \<Rightarrow> 'k ofc outcome" where
  "txn_del_port_advert env = change_advert env (del_advert env)"

section \<open>Tunnels\<close>

definition tunnel_option :: "string \<Rightarrow> string option" where
  "tunnel_option n =
     (if n = ''local-endpoint-ipv4-adress'' then Some ''local_ip''
      else if n = ''remote-endpoint-ipv4-adress'' then Some ''remote_ip''
      else if n = ''key'' \<or> n = ''vni'' then Some ''key''
      else None)"

text \<open>
  The loop over the children of the tunnel element. \<^verbatim>\<open>smap_add_once\<close> copies the value only when
  the key is new, and copying NULL is undefined.
\<close>

fun tunnel_options :: "xmlnode list \<Rightarrow> smap \<Rightarrow> smap option" where
  "tunnel_options [] m = Some m"
| "tunnel_options (x # xs) m =
     (case (if is_element x then tunnel_option (node_name x) else None) of
        None \<Rightarrow> tunnel_options xs m
      | Some opt \<Rightarrow>
          (case (first_content x, smap_get m opt) of
             (_, Some _) \<Rightarrow> tunnel_options xs m
           | (None, None) \<Rightarrow> None
           | (Some v, None) \<Rightarrow> tunnel_options xs (smap_add_once opt v m)))"

definition txn_add_port_tunnel :: "string option \<Rightarrow> xmlnode option \<Rightarrow> 'k ofc \<Rightarrow> 'k ofc outcome" where
  "txn_add_port_tunnel port_name tunnel_node s =
     (case (port_name, tunnel_node) of
        (Some p, Some node) \<Rightarrow>
          (case scan_name i_name p (cells (tb_iface (db s))) (order (tb_iface (db s))) of
             None \<Rightarrow> Undef
           | Some None \<Rightarrow> fail no_port s
           | Some (Some ifc) \<Rightarrow>
               with_row tb_iface ifc (\<lambda>row.
                 case tunnel_options (children node) (i_options row) of
                   None \<Rightarrow> (\<lambda>_. Undef)
                 | Some opts \<Rightarrow>
                     steps
                       [set_iface ifc ''type''
                          (\<lambda>x. x\<lparr>i_type := Some (if node_name node = ''vxlan-tunnel'' then ''vxlan'' else ''gre'')\<rparr>),
                        set_iface ifc ''options'' (\<lambda>x. x\<lparr>i_options := opts\<rparr>),
                        set_iface ifc ''external_ids''
                          (\<lambda>x. x\<lparr>i_external_ids := smap_replace ''tunnel_type'' (node_name node) (i_external_ids x)\<rparr>)]) s)
      | _ \<Rightarrow> fail op_failed s)"

definition txn_del_port_tunnel :: "'k env \<Rightarrow> string option \<Rightarrow> 'k ofc \<Rightarrow> 'k ofc outcome" where
  "txn_del_port_tunnel env port_name s =
     (case find_iface port_name s of
        None \<Rightarrow> fail (bad_elem ''name'' ''Port not found in OVSDB.'') s
      | Some ifc \<Rightarrow>
          steps
            [set_iface ifc ''options''
               (\<lambda>x. x\<lparr>i_options := smap_remove ''key'' (smap_remove ''remote_ip'' (smap_remove ''local_ip'' (i_options x)))\<rparr>),
             set_iface ifc ''external_ids''
               (\<lambda>x. x\<lparr>i_external_ids := smap_remove ''tunnel_type'' (i_external_ids x)\<rparr>),
             (\<lambda>s. case port_name of
                    None \<Rightarrow> Undef
                  | Some p \<Rightarrow>
                      set_iface ifc ''type''
                        (\<lambda>x. x\<lparr>i_type := Some (if dev_is_system env s p then ''system'' else ''internal'')\<rparr>) s)] s)"

definition tunnel_opt_key :: "string \<Rightarrow> string option" where
  "tunnel_opt_key n = (if n = ''checksum-present'' then Some ''csum'' else tunnel_option n)"

definition txn_mod_port_tunnel_opt ::
  "string option \<Rightarrow> string option \<Rightarrow> string option \<Rightarrow> 'k ofc \<Rightarrow> 'k ofc outcome" where
  "txn_mod_port_tunnel_opt port_name name value s =
     (case name of
        None \<Rightarrow> fail (nc_err_new NC_ERR_BAD_ELEM) s
      | Some n \<Rightarrow>
          (case tunnel_opt_key n of
             None \<Rightarrow> fail (err_elem NC_ERR_BAD_ELEM n) s
           | Some k \<Rightarrow>
               (case find_iface port_name s of
                  None \<Rightarrow> fail (nc_err_new NC_ERR_DATA_MISSING) s
                | Some ifc \<Rightarrow>
                    set_iface ifc ''options''
                      (\<lambda>x. x\<lparr>i_options := (case value of
                                 Some v \<Rightarrow> smap_replace k v (i_options x)
                               | None \<Rightarrow> smap_remove k (i_options x))\<rparr>) s)))"

section \<open>Creation\<close>

text \<open>
  \<^verbatim>\<open>txn_add_port\<close>: one round of its loop. Besides the state it carries the flag \<^verbatim>\<open>tunnel\<close> and the
  local variable \<^verbatim>\<open>port_name\<close>, which is set only in the tunnel branch (\<open>None\<close>: not initialised).
\<close>

type_synonym 'k add_port_state = "bool \<times> string option option \<times> 'k ofc"

fun fold_advert :: "'k env \<Rightarrow> xmlnode list \<Rightarrow> 32 word \<Rightarrow> (32 word) option" where
  "fold_advert env [] adv = Some adv"
| "fold_advert env (x # xs) adv =
     (case new_port_advert env x adv of None \<Rightarrow> None | Some adv' \<Rightarrow> fold_advert env xs adv')"

definition add_port_features ::
  "'k env \<Rightarrow> rowid \<Rightarrow> string option option \<Rightarrow> xmlnode \<Rightarrow> 'k ofc \<Rightarrow> 'k ofc outcome" where
  "add_port_features env iface pname aux s =
     (case go2node (Some aux) ''advertised'' of
        None \<Rightarrow> Success s
      | Some advert \<Rightarrow>
          (case pname of
             Some (Some p) \<Rightarrow>
               if \<not> dev_is_system env s p then Success s
               else (case (iface_name_of s iface,
                           fold_advert env (children advert) (adv_bit env ADVERTISED_Autoneg)) of
                       (Some n, Some adv) \<Rightarrow> Success (dev_set_ethtool env n adv s)
                     | _ \<Rightarrow> Undef)
           | _ \<Rightarrow> Undef))"

definition add_port_child ::
  "'k env \<Rightarrow> xmlnode \<Rightarrow> rowid \<Rightarrow> rowid \<Rightarrow> xmlnode \<Rightarrow> 'k add_port_state \<Rightarrow> 'k add_port_state outcome" where
  "add_port_child env node port iface aux st =
     (case st of (tunnel, pname, s) \<Rightarrow>
        if \<not> is_element aux then Success st
        else if node_name aux = ''name'' then
          (case first_content aux of
             Some v \<Rightarrow>
               map_outcome (\<lambda>s. (tunnel, pname, s))
                 (steps [set_iface iface ''name'' (\<lambda>x. x\<lparr>i_name := Some v\<rparr>),
                         set_port port ''name'' (\<lambda>x. x\<lparr>p_name := Some v\<rparr>)] s)
           | None \<Rightarrow> fail (bad_elem ''name'' ''Invalid name of the port.'') st)
        else if node_name aux = ''requested-number'' then
          map_outcome (\<lambda>s. (tunnel, pname, s))
            (txn_mod_port_reqnumber (iface_name_of s iface) (first_content aux) s)
        else if node_name aux = ''configuration'' then
          Success (tunnel, pname, s\<lparr>added_interface := True\<rparr>)
        else if node_name aux \<in> {''ipgre-tunnel'', ''vxlan-tunnel'', ''tunnel''} then
          (if tunnel then
             fail (bad_elem (node_name aux) ''Multiple branches of the \"tunnel-type\" choice.'') st
           else
             map_outcome (\<lambda>s. (True, Some (get_key node ''name''), s))
               (txn_add_port_tunnel (get_key node ''name'') (Some aux) s))
        else if node_name aux = ''features'' then
          map_outcome (\<lambda>s. (tunnel, pname, s)) (add_port_features env iface pname aux s)
        else Success st)"

definition set_port_type :: "'k env \<Rightarrow> rowid \<Rightarrow> rowid \<Rightarrow> 'k ofc \<Rightarrow> 'k ofc outcome" where
  "set_port_type env port iface s =
     (case port_name_of s port of
        None \<Rightarrow> Undef
      | Some p \<Rightarrow>
          set_iface iface ''type''
            (\<lambda>x. x\<lparr>i_type := Some (if dev_is_system env s p then ''system'' else ''internal'')\<rparr>) s)"

definition txn_add_port :: "'k env \<Rightarrow> xmlnode option \<Rightarrow> 'k ofc \<Rightarrow> 'k ofc outcome" where
  "txn_add_port env node s =
     (case node of
        None \<Rightarrow> fail op_failed s
      | Some n \<Rightarrow>
          (let (port, s1) = insert_row env tb_port_update (new_port env) s;
               (iface, s2) = insert_row env tb_iface_update (new_iface env) s1
           in andthen (set_port port ''interfaces'' (\<lambda>x. x\<lparr>p_interfaces := [iface]\<rparr>) s2) (\<lambda>s3.
              leave (\<lambda>(_, _, s). s) (for_each (add_port_child env n port iface) (children n) (False, None, s3))
                (\<lambda>(tunnel, _, s4).
                  andthen (if tunnel then Success s4 else set_port_type env port iface s4)
                    (\<lambda>s5. Success (s5\<lparr>added_interface := True\<rparr>))))))"

section \<open>Invariants\<close>

lemma map_outcome_Success [simp]:
  "map_outcome f m = Success t \<longleftrightarrow> (\<exists>s. m = Success s \<and> t = f s)"
  by (cases m) auto

lemma outcome_all_map [simp]: "outcome_all P (map_outcome f m) = outcome_all (\<lambda>s. P (f s)) m"
  by (cases m) simp_all

lemma txn_del_port_keeps [wf_intros]:
  "in_txn h s \<Longrightarrow> outcome_all (in_txn h) (txn_del_port p s)"
  by (auto simp: txn_del_port_def simp del: steps_simps split: option.split intro!: wf_intros)

lemma txn_mod_port_reqnumber_keeps [wf_intros]:
  "in_txn h s \<Longrightarrow> outcome_all (in_txn h) (txn_mod_port_reqnumber p v s)"
  by (auto simp: txn_mod_port_reqnumber_def split: option.split intro!: wf_intros)

lemma txn_mod_port_admin_state_keeps [wf_intros]:
  "in_txn h s \<Longrightarrow> outcome_all (in_txn h) (txn_mod_port_admin_state env p v s)"
  by (auto simp: txn_mod_port_admin_state_def check_admin_state_def Let_def split: option.split)

lemma change_advert_keeps:
  "in_txn h s \<Longrightarrow> outcome_all (in_txn h) (change_advert env f p v s)"
  by (auto simp: change_advert_def split: option.split)

lemma txn_port_advert_keeps [wf_intros]:
  "in_txn h s \<Longrightarrow> outcome_all (in_txn h) (txn_add_port_advert env p v s)"
  "in_txn h s \<Longrightarrow> outcome_all (in_txn h) (txn_del_port_advert env p v s)"
  by (simp_all add: txn_add_port_advert_def txn_del_port_advert_def change_advert_keeps)

lemma txn_add_port_tunnel_keeps [wf_intros]:
  "in_txn h s \<Longrightarrow> outcome_all (in_txn h) (txn_add_port_tunnel p t s)"
  by (auto simp: txn_add_port_tunnel_def simp del: steps_simps split: option.split intro!: wf_intros)

lemma txn_del_port_tunnel_keeps [wf_intros]:
  "in_txn h s \<Longrightarrow> outcome_all (in_txn h) (txn_del_port_tunnel env p s)"
  by (auto simp: txn_del_port_tunnel_def simp del: steps_simps split: option.split intro!: wf_intros)

lemma txn_mod_port_tunnel_opt_keeps [wf_intros]:
  "in_txn h s \<Longrightarrow> outcome_all (in_txn h) (txn_mod_port_tunnel_opt p n v s)"
  by (auto simp: txn_mod_port_tunnel_opt_def split: option.split intro!: wf_intros)

lemma add_port_features_keeps:
  "in_txn h s \<Longrightarrow> outcome_all (in_txn h) (add_port_features env i pn x s)"
  by (auto simp: add_port_features_def split: option.split)

lemma add_port_child_keeps:
  "in_txn h (snd (snd st)) \<Longrightarrow>
     outcome_all (\<lambda>st. in_txn h (snd (snd st))) (add_port_child env n p i x st)"
  by (auto simp: add_port_child_def simp del: steps_simps split: prod.split option.split
      intro!: wf_intros add_port_features_keeps)

lemma txn_add_port_keeps [wf_intros]:
  assumes "idl_places env" and "in_txn h s"
  shows "outcome_all (in_txn h) (txn_add_port env node s)"
proof (cases node)
  case (Some n)
  obtain p s1 where 1: "insert_row env tb_port_update (new_port env) s = (p, s1)" by force
  obtain i s2 where 2: "insert_row env tb_iface_update (new_iface env) s1 = (i, s2)" by force
  have "in_txn h s2" using insert_keeps(3,4) assms 1 2 by blast
  then have a: "outcome_all (in_txn h) (set_port p ''interfaces'' (\<lambda>x. x\<lparr>p_interfaces := [i]\<rparr>) s2)"
    by (rule wf_intros)
  have b: "outcome_all (\<lambda>st. in_txn h (snd (snd st)))
      (for_each (add_port_child env n p i) (children n) (False, None, s3))" if "in_txn h s3" for s3
    using that by (auto intro!: outcome_all_for_each add_port_child_keeps)
  have c: "outcome_all (in_txn h) (set_port_type env p i s4)" if "in_txn h s4" for s4
    using that by (auto simp: set_port_type_def split: option.split intro!: wf_intros)
  have "outcome_all (in_txn h)
      (leave (\<lambda>(_, _, s). s) (for_each (add_port_child env n p i) (children n) (False, None, s3))
        (\<lambda>(tunnel, _, s4). andthen (if tunnel then Success s4 else set_port_type env p i s4)
             (\<lambda>s5. Success (s5\<lparr>added_interface := True\<rparr>))))" if "in_txn h s3" for s3
    using b [OF that] c by (intro outcome_all_leave) (auto simp: case_prod_beta' intro!: outcome_all_andthen)
  then show ?thesis
    using a by (auto simp: txn_add_port_def Some 1 2 intro!: outcome_all_andthen)
qed (use assms in \<open>simp add: txn_add_port_def\<close>)

section \<open>What creation and deletion do\<close>

text \<open>Operations on an existing interface leave ports and the names of interfaces alone.\<close>

definition same_names :: "'k ofc \<Rightarrow> 'k ofc \<Rightarrow> bool" where
  "same_names s s' \<longleftrightarrow> tb_port (db s') = tb_port (db s)
     \<and> order (tb_iface (db s')) = order (tb_iface (db s))
     \<and> (\<forall>r. map_option i_name (cells (tb_iface (db s')) r) = map_option i_name (cells (tb_iface (db s)) r))"

lemma same_names_refl [simp]: "same_names s s"
  by (simp add: same_names_def)

lemma same_names_trans: "same_names s t \<Longrightarrow> same_names t u \<Longrightarrow> same_names s u"
  by (simp add: same_names_def)

lemma same_names_misc [simp]:
  "same_names s (t\<lparr>added_interface := b\<rparr>) = same_names s t"
  "same_names s (dev_set_ethtool env n a t) = same_names s t"
  by (simp_all add: same_names_def dev_set_ethtool_def)

lemma set_iface_same_names:
  assumes "same_names s0 s" and "\<And>x. i_name (f x) = i_name x"
  shows "outcome_all (same_names s0) (set_iface r c f s)"
  using assms
  by (auto simp: set_row_def change_row_def same_names_def split: option.splits if_splits)
    (metis option.simps(9))

lemma txn_mod_port_reqnumber_same_names:
  "outcome_all (same_names s) (txn_mod_port_reqnumber p v s)"
  by (auto simp: txn_mod_port_reqnumber_def split: option.split intro!: set_iface_same_names)

lemma txn_add_port_tunnel_same_names:
  "outcome_all (same_names s) (txn_add_port_tunnel p t s)"
  by (auto simp: txn_add_port_tunnel_def simp del: steps_simps split: option.split
      intro!: with_row_keeps steps_keeps set_iface_same_names)

lemma add_port_features_same_names:
  "outcome_all (same_names s) (add_port_features env i pn x s)"
  by (auto simp: add_port_features_def split: option.split)

text \<open>The contents of the \<^verbatim>\<open>name\<close> children, in order.\<close>

definition name_values :: "xmlnode list \<Rightarrow> string option list" where
  "name_values xs = map first_content (filter (\<lambda>x. is_element x \<and> node_name x = ''name'') xs)"

definition last_name :: "string option \<Rightarrow> xmlnode list \<Rightarrow> string option" where
  "last_name d xs = (if name_values xs = [] then d else last (name_values xs))"

definition new_port_rows :: "rowid \<Rightarrow> rowid \<Rightarrow> string option \<Rightarrow> 'k ofc \<Rightarrow> bool" where
  "new_port_rows port iface n s \<longleftrightarrow>
     live (tb_port (db s)) port \<and> live (tb_iface (db s)) iface
     \<and> (\<exists>x. cells (tb_port (db s)) port = Some x \<and> p_name x = n \<and> p_interfaces x = [iface])
     \<and> (\<exists>y. cells (tb_iface (db s)) iface = Some y \<and> i_name y = n)"

lemma new_port_rows_same:
  "same_names s s' \<Longrightarrow> new_port_rows p i n s \<Longrightarrow> new_port_rows p i n s'"
  unfolding new_port_rows_def same_names_def live_def by (metis map_option_eq_Some)

lemma outcome_all_Success: "outcome_all P m \<Longrightarrow> m = Success s \<Longrightarrow> P s"
  by simp

lemma set_names_rows:
  assumes "new_port_rows p i n s"
    and "steps [set_iface i ''name'' (\<lambda>x. x\<lparr>i_name := Some v\<rparr>), set_port p ''name'' (\<lambda>x. x\<lparr>p_name := Some v\<rparr>)] s
           = Success s'"
  shows "new_port_rows p i (Some v) s'"
  using assms by (auto simp: new_port_rows_def set_row_def change_row_def live_def)

lemma add_port_child_rows:
  assumes "new_port_rows p i d (snd (snd st))" and "add_port_child env n p i x st = Success st'"
  shows "new_port_rows p i (last_name d [x]) (snd (snd st'))"
proof -
  obtain t pn s where st: "st = (t, pn, s)" by (cases st)
  obtain t' pn' s' where st': "st' = (t', pn', s')" by (cases st')
  have keep: "new_port_rows p i d s'" if "same_names s s'"
    using that assms(1) st new_port_rows_same by fastforce
  consider (name) "is_element x" "node_name x = ''name''" | (other) "\<not> (is_element x \<and> node_name x = ''name'')"
    by blast
  then show ?thesis
  proof cases
    case name
    then obtain v where v: "first_content x = Some v"
        "steps [set_iface i ''name'' (\<lambda>x. x\<lparr>i_name := Some v\<rparr>), set_port p ''name'' (\<lambda>x. x\<lparr>p_name := Some v\<rparr>)] s
           = Success s'"
      using assms(2) unfolding st st' add_port_child_def
      by (auto simp del: steps_simps split: option.splits)
    then show ?thesis using set_names_rows assms(1) name st st' by (fastforce simp: last_name_def name_values_def)
  next
    case other
    then have "same_names s s'"
      using assms(2) unfolding st st' add_port_child_def
      by (auto split: if_splits
          dest: outcome_all_Success [OF txn_mod_port_reqnumber_same_names]
            outcome_all_Success [OF txn_add_port_tunnel_same_names]
            outcome_all_Success [OF add_port_features_same_names])
    then show ?thesis using keep other st' by (auto simp: last_name_def name_values_def)
  qed
qed

text \<open>The rows of the other ports and the names of the other interfaces stay as they were.\<close>

definition port_frame :: "rowid \<Rightarrow> rowid \<Rightarrow> 'k ofc \<Rightarrow> 'k ofc \<Rightarrow> bool" where
  "port_frame p i s s' \<longleftrightarrow>
     order (tb_port (db s')) = order (tb_port (db s)) \<and> order (tb_iface (db s')) = order (tb_iface (db s))
     \<and> (\<forall>r. r \<noteq> p \<longrightarrow> cells (tb_port (db s')) r = cells (tb_port (db s)) r)
     \<and> (\<forall>r. r \<noteq> i \<longrightarrow> map_option i_name (cells (tb_iface (db s')) r) = map_option i_name (cells (tb_iface (db s)) r))"

lemma port_frame_refl [simp]: "port_frame p i s s"
  by (simp add: port_frame_def)

lemma port_frame_trans: "port_frame p i s t \<Longrightarrow> port_frame p i t u \<Longrightarrow> port_frame p i s u"
  by (simp add: port_frame_def)

lemma same_names_frame: "same_names s t \<Longrightarrow> port_frame p i s t"
  by (simp add: port_frame_def same_names_def)

lemma add_port_child_frame:
  assumes "add_port_child env n p i x (t, pn, s) = Success (t', pn', s')"
  shows "port_frame p i s s'"
    and "t' \<Longrightarrow> t \<or> get_key n ''name'' \<noteq> None"
    and "None \<notin> set (name_values [x])"
proof -
  have names: "port_frame p i s u"
    if "steps [set_iface i ''name'' (\<lambda>x. x\<lparr>i_name := Some v\<rparr>), set_port p ''name'' (\<lambda>x. x\<lparr>p_name := Some v\<rparr>)] s
           = Success u" for u v
    using that by (auto simp: port_frame_def set_row_def change_row_def split: option.splits if_splits)
  show "port_frame p i s s'"
    using assms names unfolding add_port_child_def
    by (auto simp del: steps_simps split: if_splits option.splits intro: same_names_frame
        dest: outcome_all_Success [OF txn_mod_port_reqnumber_same_names]
          outcome_all_Success [OF txn_add_port_tunnel_same_names]
          outcome_all_Success [OF add_port_features_same_names])
  show "t' \<Longrightarrow> t \<or> get_key n ''name'' \<noteq> None"
    using assms unfolding add_port_child_def
    by (auto simp: txn_add_port_tunnel_def simp del: steps_simps split: if_splits option.splits)
  show "None \<notin> set (name_values [x])"
    using assms unfolding add_port_child_def
    by (auto simp: name_values_def simp del: steps_simps split: if_splits option.splits)
qed

lemma last_name_Cons: "last_name d (x # xs) = last_name (last_name d [x]) xs"
  by (simp add: last_name_def name_values_def)

lemma add_port_loop:
  assumes "new_port_rows p i d s" and "for_each (add_port_child env n p i) xs (t, pn, s) = Success (t', pn', s')"
  shows "new_port_rows p i (last_name d xs) s' \<and> port_frame p i s s'
    \<and> (t' \<longrightarrow> t \<or> get_key n ''name'' \<noteq> None) \<and> None \<notin> set (name_values xs)"
  using assms
proof (induction xs arbitrary: d t pn s)
  case Nil
  then show ?case by (simp add: last_name_def name_values_def)
next
  case (Cons x xs)
  obtain t1 pn1 s1 where 1: "add_port_child env n p i x (t, pn, s) = Success (t1, pn1, s1)"
    and 2: "for_each (add_port_child env n p i) xs (t1, pn1, s1) = Success (t', pn', s')"
    using Cons.prems(2) by (cases "add_port_child env n p i x (t, pn, s)") auto
  have "new_port_rows p i (last_name d [x]) s1"
    using add_port_child_rows [of p i d "(t, pn, s)"] Cons.prems(1) 1 by fastforce
  from Cons.IH [OF this 2] add_port_child_frame [OF 1] show ?case
    by (auto simp: last_name_Cons [of d x xs] name_values_def intro: port_frame_trans)
qed

text \<open>The rows that are new in the state after an insertion into both tables.\<close>

definition port_rows_before :: "'k ofc \<Rightarrow> 'k ofc \<Rightarrow> bool" where
  "port_rows_before s s' \<longleftrightarrow>
     set (order (tb_port (db s'))) = insert (next_row s) (set (order (tb_port (db s))))
     \<and> set (order (tb_iface (db s'))) = insert (Suc (next_row s)) (set (order (tb_iface (db s))))
     \<and> (\<forall>r. r \<noteq> next_row s \<longrightarrow> cells (tb_port (db s')) r = cells (tb_port (db s)) r)
     \<and> (\<forall>r. r \<noteq> Suc (next_row s) \<longrightarrow>
            map_option i_name (cells (tb_iface (db s')) r) = map_option i_name (cells (tb_iface (db s)) r))"

lemma port_rows_before_frame:
  "port_rows_before s t \<Longrightarrow> port_frame (next_row s) (Suc (next_row s)) t u \<Longrightarrow> port_rows_before s u"
  by (simp add: port_rows_before_def port_frame_def)

lemma get_key_names: "get_key n ''name'' \<noteq> None \<Longrightarrow> name_values (children n) \<noteq> []"
  by (auto simp: get_key_def name_values_def filter_empty_conv dest!: go2node_Some split: option.splits)

lemma last_name_Some:
  "name_values xs \<noteq> [] \<Longrightarrow> None \<notin> set (name_values xs) \<Longrightarrow> \<exists>v. last_name d xs = Some v"
  by (metis last_in_set last_name_def not_None_eq)

lemma set_port_type_same:
  assumes "set_port_type env p i s = Success s'"
  shows "same_names s s'" and "port_name_of s p \<noteq> None"
proof -
  have "outcome_all (same_names s) (set_port_type env p i s)"
    by (auto simp: set_port_type_def split: option.split intro!: set_iface_same_names)
  then show "same_names s s'" using assms by simp
  show "port_name_of s p \<noteq> None" using assms by (auto simp: set_port_type_def split: option.splits)
qed

lemma txn_add_port_Success:
  assumes "txn_add_port env (Some n) s = Success s'"
  obtains p i s1 s2 s3 t pn s4 s5 where
    "insert_row env tb_port_update (new_port env) s = (p, s1)"
    "insert_row env tb_iface_update (new_iface env) s1 = (i, s2)"
    "set_port p ''interfaces'' (\<lambda>x. x\<lparr>p_interfaces := [i]\<rparr>) s2 = Success s3"
    "for_each (add_port_child env n p i) (children n) (False, None, s3) = Success (t, pn, s4)"
    "(if t then Success s4 else set_port_type env p i s4) = Success s5"
    "s' = s5\<lparr>added_interface := True\<rparr>"
proof -
  obtain p s1 where 1: "insert_row env tb_port_update (new_port env) s = (p, s1)" by force
  obtain i s2 where 2: "insert_row env tb_iface_update (new_iface env) s1 = (i, s2)" by force
  obtain s3 where 3: "set_port p ''interfaces'' (\<lambda>x. x\<lparr>p_interfaces := [i]\<rparr>) s2 = Success s3"
    using assms by (auto simp: txn_add_port_def 1 2 andthen_eq_Success)
  show ?thesis
    using assms that [OF 1 2 3]
    by (auto simp: txn_add_port_def 1 2 3 andthen_eq_Success leave_eq_Success)
qed

lemma add_port_creates:
  assumes places: "idl_places env"
    and new: "p_name (new_port env) = None" "i_name (new_iface env) = None"
    and ok: "txn_add_port env (Some n) s = Success s'"
  shows "\<exists>v. last_name None (children n) = Some v
           \<and> new_port_rows (next_row s) (Suc (next_row s)) (Some v) s' \<and> port_rows_before s s'"
proof -
  let ?p = "next_row s" and ?i = "Suc (next_row s)"
  obtain p i s1 s2 s3 t pn s4 s5 where
    ins: "insert_row env tb_port_update (new_port env) s = (p, s1)"
         "insert_row env tb_iface_update (new_iface env) s1 = (i, s2)"
    and s3: "set_port p ''interfaces'' (\<lambda>x. x\<lparr>p_interfaces := [i]\<rparr>) s2 = Success s3"
    and s4: "for_each (add_port_child env n p i) (children n) (False, None, s3) = Success (t, pn, s4)"
    and s5: "(if t then Success s4 else set_port_type env p i s4) = Success s5"
    and s': "s' = s5\<lparr>added_interface := True\<rparr>"
    using ok by (rule txn_add_port_Success)
  have pi: "p = ?p" "i = ?i" using ins by (auto simp: insert_row_def Let_def)
  have rows: "new_port_rows ?p ?i None s3" and before: "port_rows_before s s3"
    using ins s3 places new
    by (auto simp: insert_row_def Let_def set_row_def change_row_def new_port_rows_def live_def
        idl_places_def port_rows_before_def split: option.splits if_splits)
  have loop: "new_port_rows ?p ?i (last_name None (children n)) s4" "port_frame ?p ?i s3 s4"
      "t \<longrightarrow> get_key n ''name'' \<noteq> None" "None \<notin> set (name_values (children n))"
    using add_port_loop [OF rows s4 [unfolded pi]] by simp_all
  have same: "same_names s4 s'"
    using s5 s' set_port_type_same(1) by (fastforce split: if_splits)
  have "\<exists>v. last_name None (children n) = Some v"
  proof (cases t)
    case True
    then show ?thesis using loop(3,4) get_key_names last_name_Some by blast
  next
    case False
    then have "port_name_of s4 ?p \<noteq> None" using s5 pi set_port_type_same(2) by fastforce
    then show ?thesis using loop(1) by (auto simp: port_name_of_def new_port_rows_def)
  qed
  then show ?thesis
    using loop(1,2) same before port_rows_before_frame same_names_frame new_port_rows_same by metis
qed

lemma find_new_row:
  assumes "find_row P t = None" and "set (order t') = insert n (set (order t))"
    and "\<And>r x. r \<noteq> n \<Longrightarrow> cells t' r = Some x \<Longrightarrow> \<exists>y. cells t r = Some y \<and> P y = P x"
    and "cells t' n = Some z" and "P z"
  shows "find_row P t' = Some n"
proof (cases "find_row P t'")
  case None
  then show ?thesis using assms(2,4,5) by (auto simp: find_row_None live_def)
next
  case (Some r)
  then obtain x where r: "live t' r" "cells t' r = Some x" "P x" using find_row_Some by blast
  have "r = n"
  proof (rule ccontr)
    assume "r \<noteq> n"
    moreover from this have "live t r" using r(1) assms(2) by (simp add: live_def)
    ultimately show False using assms(1,3) r find_row_None by metis
  qed
  then show ?thesis using Some by simp
qed

lemma find_created:
  assumes "port_rows_before s s'" and "new_port_rows (next_row s) (Suc (next_row s)) (Some v) s'"
    and "find_port (Some v) s = None" and "find_iface (Some v) s = None"
  shows "find_port (Some v) s' = Some (next_row s)" and "find_iface (Some v) s' = Some (Suc (next_row s))"
proof -
  obtain x y where x: "cells (tb_port (db s')) (next_row s) = Some x" "Some v = p_name x"
    and y: "cells (tb_iface (db s')) (Suc (next_row s)) = Some y" "Some v = i_name y"
    using assms(2) by (auto simp: new_port_rows_def)
  show "find_port (Some v) s' = Some (next_row s)"
    unfolding find_port_def
    by (rule find_new_row [OF assms(3) [unfolded find_port_def]])
      (use assms(1) x in \<open>simp_all add: port_rows_before_def\<close>)
  have other: "\<exists>z. cells (tb_iface (db s)) r = Some z \<and> (Some v = i_name z) = (Some v = i_name w)"
    if "r \<noteq> Suc (next_row s)" "cells (tb_iface (db s')) r = Some w" for r w
  proof -
    have "map_option i_name (cells (tb_iface (db s')) r) = map_option i_name (cells (tb_iface (db s)) r)"
      using assms(1) that(1) by (simp add: port_rows_before_def)
    then show ?thesis using that(2) by (cases "cells (tb_iface (db s)) r") auto
  qed
  have "set (order (tb_iface (db s'))) = insert (Suc (next_row s)) (set (order (tb_iface (db s))))"
    using assms(1) by (simp add: port_rows_before_def)
  then show "find_iface (Some v) s' = Some (Suc (next_row s))"
    unfolding find_iface_def
    using find_new_row [OF assms(4) [unfolded find_iface_def] _ other y] by blast
qed

lemma del_port_Success:
  assumes "find_port (Some v) s = Some p" and "find_iface (Some v) s = Some i"
  shows "\<exists>s'. txn_del_port (Some v) s = Success s'
           \<and> order (tb_port (db s')) = removeAll p (order (tb_port (db s)))
           \<and> order (tb_iface (db s')) = removeAll i (order (tb_iface (db s)))
           \<and> (\<forall>r. r \<noteq> p \<longrightarrow> cells (tb_port (db s')) r = cells (tb_port (db s)) r)
           \<and> (\<forall>r. r \<noteq> i \<longrightarrow> cells (tb_iface (db s')) r = cells (tb_iface (db s)) r)
           \<and> tb_bridge (db s') = tb_bridge (db s) \<and> tb_queue (db s') = tb_queue (db s)
           \<and> tb_qos (db s') = tb_qos (db s)"
proof -
  have "live (tb_port (db s)) p" "live (tb_iface (db s)) i"
    using assms find_row_Some by (auto simp: find_port_def find_iface_def)
  then show ?thesis using assms by (simp add: txn_del_port_def del_row_def)
qed

lemma add_del_port:
  assumes "idl_places env" and "p_name (new_port env) = None" "i_name (new_iface env) = None"
    and wf: "store_wf s" and fresh: "find_port (Some v) s = None" "find_iface (Some v) s = None"
    and ok: "txn_add_port env (Some n) s = Success s1" and v: "last_name None (children n) = Some v"
  shows "\<exists>s2. txn_del_port (Some v) s1 = Success s2
           \<and> set (order (tb_port (db s2))) = set (order (tb_port (db s)))
           \<and> set (order (tb_iface (db s2))) = set (order (tb_iface (db s)))
           \<and> (\<forall>r. live (tb_port (db s)) r \<longrightarrow> cells (tb_port (db s2)) r = cells (tb_port (db s)) r)"
proof -
  have rows: "new_port_rows (next_row s) (Suc (next_row s)) (Some v) s1" and before: "port_rows_before s s1"
    using add_port_creates [OF assms(1-3) ok] v by auto
  obtain s2 where s2: "txn_del_port (Some v) s1 = Success s2"
      "order (tb_port (db s2)) = removeAll (next_row s) (order (tb_port (db s1)))"
      "order (tb_iface (db s2)) = removeAll (Suc (next_row s)) (order (tb_iface (db s1)))"
      "\<forall>r. r \<noteq> next_row s \<longrightarrow> cells (tb_port (db s2)) r = cells (tb_port (db s1)) r"
    using del_port_Success [OF find_created [OF before rows fresh]] by auto
  have "twf (next_row s) (tb_port (db s))" "twf (next_row s) (tb_iface (db s))"
    using wf by (simp_all add: store_wf_def db_wf_def)
  then have "next_row s \<notin> set (order (tb_port (db s)))" "Suc (next_row s) \<notin> set (order (tb_iface (db s)))"
    by (force simp: twf_def)+
  then show ?thesis
    using s2 before by (auto simp: port_rows_before_def live_def) metis
qed

section \<open>Administrative state\<close>

text \<open>The kernel returns the flags that were set last; \<^verbatim>\<open>IFF_UP\<close> is bit 0.\<close>

definition flags_kernel :: "'k env \<Rightarrow> bool" where
  "flags_kernel env \<longleftrightarrow> IFF_UP env = 1
     \<and> (\<forall>k n f. SIOCGIFFLAGS env (SIOCSIFFLAGS env n f k) n = Some f)"

definition dev_up :: "'k env \<Rightarrow> 'k ofc \<Rightarrow> string \<Rightarrow> bool" where
  "dev_up env s p \<longleftrightarrow> bit (dev_get_flags env s p) 0"

lemma flag_up [simp]: "and w (1 :: 32 word) \<noteq> 0 \<longleftrightarrow> bit w 0"
  by (simp add: and_one_eq odd_iff_mod_2_eq_one bit_0)

lemma dev_set_get:
  "flags_kernel env \<Longrightarrow> dev_get_flags env (dev_set_flags env p f s) p = scast (ucast f :: 16 word)"
  by (simp add: flags_kernel_def dev_get_flags_def dev_set_flags_def)

lemma bit0_flags: "bit (scast (ucast (f :: 32 word) :: 16 word) :: 32 word) 0 = bit f 0"
  by (simp add: bit_signed_iff bit_unsigned_iff)

lemma admin_state_set:
  assumes "flags_kernel env" and "v = ''up'' \<or> v = ''down''"
  shows "\<exists>s'. txn_mod_port_admin_state env (Some p) (Some v) s = Success s'
           \<and> (dev_up env s' p \<longleftrightarrow> v = ''up'') \<and> db s' = db s
           \<and> (\<forall>i. 0 < i \<longrightarrow> i < 16 \<longrightarrow> bit (dev_get_flags env s' p) i = bit (dev_get_flags env s p) i)"
proof -
  let ?f = "if v = ''up'' then or (dev_get_flags env s p) 1 else and (dev_get_flags env s p) (not 1)"
  let ?s = "dev_set_flags env p ?f s"
  have up: "IFF_UP env = 1" using assms(1) by (simp add: flags_kernel_def)
  have get: "dev_get_flags env ?s p = scast (ucast ?f :: 16 word)" using assms(1) by (rule dev_set_get)
  have b0: "bit (dev_get_flags env ?s p) 0 \<longleftrightarrow> v = ''up''"
    unfolding get bit0_flags by (auto simp: bit_0 even_or_iff even_and_iff)
  have "txn_mod_port_admin_state env (Some p) (Some v) s = Success ?s"
    using assms(2) b0 by (auto simp: txn_mod_port_admin_state_def check_admin_state_def up Let_def)
  moreover have "bit (dev_get_flags env ?s p) i = bit (dev_get_flags env s p) i" if "0 < i" "i < 16" for i
    unfolding get using that by (auto simp: bit_signed_iff bit_unsigned_iff bit_or_iff bit_and_iff bit_not_iff bit_1_iff)
  ultimately show ?thesis
    using b0 by (intro exI [where x = ?s]) (simp add: dev_up_def dev_set_flags_def)
qed

section \<open>Tunnel round trip\<close>

lemma scan_name_find:
  "scan_name i_name p c rs = Some (Some r) \<Longrightarrow>
     find (\<lambda>r. case c r of None \<Rightarrow> False | Some x \<Rightarrow> Some p = i_name x) rs = Some r"
  by (induction rs) (auto split: option.splits if_splits)

lemma scan_name_live:
  "scan_name nm p c rs = Some (Some r) \<Longrightarrow> r \<in> set rs \<and> (\<exists>x. c r = Some x \<and> nm x = Some p)"
  by (induction rs) (auto split: option.splits if_splits)

definition tunnel_keys :: "string set" where
  "tunnel_keys = {''local_ip'', ''remote_ip'', ''key''}"

lemma tunnel_option_key: "tunnel_option n = Some k \<Longrightarrow> k \<in> tunnel_keys"
  by (auto simp: tunnel_option_def tunnel_keys_def split: if_splits)

lemma tunnel_options_other:
  "tunnel_options xs m = Some m' \<Longrightarrow> k \<notin> tunnel_keys \<Longrightarrow> smap_get m' k = smap_get m k"
  by (induction xs m rule: tunnel_options.induct)
    (auto split: option.splits if_splits dest: tunnel_option_key)

lemma del_tunnel_row:
  assumes "live (tb_iface (db s)) r" and "cells (tb_iface (db s)) r = Some x"
    and "find_iface (Some p) s = Some r"
  shows "\<exists>s' y. txn_del_port_tunnel env (Some p) s = Success s' \<and> cells (tb_iface (db s')) r = Some y
     \<and> (\<forall>k. smap_get (i_options y) k = (if k \<in> tunnel_keys then None else smap_get (i_options x) k))
     \<and> (\<forall>k. smap_get (i_external_ids y) k = (if k = ''tunnel_type'' then None else smap_get (i_external_ids x) k))
     \<and> i_name y = i_name x
     \<and> i_type y = Some (if dev_is_system env s p then ''system'' else ''internal'')"
  using assms
  by (auto simp: txn_del_port_tunnel_def set_row_def change_row_def live_def tunnel_keys_def dev_is_system_def)

lemma add_tunnel_row:
  assumes "txn_add_port_tunnel (Some p) (Some t) s = Success s'"
  obtains r x y where "live (tb_iface (db s')) r" "find_iface (Some p) s = Some r"
    "find_iface (Some p) s' = Some r" "kst s' = kst s"
    "cells (tb_iface (db s)) r = Some x" "cells (tb_iface (db s')) r = Some y"
    "\<forall>k. k \<notin> tunnel_keys \<longrightarrow> smap_get (i_options y) k = smap_get (i_options x) k"
    "i_external_ids y = smap_replace ''tunnel_type'' (node_name t) (i_external_ids x)"
    "i_name y = i_name x"
proof -
  obtain r where scan: "scan_name i_name p (cells (tb_iface (db s))) (order (tb_iface (db s))) = Some (Some r)"
    using assms by (auto simp: txn_add_port_tunnel_def split: option.splits)
  have find: "find_iface (Some p) s = Some r"
    using scan_name_find [OF scan] by (simp add: find_iface_def find_row_def)
  obtain x where x: "cells (tb_iface (db s)) r = Some x" "live (tb_iface (db s)) r"
    using scan_name_live [OF scan] by (auto simp: live_def)
  obtain o1 where o1: "tunnel_options (children t) (i_options x) = Some o1"
    using assms by (auto simp: txn_add_port_tunnel_def scan with_row_def x split: option.splits)
  let ?y = "x\<lparr>i_type := Some (if node_name t = ''vxlan-tunnel'' then ''vxlan'' else ''gre''), i_options := o1,
              i_external_ids := smap_replace ''tunnel_type'' (node_name t) (i_external_ids x)\<rparr>"
  have s': "tb_iface (db s') = (tb_iface (db s))\<lparr>cells := (cells (tb_iface (db s)))(r \<mapsto> ?y)\<rparr>" "kst s' = kst s"
    using assms x by (auto simp: txn_add_port_tunnel_def scan with_row_def o1 set_row_def change_row_def live_def)
  have "find_iface (Some p) s' = Some r"
  proof -
    have "(\<lambda>q. case cells (tb_iface (db s')) q of None \<Rightarrow> False | Some x \<Rightarrow> Some p = i_name x)
        = (\<lambda>q. case cells (tb_iface (db s)) q of None \<Rightarrow> False | Some x \<Rightarrow> Some p = i_name x)"
      using x by (auto simp: s')
    then show ?thesis using find by (simp add: find_iface_def find_row_def s')
  qed
  then show ?thesis
    using that [of r x ?y] find x s' tunnel_options_other [OF o1] by (simp add: live_def)
qed

section \<open>Advertised features\<close>

definition ethtool_kernel :: "'k env \<Rightarrow> bool" where
  "ethtool_kernel env \<longleftrightarrow>
     (\<forall>k n a. ETHTOOL_GSET env (ETHTOOL_SSET env n a k) n = a
        \<and> ETHTOOL_GDRVINFO env (ETHTOOL_SSET env n a k) n = ETHTOOL_GDRVINFO env k n)"

text \<open>The bit an element of \<^verbatim>\<open>advertised\<close> stands for.\<close>

definition element_bit :: "'k env \<Rightarrow> xmlnode \<Rightarrow> 32 word" where
  "element_bit env x =
     (if node_name x = ''rate'' then table_bit env rates (first_content x)
      else table_bit env medium (first_content x))"

lemma word_set_clear:
  fixes a b :: "32 word"
  shows "and a b = 0 \<Longrightarrow> and (or a b) (not b) = a"
  by (simp add: bit_eq_iff bit_and_iff bit_or_iff bit_not_iff) blast

lemma add_del_advert:
  assumes "node_name x = ''rate'' \<or> node_name x = ''medium''" and "children x \<noteq> []"
    and "and adv (element_bit env x) = 0"
  shows "add_advert env x adv = Some (or adv (element_bit env x))"
    and "del_advert env x (or adv (element_bit env x)) = Some adv"
  using assms word_set_clear [of adv "element_bit env x"]
  by (auto simp: add_advert_def del_advert_def read_child_def element_bit_def first_content_def split: list.splits)

section \<open>Properties\<close>

text \<open>
  C12: \<^verbatim>\<open>txn_add_port\<close> that succeeds has put two fresh rows into the database, a port and an
  interface, both live, the port referring to exactly that interface, and both with the name
  given by the last \<^verbatim>\<open>name\<close> child; a success without a name is impossible. The rows of all other
  ports and the names of all other interfaces are as before.
\<close>
theorem port_created:
  assumes "idl_places env" and "p_name (new_port env) = None" and "i_name (new_iface env) = None"
    and "txn_add_port env (Some n) s = Success s'"
  shows "\<exists>v. last_name None (children n) = Some v
           \<and> new_port_rows (next_row s) (Suc (next_row s)) (Some v) s' \<and> port_rows_before s s'"
  using assms by (rule add_port_creates)

definition port_xml :: "string \<Rightarrow> xmlnode" where
  "port_xml n = Element 1 ''port'' None [] []
     [Element 2 ''name'' None [] [] [TextNode 3 n],
      Element 4 ''requested-number'' None [] [] [TextNode 5 ''7'']]"

lemma demo_add_port:
  "\<exists>s'. txn_add_port demo_env (Some (port_xml ''eth1'')) (demo_ofc empty_db) = Success s'"
  by (simp add: txn_add_port_def port_xml_def insert_row_def set_row_def change_row_def live_def Let_def add_port_child_def first_content_def
      txn_mod_port_reqnumber_def iface_name_of_def find_iface_def find_row_def set_port_type_def port_name_of_def)

theorem port_created_witness:
  "\<exists>s' v. txn_add_port demo_env (Some (port_xml ''eth1'')) (demo_ofc empty_db) = Success s'
     \<and> last_name None (children (port_xml ''eth1'')) = Some v \<and> new_port_rows 100 101 (Some v) s'"
proof -
  obtain s' where s': "txn_add_port demo_env (Some (port_xml ''eth1'')) (demo_ofc empty_db) = Success s'"
    using demo_add_port by blast
  show ?thesis using port_created [OF demo_env_places _ _ s'] s' by auto
qed

text \<open>
  C17: Deleting a port undoes its creation. After \<^verbatim>\<open>txn_add_port\<close> of a name that no port and no
  interface had, \<^verbatim>\<open>txn_del_port\<close> of that name succeeds, and the ports and interfaces that remain
  are those that were there before, with the port rows unchanged.
\<close>
theorem port_add_then_del:
  assumes "idl_places env" and "p_name (new_port env) = None" and "i_name (new_iface env) = None"
    and "store_wf s" and "find_port (Some v) s = None" and "find_iface (Some v) s = None"
    and "txn_add_port env (Some n) s = Success s1" and "last_name None (children n) = Some v"
  shows "\<exists>s2. txn_del_port (Some v) s1 = Success s2
           \<and> set (order (tb_port (db s2))) = set (order (tb_port (db s)))
           \<and> set (order (tb_iface (db s2))) = set (order (tb_iface (db s)))
           \<and> (\<forall>r. live (tb_port (db s)) r \<longrightarrow> cells (tb_port (db s2)) r = cells (tb_port (db s)) r)"
  using assms by (rule add_del_port)

theorem port_add_then_del_witness:
  "\<exists>s1 s2. txn_add_port demo_env (Some (port_xml ''eth1'')) (demo_ofc empty_db) = Success s1
     \<and> txn_del_port (Some ''eth1'') s1 = Success s2 \<and> order (tb_port (db s2)) = []"
proof -
  obtain s1 where s1: "txn_add_port demo_env (Some (port_xml ''eth1'')) (demo_ofc empty_db) = Success s1"
    using demo_add_port by blast
  have "last_name None (children (port_xml ''eth1'')) = Some ''eth1''"
    by (simp add: port_xml_def last_name_def name_values_def first_content_def)
  moreover have "store_wf (demo_ofc empty_db)" by (simp add: store_wf_def)
  ultimately show ?thesis
    using port_add_then_del [OF demo_env_places _ _ _ _ _ s1, of "''eth1''"] s1
    by (auto simp: find_port_def find_iface_def find_row_def)
qed

text \<open>
  \<^verbatim>\<open>txn_mod_port_admin_state\<close> with \<^verbatim>\<open>up\<close> or \<^verbatim>\<open>down\<close>, on a kernel that keeps the flags it is given,
  succeeds, leaves the interface in the requested state and changes no other interface flag and
  nothing in the database.
\<close>
lemma admin_state_applied:
  assumes "flags_kernel env" and "v = ''up'' \<or> v = ''down''"
  shows "\<exists>s'. txn_mod_port_admin_state env (Some p) (Some v) s = Success s'
           \<and> (dev_up env s' p \<longleftrightarrow> v = ''up'') \<and> db s' = db s
           \<and> (\<forall>i. 0 < i \<longrightarrow> i < 16 \<longrightarrow> bit (dev_get_flags env s' p) i = bit (dev_get_flags env s p) i)"
  using assms by (rule admin_state_set)

lemma admin_state_applied_example:
  "\<exists>s'. txn_mod_port_admin_state demo_env (Some ''eth1'') (Some ''up'') (demo_ofc empty_db) = Success s'
     \<and> dev_up demo_env s' ''eth1''"
  using admin_state_applied [of demo_env "''up''" "''eth1''" "demo_ofc empty_db"]
  by (auto simp: flags_kernel_def)

text \<open>
  Deleting \<^verbatim>\<open>admin-state\<close> should bring the interface to the default state, up. The code tests
  \<^verbatim>\<open>flags && IFF_UP\<close>: an interface that is down and has any other flag set stays down, and the
  operation reports success without having done anything.
\<close>
lemma admin_state_default_not_applied:
  assumes "flags_kernel env" and "dev_get_flags env s p \<noteq> 0" and "\<not> dev_up env s p"
  shows "txn_mod_port_admin_state env (Some p) None s = Success s \<and> \<not> dev_up env s p"
  using assms by (simp add: txn_mod_port_admin_state_def flags_kernel_def Let_def)

lemma admin_state_default_not_applied_example:
  "\<not> dev_up demo_env ((demo_ofc empty_db)\<lparr>kst := (4098, 0)\<rparr>) ''eth1''
   \<and> txn_mod_port_admin_state demo_env (Some ''eth1'') None ((demo_ofc empty_db)\<lparr>kst := (4098, 0)\<rparr>)
       = Success ((demo_ofc empty_db)\<lparr>kst := (4098, 0)\<rparr>)"
proof -
  let ?s = "(demo_ofc empty_db)\<lparr>kst := (4098, 0)\<rparr>"
  have f: "dev_get_flags demo_env ?s ''eth1'' = 4098" by (simp add: dev_get_flags_def)
  then have "\<not> dev_up demo_env ?s ''eth1''" by (simp add: dev_up_def)
  then show ?thesis
    using admin_state_default_not_applied [of demo_env ?s "''eth1''"] f
    by (simp add: flags_kernel_def)
qed

text \<open>
  Deleting a tunnel undoes its creation. For an interface with none of the tunnel options,
  \<^verbatim>\<open>txn_add_port_tunnel\<close> followed by \<^verbatim>\<open>txn_del_port_tunnel\<close> succeeds and gives back the options and
  the name of the interface; of the external ids only \<^verbatim>\<open>tunnel_type\<close> is gone.
\<close>
lemma tunnel_add_then_del:
  assumes "txn_add_port_tunnel (Some p) (Some t) s = Success s1"
    and "find_iface (Some p) s = Some r" and "cells (tb_iface (db s)) r = Some x"
    and "\<forall>k \<in> tunnel_keys. smap_get (i_options x) k = None"
  shows "\<exists>s2 y. txn_del_port_tunnel env (Some p) s1 = Success s2 \<and> cells (tb_iface (db s2)) r = Some y
           \<and> (\<forall>k. smap_get (i_options y) k = smap_get (i_options x) k) \<and> i_name y = i_name x
           \<and> (\<forall>k. smap_get (i_external_ids y) k =
                  (if k = ''tunnel_type'' then None else smap_get (i_external_ids x) k))"
proof -
  obtain r' x' y where y: "live (tb_iface (db s1)) r'" "find_iface (Some p) s = Some r'"
      "find_iface (Some p) s1 = Some r'" "kst s1 = kst s" "cells (tb_iface (db s)) r' = Some x'"
      "cells (tb_iface (db s1)) r' = Some y"
      "\<forall>k. k \<notin> tunnel_keys \<longrightarrow> smap_get (i_options y) k = smap_get (i_options x') k"
      "i_external_ids y = smap_replace ''tunnel_type'' (node_name t) (i_external_ids x')" "i_name y = i_name x'"
    by (rule add_tunnel_row [OF assms(1)])
  have r: "r' = r" and x: "x' = x" using y(2,5) assms(2,3) by simp_all
  obtain s2 z where "txn_del_port_tunnel env (Some p) s1 = Success s2" "cells (tb_iface (db s2)) r = Some z"
      "\<forall>k. smap_get (i_options z) k = (if k \<in> tunnel_keys then None else smap_get (i_options y) k)"
      "\<forall>k. smap_get (i_external_ids z) k = (if k = ''tunnel_type'' then None else smap_get (i_external_ids y) k)"
      "i_name z = i_name y"
    using del_tunnel_row [OF y(1,6,3), of env] unfolding r by blast
  then show ?thesis
    using y(7-9) assms(4) unfolding x by (intro exI [where x = s2] exI [where x = z]) simp
qed

definition tunnel_xml :: xmlnode where
  "tunnel_xml = Element 1 ''ipgre-tunnel'' None [] []
     [Element 2 ''local-endpoint-ipv4-adress'' None [] [] [TextNode 3 ''10.0.0.1''],
      Element 4 ''key'' None [] [] [TextNode 5 ''9'']]"

definition iface_db :: db where
  "iface_db = empty_db\<lparr>tb_iface := one_row 5 \<lparr>i_name = Some ''eth1'', i_type = None, i_ofport_request = None,
                       i_options = [(''csum'', ''true'')], i_external_ids = []\<rparr>\<rparr>"

lemma tunnel_add_then_del_example:
  "\<exists>s1 s2. txn_add_port_tunnel (Some ''eth1'') (Some tunnel_xml) (demo_ofc iface_db) = Success s1
     \<and> txn_del_port_tunnel demo_env (Some ''eth1'') s1 = Success s2"
proof -
  have "\<exists>s1. txn_add_port_tunnel (Some ''eth1'') (Some tunnel_xml) (demo_ofc iface_db) = Success s1"
    by (simp add: txn_add_port_tunnel_def tunnel_xml_def iface_db_def with_row_def tunnel_option_def
        first_content_def smap_get_def smap_add_once_def smap_replace_def set_row_def change_row_def live_def)
  then obtain s1 where s1: "txn_add_port_tunnel (Some ''eth1'') (Some tunnel_xml) (demo_ofc iface_db) = Success s1"
    by blast
  show ?thesis
    using tunnel_add_then_del [OF s1, of 5 _ demo_env] s1
    by (auto simp: iface_db_def find_iface_def find_row_def tunnel_keys_def smap_get_def)
qed

text \<open>
  Removing an advertised rate or medium undoes adding it: if the bit the element stands for
  was not advertised, \<^verbatim>\<open>txn_add_port_advert\<close> sets exactly that bit and \<^verbatim>\<open>txn_del_port_advert\<close> gives
  back the advertised mask the interface had.
\<close>
lemma advert_add_then_del:
  assumes "ethtool_kernel env" and "dev_is_system env s p"
    and "node_name x = ''rate'' \<or> node_name x = ''medium''" and "children x \<noteq> []"
    and "and (dev_get_ethtool env s p) (element_bit env x) = 0"
  shows "\<exists>s1 s2. txn_add_port_advert env (Some p) (Some x) s = Success s1
           \<and> dev_get_ethtool env s1 p = or (dev_get_ethtool env s p) (element_bit env x)
           \<and> txn_del_port_advert env (Some p) (Some x) s1 = Success s2
           \<and> dev_get_ethtool env s2 p = dev_get_ethtool env s p"
  using assms(1,2) add_del_advert [OF assms(3-5)]
  by (simp add: txn_add_port_advert_def txn_del_port_advert_def change_advert_def ethtool_kernel_def
      dev_get_ethtool_def dev_set_ethtool_def dev_is_system_def)

lemma advert_add_then_del_example:
  "\<exists>s1. txn_add_port_advert demo_env (Some ''eth1'')
          (Some (Element 1 ''rate'' None [] [] [TextNode 2 ''100Mb-FD''])) (demo_ofc empty_db) = Success s1
     \<and> dev_get_ethtool demo_env s1 ''eth1'' = 8"
proof -
  let ?x = "Element 1 ''rate'' None [] [] [TextNode 2 ''100Mb-FD'']"
  have "element_bit demo_env ?x = 8"
    by (simp add: element_bit_def table_bit_def rates_def first_content_def demo_env_def)
  then show ?thesis
    using advert_add_then_del [of demo_env "demo_ofc empty_db" "''eth1''" ?x]
    by (auto simp: ethtool_kernel_def dev_is_system_def dev_get_ethtool_def)
qed

end
