(* ===== verification/Ovs_Queue.thy ===== *)
theory Ovs_Queue
  imports Ovs_Port
begin

text \<open>
  Queues and flow tables of \<^verbatim>\<open>ovs-data.c\<close>. A queue is linked to a port through the QoS record of
  the port, whose column \<^verbatim>\<open>queues\<close> maps queue numbers to queues; the code finds a queue by the
  resource id kept in its external ids.
\<close>

definition OFC_RESOURCE_ID :: string where
  "OFC_RESOURCE_ID = ''ofc_resource_id''"

definition QOS_TYPE :: string where
  "QOS_TYPE = ''linux-hfsc''"

section \<open>Finding queues\<close>

definition queue_has_rid :: "string \<Rightarrow> queue_row \<Rightarrow> bool" where
  "queue_has_rid rid x \<longleftrightarrow> smap_get (q_external_ids x) OFC_RESOURCE_ID = Some rid"

definition find_queue :: "string option \<Rightarrow> 'k ofc \<Rightarrow> rowid option" where
  "find_queue resource_id s =
     (case resource_id of None \<Rightarrow> None | Some rid \<Rightarrow> find_row (queue_has_rid rid) (tb_queue (db s)))"

text \<open>
  The inner loop \<^verbatim>\<open>for (i = 0; i < qos->n_queues; i++)\<close> gives the index of the queue with the
  resource id. The outer \<open>None\<close> is a read of a queue that is freed.
\<close>

fun scan_queues :: "(rowid \<Rightarrow> queue_row option) \<Rightarrow> string \<Rightarrow> (int \<times> rowid) list \<Rightarrow> nat option option" where
  "scan_queues c rid [] = Some None"
| "scan_queues c rid ((k, q) # qs) =
     (case c q of
        None \<Rightarrow> None
      | Some x \<Rightarrow>
          if queue_has_rid rid x then Some (Some 0)
          else map_option (map_option Suc) (scan_queues c rid qs))"

text \<open>The loop over ports with a QoS record, and the loop over all QoS records.\<close>

fun scan_ports :: "'k ofc \<Rightarrow> string \<Rightarrow> rowid list \<Rightarrow> (rowid \<times> rowid \<times> nat) option option" where
  "scan_ports s rid [] = Some None"
| "scan_ports s rid (p # ps) =
     (case cells (tb_port (db s)) p of
        None \<Rightarrow> None
      | Some x \<Rightarrow>
          (case p_qos x of
             None \<Rightarrow> scan_ports s rid ps
           | Some q \<Rightarrow>
               (case cells (tb_qos (db s)) q of
                  None \<Rightarrow> None
                | Some y \<Rightarrow>
                    (case scan_queues (cells (tb_queue (db s))) rid (qos_queues y) of
                       None \<Rightarrow> None
                     | Some None \<Rightarrow> scan_ports s rid ps
                     | Some (Some i) \<Rightarrow> Some (Some (p, q, i))))))"

fun scan_qos :: "'k ofc \<Rightarrow> string \<Rightarrow> rowid list \<Rightarrow> (rowid \<times> nat) option option" where
  "scan_qos s rid [] = Some None"
| "scan_qos s rid (q # qs) =
     (case cells (tb_qos (db s)) q of
        None \<Rightarrow> None
      | Some y \<Rightarrow>
          (case scan_queues (cells (tb_queue (db s))) rid (qos_queues y) of
             None \<Rightarrow> None
           | Some None \<Rightarrow> scan_qos s rid qs
           | Some (Some i) \<Rightarrow> Some (Some (q, i))))"

definition find_queue_port :: "string \<Rightarrow> 'k ofc \<Rightarrow> rowid option option" where
  "find_queue_port rid s = map_option (map_option fst) (scan_ports s rid (order (tb_port (db s))))"

section \<open>Links between queues and ports\<close>

abbreviation no_queue_port :: nc_err where
  "no_queue_port \<equiv> err_text NC_ERR_OP_FAILED ''Queue to link with port not found.''"

abbreviation bad_queue_id :: nc_err where
  "bad_queue_id \<equiv> bad_elem ''id'' ''Invalid queue's id value.''"

definition link_queue :: "'k env \<Rightarrow> rowid \<Rightarrow> rowid \<Rightarrow> int \<Rightarrow> 'k ofc \<Rightarrow> 'k ofc outcome" where
  "link_queue env port queue qid =
     with_row tb_port port (\<lambda>x.
       case p_qos x of
         None \<Rightarrow> (\<lambda>s.
           let (qos, s1) = insert_row env tb_qos_update (new_qos env) s in
           steps
             [set_qos qos ''type'' (\<lambda>y. y\<lparr>qos_type := Some QOS_TYPE\<rparr>),
              set_qos qos ''queues'' (\<lambda>y. y\<lparr>qos_queues := [(qid, queue)]\<rparr>),
              set_port port ''qos'' (\<lambda>y. y\<lparr>p_qos := Some qos\<rparr>)] s1)
       | Some qos \<Rightarrow>
           set_qos qos ''queues'' (\<lambda>y. y\<lparr>qos_queues := idl_map env (qos_queues y @ [(qid, queue)])\<rparr>))"

definition txn_add_queue_port :: "'k env \<Rightarrow> string option \<Rightarrow> string option \<Rightarrow> 'k ofc \<Rightarrow> 'k ofc outcome" where
  "txn_add_queue_port env rid port_name s =
     (if rid = None \<or> port_name = None then fail op_failed s
      else case find_queue rid s of
             None \<Rightarrow> fail no_queue_port s
           | Some queue \<Rightarrow>
               with_row tb_queue queue (\<lambda>x s.
                 case smap_get (q_external_ids x) ''ofc_id'' of
                   None \<Rightarrow> fail (err_text NC_ERR_OP_FAILED ''Internal inconsistency of the queue records.'') s
                 | Some qid_s \<Rightarrow>
                     (case find_port port_name s of
                        None \<Rightarrow> fail (err_text NC_ERR_OP_FAILED ''Port to link with queue not found.'') s
                      | Some port \<Rightarrow>
                          (case sscanf_i64 qid_s of
                             None \<Rightarrow> fail bad_queue_id s
                           | Some qid \<Rightarrow> link_queue env port queue qid s))) s)"

definition txn_mod_queue_id :: "'k env \<Rightarrow> string option \<Rightarrow> string option \<Rightarrow> 'k ofc \<Rightarrow> 'k ofc outcome" where
  "txn_mod_queue_id env rid qid_s s =
     (case (rid, qid_s) of
        (Some r, Some v) \<Rightarrow>
          (case sscanf_i64 v of
             None \<Rightarrow> fail bad_queue_id s
           | Some qid \<Rightarrow>
               (case find_queue rid s of
                  None \<Rightarrow> fail no_queue_port s
                | Some queue \<Rightarrow>
                    (case scan_qos s r (order (tb_qos (db s))) of
                       None \<Rightarrow> Undef
                     | Some found \<Rightarrow>
                         andthen
                           (case found of
                              None \<Rightarrow> Success s
                            | Some (qos, i) \<Rightarrow>
                                set_qos qos ''queues''
                                  (\<lambda>y. y\<lparr>qos_queues := idl_map env ((qos_queues y)[i := (qid, snd (qos_queues y ! i))])\<rparr>) s)
                           (set_queue queue ''external_ids''
                              (\<lambda>x. x\<lparr>q_external_ids := smap_replace ''ofc_id'' v (q_external_ids x)\<rparr>)))))
      | _ \<Rightarrow> fail op_failed s)"

text \<open>
  \<^verbatim>\<open>txn_del_qos_queue\<close> also tells its caller whether it deleted the record, by setting the pointer to
  NULL.
\<close>

definition txn_del_qos_queue :: "'k env \<Rightarrow> rowid \<Rightarrow> nat \<Rightarrow> 'k ofc \<Rightarrow> 'k ofc outcome" where
  "txn_del_qos_queue env qos i =
     with_row tb_qos qos (\<lambda>y.
       if length (qos_queues y) = 1 then del_row tb_qos tb_qos_update qos
       else set_qos qos ''queues''
              (\<lambda>y. y\<lparr>qos_queues := idl_map env (take i (qos_queues y) @ drop (Suc i) (qos_queues y))\<rparr>))"

definition txn_del_queue_port :: "'k env \<Rightarrow> string option \<Rightarrow> 'k ofc \<Rightarrow> 'k ofc outcome" where
  "txn_del_queue_port env rid s =
     (case rid of
        None \<Rightarrow> fail op_failed s
      | Some r \<Rightarrow>
          (case scan_ports s r (order (tb_port (db s))) of
             None \<Rightarrow> Undef
           | Some None \<Rightarrow> fail op_failed s
           | Some (Some (port, qos, i)) \<Rightarrow>
               andthen (txn_del_qos_queue env qos i s) (\<lambda>s1.
                 if live (tb_qos (db s1)) qos then Success s1
                 else set_port port ''qos'' (\<lambda>x. x\<lparr>p_qos := None\<rparr>) s1)))"

section \<open>Queues\<close>

definition txn_mod_queue_options ::
  "string option \<Rightarrow> string option \<Rightarrow> xmlnode option \<Rightarrow> 'k ofc \<Rightarrow> 'k ofc outcome" where
  "txn_mod_queue_options rid option edit s =
     (case (rid, option) of
        (Some r, Some opt) \<Rightarrow>
          (case find_queue rid s of
             None \<Rightarrow> fail (err_text NC_ERR_OP_FAILED ''Queue to set properties not found'') s
           | Some queue \<Rightarrow>
               (case edit of
                  Some node \<Rightarrow>
                    (case first_content node of
                       None \<Rightarrow> fail (err_text NC_ERR_OP_FAILED ''Missing value of the queue property'') s
                     | Some v \<Rightarrow>
                         set_queue queue ''other_config''
                           (\<lambda>x. x\<lparr>q_other_config := smap_replace opt v (q_other_config x)\<rparr>) s)
                | None \<Rightarrow>
                    set_queue queue ''other_config''
                      (\<lambda>x. x\<lparr>q_other_config := smap_remove opt (q_other_config x)\<rparr>) s))
      | _ \<Rightarrow> fail op_failed s)"

text \<open>The value a loop over children leaves in a variable set from the elements of one name.\<close>

definition last_child :: "string \<Rightarrow> xmlnode list \<Rightarrow> xmlnode option" where
  "last_child n xs =
     (let ys = filter (\<lambda>x. is_element x \<and> node_name x = n) xs in if ys = [] then None else Some (last ys))"

definition child_value :: "string \<Rightarrow> xmlnode list \<Rightarrow> string option" where
  "child_value n xs = (case last_child n xs of None \<Rightarrow> None | Some x \<Rightarrow> first_content x)"

definition txn_add_queue :: "'k env \<Rightarrow> xmlnode option \<Rightarrow> 'k ofc \<Rightarrow> 'k ofc outcome" where
  "txn_add_queue env node s =
     (case node of
        None \<Rightarrow> fail op_failed s
      | Some n \<Rightarrow>
          (let rid = child_value ''resource-id'' (children n);
               id_s = child_value ''id'' (children n);
               port_name = child_value ''port'' (children n);
               prop = last_child ''properties'' (children n)
           in case (rid, id_s) of
                (None, _) \<Rightarrow> fail (bad_elem ''queue'' ''The list element misses key.'') s
              | (Some _, None) \<Rightarrow> fail (bad_elem ''queue'' ''Mandatory gueue id is missing.'') s
              | (Some r, Some _) \<Rightarrow>
                  (let (queue, s1) = insert_row env tb_queue_update (new_queue env) s in
                   steps
                     [set_queue queue ''external_ids''
                        (\<lambda>x. x\<lparr>q_external_ids := smap_add_once OFC_RESOURCE_ID r (q_external_ids x)\<rparr>),
                      txn_mod_queue_id env rid id_s,
                      (\<lambda>s. if port_name = None then Success s else txn_add_queue_port env rid port_name s),
                      (\<lambda>s. case prop of
                             None \<Rightarrow> Success s
                           | Some p \<Rightarrow>
                               for_each (\<lambda>aux. txn_mod_queue_options rid (Some (node_name aux)) (Some aux)) (children p) s),
                      set_queue queue ''other_config'' (\<lambda>x. x)] s1)))"

definition txn_del_queue :: "'k env \<Rightarrow> string option \<Rightarrow> 'k ofc \<Rightarrow> 'k ofc outcome" where
  "txn_del_queue env rid s =
     (case rid of
        None \<Rightarrow> fail op_failed s
      | Some r \<Rightarrow>
          andthen
            (case find_queue_port r s of
               None \<Rightarrow> Undef
             | Some (Some port) \<Rightarrow> txn_del_queue_port env rid s
             | Some None \<Rightarrow>
                 (case scan_qos s r (order (tb_qos (db s))) of
                    None \<Rightarrow> Undef
                  | Some None \<Rightarrow> Success s
                  | Some (Some (qos, i)) \<Rightarrow> txn_del_qos_queue env qos i s))
            (\<lambda>s. case find_queue rid s of
                   None \<Rightarrow> fail (bad_elem ''resource-id'' ''Queue does not exist in OVSDB'') s
                 | Some queue \<Rightarrow> del_row tb_queue tb_queue_update queue s))"

text \<open>
  \<^verbatim>\<open>ofc_check_bridge_queue\<close>: 0 if the port of the queue is among the ports of the bridge, 1 if
  something is missing, 2 if there is no link. \<^verbatim>\<open>strcmp\<close> on the names needs both to be there.
\<close>

fun scan_bridge_ports :: "(rowid \<Rightarrow> port_row option) \<Rightarrow> string option \<Rightarrow> rowid list \<Rightarrow> nat option" where
  "scan_bridge_ports c n [] = Some 2"
| "scan_bridge_ports c n (p # ps) =
     (case (map_option p_name (c p), n) of
        (Some (Some a), Some b) \<Rightarrow> if a = b then Some 0 else scan_bridge_ports c n ps
      | _ \<Rightarrow> None)"

definition ofc_check_bridge_queue :: "string option \<Rightarrow> string option \<Rightarrow> 'k ofc \<Rightarrow> nat option" where
  "ofc_check_bridge_queue name queue_rid s =
     (case (name, queue_rid) of
        (Some b, Some r) \<Rightarrow>
          (case find_queue queue_rid s of
             None \<Rightarrow> Some 1
           | Some queue \<Rightarrow>
               (case find_queue_port r s of
                  None \<Rightarrow> None
                | Some None \<Rightarrow> Some 2
                | Some (Some port) \<Rightarrow>
                    (case find_row (\<lambda>x. name = br_name x) (tb_bridge (db s)) of
                       None \<Rightarrow> Some 1
                     | Some bridge \<Rightarrow>
                         (case cells (tb_bridge (db s)) bridge of
                            None \<Rightarrow> None
                          | Some x \<Rightarrow>
                              scan_bridge_ports (cells (tb_port (db s))) (port_name_of s port) (br_ports x)))))
      | _ \<Rightarrow> Some 1)"

section \<open>Flow tables\<close>

text \<open>
  \<^verbatim>\<open>txn_add_flow_table\<close>: the loop checks every \<^verbatim>\<open>table-id\<close> as it reads it; an element with no text is
  passed to \<^verbatim>\<open>sscanf\<close> as NULL.
\<close>

fun table_ids :: "xmlnode list \<Rightarrow> string option \<Rightarrow> (string option, nc_err option) sum" where
  "table_ids [] tid_s = Inl tid_s"
| "table_ids (x # xs) tid_s =
     (if is_element x \<and> node_name x = ''table-id'' then
        (case first_content x of
           None \<Rightarrow> Inr None
         | Some v \<Rightarrow>
             (case sscanf_i64 v of
                None \<Rightarrow> Inr (Some (bad_elem ''table_id'' ''Invalid value.''))
              | Some _ \<Rightarrow> table_ids xs (Some v)))
      else table_ids xs tid_s)"

definition txn_add_flow_table :: "'k env \<Rightarrow> xmlnode option \<Rightarrow> 'k ofc \<Rightarrow> 'k ofc outcome" where
  "txn_add_flow_table env node s =
     (case node of
        None \<Rightarrow> fail op_failed s
      | Some n \<Rightarrow>
          (case table_ids (children n) None of
             Inr None \<Rightarrow> Undef
           | Inr (Some e) \<Rightarrow> fail e s
           | Inl None \<Rightarrow> fail (bad_elem ''flow-table'' ''The list element misses key.'') s
           | Inl (Some tid_s) \<Rightarrow>
               (let rid = child_value ''resource-id'' (children n);
                    name = child_value ''name'' (children n);
                    (ft, s1) = insert_row env tb_ft_update (new_ft env) s
                in steps
                     [set_ft ft ''external_ids''
                        (\<lambda>x. x\<lparr>ft_external_ids :=
                               (case rid of None \<Rightarrow> (\<lambda>m. m) | Some r \<Rightarrow> smap_replace OFC_RESOURCE_ID r)
                                 (smap_replace ''table_id'' tid_s (ft_external_ids x))\<rparr>),
                      (\<lambda>s. case name of
                             None \<Rightarrow> Success s
                           | Some v \<Rightarrow> set_ft ft ''name'' (\<lambda>x. x\<lparr>ft_name := Some v\<rparr>) s)] s1)))"

definition ft_has_id :: "string \<Rightarrow> ft_row \<Rightarrow> bool" where
  "ft_has_id tid x \<longleftrightarrow> smap_get (ft_external_ids x) ''table_id'' = Some tid"

definition find_flowtable :: "string option \<Rightarrow> 'k ofc \<Rightarrow> rowid option" where
  "find_flowtable table_id s =
     (case table_id of None \<Rightarrow> None | Some tid \<Rightarrow> find_row (ft_has_id tid) (tb_ft (db s)))"

abbreviation no_flow_table :: nc_err where
  "no_flow_table \<equiv> bad_elem ''table-id'' ''Flow table does not exist in OVSDB''"

definition txn_mod_flowtable_name :: "string option \<Rightarrow> xmlnode option \<Rightarrow> 'k ofc \<Rightarrow> 'k ofc outcome" where
  "txn_mod_flowtable_name table_id node s =
     (if table_id = None then fail op_failed s
      else case find_flowtable table_id s of
             None \<Rightarrow> fail no_flow_table s
           | Some ft \<Rightarrow>
               set_ft ft ''name''
                 (\<lambda>x. x\<lparr>ft_name := Some (case node of Some n \<Rightarrow> text_content n | None \<Rightarrow> [])\<rparr>) s)"

definition txn_mod_flowtable_resid :: "string option \<Rightarrow> xmlnode option \<Rightarrow> 'k ofc \<Rightarrow> 'k ofc outcome" where
  "txn_mod_flowtable_resid table_id node s =
     (if table_id = None then fail op_failed s
      else case find_flowtable table_id s of
             None \<Rightarrow> fail no_flow_table s
           | Some ft \<Rightarrow>
               (case node of
                  Some n \<Rightarrow>
                    (case first_content n of
                       None \<Rightarrow> Undef
                     | Some v \<Rightarrow>
                         set_ft ft ''external_ids''
                           (\<lambda>x. x\<lparr>ft_external_ids := smap_replace OFC_RESOURCE_ID v (ft_external_ids x)\<rparr>) s)
                | None \<Rightarrow>
                    set_ft ft ''external_ids''
                      (\<lambda>x. x\<lparr>ft_external_ids := smap_remove OFC_RESOURCE_ID (ft_external_ids x)\<rparr>) s))"

definition txn_del_flow_table :: "string option \<Rightarrow> 'k ofc \<Rightarrow> 'k ofc outcome" where
  "txn_del_flow_table table_id s =
     (if table_id = None then fail op_failed s
      else case find_flowtable table_id s of
             None \<Rightarrow> fail (bad_elem ''table_id'' ''Flow-table does not exist in OVSDB'') s
           | Some ft \<Rightarrow> del_row tb_ft tb_ft_update ft s)"

section \<open>Invariants\<close>

lemma link_queue_keeps [wf_intros]:
  assumes "idl_places env" and "in_txn h s"
  shows "outcome_all (in_txn h) (link_queue env p q i s)"
proof -
  obtain qos s1 where 1: "insert_row env tb_qos_update (new_qos env) s = (qos, s1)" by force
  have "in_txn h s1" using qos.insert_in_txn assms 1 by blast
  then show ?thesis
    using assms by (auto simp: link_queue_def with_row_def 1 simp del: steps_simps split: option.split intro!: wf_intros)
qed

lemma txn_add_queue_port_keeps [wf_intros]:
  "idl_places env \<Longrightarrow> in_txn h s \<Longrightarrow> outcome_all (in_txn h) (txn_add_queue_port env r p s)"
  by (auto simp: txn_add_queue_port_def split: option.split intro!: wf_intros)

lemma txn_mod_queue_id_keeps [wf_intros]:
  "in_txn h s \<Longrightarrow> outcome_all (in_txn h) (txn_mod_queue_id env r p s)"
  by (auto simp: txn_mod_queue_id_def split: option.split intro!: wf_intros outcome_all_andthen)

lemma txn_del_qos_queue_keeps [wf_intros]:
  "in_txn h s \<Longrightarrow> outcome_all (in_txn h) (txn_del_qos_queue env q i s)"
  by (auto simp: txn_del_qos_queue_def intro!: wf_intros)

lemma txn_del_queue_port_keeps [wf_intros]:
  "in_txn h s \<Longrightarrow> outcome_all (in_txn h) (txn_del_queue_port env r s)"
  by (auto simp: txn_del_queue_port_def split: option.split intro!: wf_intros outcome_all_andthen)

lemma txn_mod_queue_options_keeps [wf_intros]:
  "in_txn h s \<Longrightarrow> outcome_all (in_txn h) (txn_mod_queue_options r p n s)"
  by (auto simp: txn_mod_queue_options_def split: option.split intro!: wf_intros)

lemma txn_add_queue_keeps [wf_intros]:
  assumes "idl_places env" and "in_txn h s"
  shows "outcome_all (in_txn h) (txn_add_queue env node s)"
proof -
  obtain q s1 where 1: "insert_row env tb_queue_update (new_queue env) s = (q, s1)" by force
  have "in_txn h s1" using queue.insert_in_txn assms 1 by blast
  then show ?thesis
    using assms
    by (auto simp: txn_add_queue_def 1 Let_def simp del: steps_simps split: option.split
        intro!: wf_intros outcome_all_for_each)
qed

lemma txn_del_queue_keeps [wf_intros]:
  "in_txn h s \<Longrightarrow> outcome_all (in_txn h) (txn_del_queue env r s)"
  by (auto simp: txn_del_queue_def split: option.split intro!: wf_intros outcome_all_andthen)

lemma txn_add_flow_table_keeps [wf_intros]:
  assumes "idl_places env" and "in_txn h s"
  shows "outcome_all (in_txn h) (txn_add_flow_table env node s)"
proof -
  obtain q s1 where 1: "insert_row env tb_ft_update (new_ft env) s = (q, s1)" by force
  have "in_txn h s1" using ft.insert_in_txn assms 1 by blast
  then show ?thesis
    using assms
    by (auto simp: txn_add_flow_table_def 1 Let_def simp del: steps_simps split: option.split sum.split
        intro!: wf_intros)
qed

lemma txn_mod_flowtable_keeps [wf_intros]:
  "in_txn h s \<Longrightarrow> outcome_all (in_txn h) (txn_mod_flowtable_name t n s)"
  "in_txn h s \<Longrightarrow> outcome_all (in_txn h) (txn_mod_flowtable_resid t n s)"
  "in_txn h s \<Longrightarrow> outcome_all (in_txn h) (txn_del_flow_table t s)"
  by (auto simp: txn_mod_flowtable_name_def txn_mod_flowtable_resid_def txn_del_flow_table_def
      split: option.split intro!: wf_intros)

section \<open>Linking a queue to a port\<close>











section \<open>Removing a queue\<close>


lemma scan_queues_index:
  "scan_queues c r qs = Some (Some i) \<Longrightarrow> i < length qs \<and> (\<exists>x. c (snd (qs ! i)) = Some x \<and> queue_has_rid r x)"
  by (induction c r qs arbitrary: i rule: scan_queues.induct) (auto split: option.splits if_splits)


section \<open>Flow tables\<close>

lemma add_flow_table_row:
  assumes places: "idl_places env" and wf: "store_wf s"
    and ids: "table_ids (children n) None = Inl (Some tid)" and fresh: "find_flowtable (Some tid) s = None"
  shows "\<exists>s' x. txn_add_flow_table env (Some n) s = Success s' \<and> find_flowtable (Some tid) s' = Some (next_row s)
     \<and> cells (tb_ft (db s')) (next_row s) = Some x
     \<and> (case child_value ''name'' (children n) of None \<Rightarrow> True | Some v \<Rightarrow> ft_name x = Some v)
     \<and> (case child_value ''resource-id'' (children n) of None \<Rightarrow> True
        | Some v \<Rightarrow> smap_get (ft_external_ids x) OFC_RESOURCE_ID = Some v)
     \<and> order (tb_ft (db s')) = idl_place env (next_row s) (order (tb_ft (db s)))
     \<and> (\<forall>r. r \<noteq> next_row s \<longrightarrow> cells (tb_ft (db s')) r = cells (tb_ft (db s)) r) \<and> base_row s' = base_row s"
proof -
  let ?rid = "child_value ''resource-id'' (children n)" and ?name = "child_value ''name'' (children n)"
  let ?x1 = "(new_ft env)\<lparr>ft_external_ids :=
      (case ?rid of None \<Rightarrow> (\<lambda>m. m) | Some r \<Rightarrow> smap_replace OFC_RESOURCE_ID r)
        (smap_replace ''table_id'' tid (ft_external_ids (new_ft env)))\<rparr>"
  let ?x = "case ?name of None \<Rightarrow> ?x1 | Some v \<Rightarrow> ?x1\<lparr>ft_name := Some v\<rparr>"
  obtain s' where run: "txn_add_flow_table env (Some n) s = Success s'"
    and t: "tb_ft (db s') = \<lparr>order = idl_place env (next_row s) (order (tb_ft (db s))),
                             cells = (cells (tb_ft (db s)))(next_row s \<mapsto> ?x)\<rparr>"
    and base: "base_row s' = base_row s"
    using places
    by (cases ?name) (simp_all add: txn_add_flow_table_def ids Let_def insert_row_def set_row_def change_row_def
        live_def idl_places_def)
  have has: "ft_has_id tid ?x"
    by (auto simp: ft_has_id_def OFC_RESOURCE_ID_def split: option.split)
  have "find_row (ft_has_id tid) (tb_ft (db s')) = Some (next_row s)"
  proof (rule find_new_row [of _ "tb_ft (db s)"])
    show "find_row (ft_has_id tid) (tb_ft (db s)) = None" using fresh by (simp add: find_flowtable_def)
  qed (use places has in \<open>auto simp: t idl_places_def\<close>)
  then show ?thesis
    using run base by (intro exI [where x = s'] exI [where x = ?x])
      (auto simp: t find_flowtable_def OFC_RESOURCE_ID_def split: option.split)
qed

lemma del_flow_table_row:
  assumes "find_flowtable (Some tid) s = Some r"
  shows "\<exists>s'. txn_del_flow_table (Some tid) s = Success s'
           \<and> order (tb_ft (db s')) = removeAll r (order (tb_ft (db s)))
           \<and> (\<forall>q. q \<noteq> r \<longrightarrow> cells (tb_ft (db s')) q = cells (tb_ft (db s)) q)"
proof -
  have "live (tb_ft (db s)) r" using assms find_row_Some by (auto simp: find_flowtable_def)
  then show ?thesis using assms by (simp add: txn_del_flow_table_def del_row_def)
qed

section \<open>Properties\<close>




lemma sscanf_12: "sscanf_i64 ''12'' = Some 12"
  by code_simp





text \<open>
  A flow table with a new table id can be found under that id after \<^verbatim>\<open>txn_add_flow_table\<close>, and
  \<^verbatim>\<open>txn_del_flow_table\<close> of the id undoes the creation: the flow tables that remain are those that were
  there before, unchanged.
\<close>
lemma flow_table_add_then_del:
  assumes "idl_places env" and "store_wf s" and "table_ids (children n) None = Inl (Some tid)"
    and "find_flowtable (Some tid) s = None"
  shows "\<exists>s1 s2. txn_add_flow_table env (Some n) s = Success s1 \<and> find_flowtable (Some tid) s1 = Some (next_row s)
           \<and> txn_del_flow_table (Some tid) s1 = Success s2
           \<and> set (order (tb_ft (db s2))) = set (order (tb_ft (db s)))
           \<and> (\<forall>r. live (tb_ft (db s)) r \<longrightarrow> cells (tb_ft (db s2)) r = cells (tb_ft (db s)) r)"
proof -
  obtain s1 where s1: "txn_add_flow_table env (Some n) s = Success s1"
      "find_flowtable (Some tid) s1 = Some (next_row s)"
      "order (tb_ft (db s1)) = idl_place env (next_row s) (order (tb_ft (db s)))"
      "\<forall>r. r \<noteq> next_row s \<longrightarrow> cells (tb_ft (db s1)) r = cells (tb_ft (db s)) r"
    using add_flow_table_row [OF assms] by auto
  obtain s2 where s2: "txn_del_flow_table (Some tid) s1 = Success s2"
      "order (tb_ft (db s2)) = removeAll (next_row s) (order (tb_ft (db s1)))"
      "\<forall>q. q \<noteq> next_row s \<longrightarrow> cells (tb_ft (db s2)) q = cells (tb_ft (db s1)) q"
    using del_flow_table_row [OF s1(2)] by auto
  have "next_row s \<notin> set (order (tb_ft (db s)))"
    using assms(2) twf_fresh [OF ft.wf_get] by (auto simp: store_wf_def)
  then have "set (order (tb_ft (db s2))) = set (order (tb_ft (db s)))"
    and "\<forall>r. live (tb_ft (db s)) r \<longrightarrow> cells (tb_ft (db s2)) r = cells (tb_ft (db s)) r"
    using s1(3,4) s2(2,3) assms(1) by (auto simp: idl_places_def live_def) metis
  then show ?thesis using s1 s2 by blast
qed

definition flow_table_xml :: xmlnode where
  "flow_table_xml = Element 1 ''flow-table'' None [] []
     [Element 2 ''table-id'' None [] [] [TextNode 3 ''12''], Element 4 ''name'' None [] [] [TextNode 5 ''t'']]"

lemma flow_table_add_then_del_example:
  "\<exists>s1. txn_add_flow_table demo_env (Some flow_table_xml) (demo_ofc empty_db) = Success s1
     \<and> find_flowtable (Some ''12'') s1 = Some 100"
  using flow_table_add_then_del [of demo_env "demo_ofc empty_db" flow_table_xml "''12''"]
  by (auto simp: demo_env_places store_wf_def flow_table_xml_def first_content_def sscanf_12
      find_flowtable_def find_row_def)

end
