(* ===== verification/Ovs_Bridge.thy ===== *)
theory Ovs_Bridge
  imports Ovs_Queue
begin

text \<open>
  Bridges (logical switches) and controllers of \<^verbatim>\<open>ovs-data.c\<close>: their creation and deletion, the
  references from a bridge to ports, flow tables and controllers, the datapath id, the fail mode
  and the target of a controller.

  The functions that remove a reference copy the others into an array that is one shorter. The
  model computes the list of the others; if it is shorter still, the code would hand
  uninitialised cells of the array to libovs, which is \<open>Undef\<close>.
\<close>

section \<open>References\<close>

abbreviation no_bridge :: nc_err where
  "no_bridge \<equiv> bad_elem ''id'' ''Bridge does not exist in OVSDB''"

definition find_bridge :: "string option \<Rightarrow> 'k ofc \<Rightarrow> rowid option" where
  "find_bridge name s = find_row (\<lambda>x. name = br_name x) (tb_bridge (db s))"

definition bridge_name_of :: "'k ofc \<Rightarrow> rowid \<Rightarrow> string option" where
  "bridge_name_of s r = (case cells (tb_bridge (db s)) r of None \<Rightarrow> None | Some x \<Rightarrow> br_name x)"

text \<open>The rows among \<open>refs\<close> whose name differs; \<open>None\<close> if one of them is freed.\<close>

definition refs_without :: "(rowid \<Rightarrow> 'r option) \<Rightarrow> ('r \<Rightarrow> string option) \<Rightarrow> string \<Rightarrow> rowid list \<Rightarrow> rowid list option" where
  "refs_without c nm name refs =
     (if \<exists>r \<in> set refs. c r = None then None
      else Some (filter (\<lambda>r. map_option nm (c r) \<noteq> Some (Some name)) refs))"

definition txn_del_bridge_port :: "'k env \<Rightarrow> string option \<Rightarrow> string option \<Rightarrow> 'k ofc \<Rightarrow> 'k ofc outcome" where
  "txn_del_bridge_port env name port_name s =
     (case (name, port_name) of
        (Some b, Some p) \<Rightarrow>
          (case find_bridge name s of
             None \<Rightarrow> fail (bad_elem ''id'' ''Logical-switch does not exist in OVSDB'') s
           | Some bridge \<Rightarrow>
               with_row tb_bridge bridge (\<lambda>x s.
                 case refs_without (cells (tb_port (db s))) p_name p (br_ports x) of
                   None \<Rightarrow> Undef
                 | Some ports \<Rightarrow>
                     if length ports = length (br_ports x) then Success s
                     else if length ports + 1 = length (br_ports x) then
                       set_bridge bridge ''ports'' (\<lambda>x. x\<lparr>br_ports := idl_set env ports\<rparr>) s
                     else Undef) s)
      | _ \<Rightarrow> fail op_failed s)"

definition txn_bridge_insert_port :: "'k env \<Rightarrow> rowid \<Rightarrow> rowid \<Rightarrow> 'k ofc \<Rightarrow> 'k ofc outcome" where
  "txn_bridge_insert_port env bridge port =
     set_bridge bridge ''ports'' (\<lambda>x. x\<lparr>br_ports := idl_set env (br_ports x @ [port])\<rparr>)"

definition txn_add_bridge_port :: "'k env \<Rightarrow> string option \<Rightarrow> string option \<Rightarrow> 'k ofc \<Rightarrow> 'k ofc outcome" where
  "txn_add_bridge_port env name port_name s =
     (if name = None \<or> port_name = None then fail op_failed s
      else case (find_port port_name s, find_bridge name s) of
             (None, _) \<Rightarrow> fail (bad_elem ''port'' ''Invalid port leafref'') s
           | (Some port, None) \<Rightarrow> fail (bad_elem ''id'' ''Logical switch does not exist in OVSDB'') s
           | (Some port, Some bridge) \<Rightarrow>
               set_bridge bridge ''ports'' (\<lambda>x. x\<lparr>br_ports := idl_set env (br_ports x @ [port])\<rparr>) s)"

text \<open>
  The flow tables of a bridge with another table id, read one after the other: \<open>None\<close> for a
  freed one, \<open>Some None\<close> for one with no id.
\<close>

fun fts_without :: "(rowid \<Rightarrow> ft_row option) \<Rightarrow> string \<Rightarrow> (int \<times> rowid) list \<Rightarrow> (int \<times> rowid) list option option" where
  "fts_without c tid [] = Some (Some [])"
| "fts_without c tid ((k, r) # fts) =
     (case c r of
        None \<Rightarrow> None
      | Some x \<Rightarrow>
          (case smap_get (ft_external_ids x) ''table_id'' of
             None \<Rightarrow> Some None
           | Some t \<Rightarrow>
               if t = tid then fts_without c tid fts
               else map_option (map_option ((#) (k, r))) (fts_without c tid fts)))"

definition txn_del_bridge_flowtable :: "'k env \<Rightarrow> string option \<Rightarrow> string option \<Rightarrow> 'k ofc \<Rightarrow> 'k ofc outcome" where
  "txn_del_bridge_flowtable env name table_id s =
     (case (name, table_id) of
        (Some b, Some tid) \<Rightarrow>
          (case find_bridge name s of
             None \<Rightarrow> fail (bad_elem ''id'' ''Logical-switch does not exist in OVSDB'') s
           | Some bridge \<Rightarrow>
               with_row tb_bridge bridge (\<lambda>x s.
                 case fts_without (cells (tb_ft (db s))) tid (br_flow_tables x) of
                   None \<Rightarrow> Undef
                 | Some None \<Rightarrow> fail (err_text NC_ERR_OP_FAILED ''Flow-table with no table-id found in OVSDB'') s
                 | Some (Some fts) \<Rightarrow>
                     if length fts = length (br_flow_tables x) then Success s
                     else if length fts + 1 = length (br_flow_tables x) then
                       set_bridge bridge ''flow_tables'' (\<lambda>x. x\<lparr>br_flow_tables := idl_map env fts\<rparr>) s
                     else Undef) s)
      | _ \<Rightarrow> fail op_failed s)"

text \<open>A table id that is not a number leaves the key 0.\<close>

definition table_key :: "string \<Rightarrow> int" where
  "table_key tid_s = (case sscanf_i64 tid_s of None \<Rightarrow> 0 | Some tid \<Rightarrow> tid)"

definition add_flow_table_ref :: "'k env \<Rightarrow> rowid \<Rightarrow> rowid \<Rightarrow> int \<Rightarrow> 'k ofc \<Rightarrow> 'k ofc outcome" where
  "add_flow_table_ref env bridge ft tid =
     set_bridge bridge ''flow_tables''
       (\<lambda>x. x\<lparr>br_flow_tables := idl_map env (br_flow_tables x @ [(tid, ft)])\<rparr>)"

definition txn_bridge_insert_flowtable :: "'k env \<Rightarrow> rowid \<Rightarrow> rowid \<Rightarrow> 'k ofc \<Rightarrow> 'k ofc outcome" where
  "txn_bridge_insert_flowtable env bridge ft =
     with_row tb_ft ft (\<lambda>x s.
       case smap_get (ft_external_ids x) ''table_id'' of
         None \<Rightarrow> fail (err_text NC_ERR_OP_FAILED ''Invalid flow table record, internal error'') s
       | Some tid_s \<Rightarrow> add_flow_table_ref env bridge ft (table_key tid_s) s)"

definition txn_add_bridge_flowtable :: "'k env \<Rightarrow> string option \<Rightarrow> string option \<Rightarrow> 'k ofc \<Rightarrow> 'k ofc outcome" where
  "txn_add_bridge_flowtable env name table_id s =
     (case (name, table_id) of
        (Some b, Some tid_s) \<Rightarrow>
          (case (find_flowtable table_id s, find_bridge name s) of
             (None, _) \<Rightarrow> fail (bad_elem ''flow-table'' ''Invalid flow-table leafref'') s
           | (Some ft, None) \<Rightarrow> fail (bad_elem ''id'' ''Logical switch does not exist in OVSDB'') s
           | (Some ft, Some bridge) \<Rightarrow> add_flow_table_ref env bridge ft (table_key tid_s) s)
      | _ \<Rightarrow> fail op_failed s)"

section \<open>Deleting a bridge\<close>

text \<open>\<^verbatim>\<open>ovsrec_open_vswitch_first\<close>, or a new row if there is none.\<close>

definition first_ovs :: "'k env \<Rightarrow> 'k ofc \<Rightarrow> rowid \<times> 'k ofc" where
  "first_ovs env s =
     (case order (tb_ovs (db s)) of
        r # _ \<Rightarrow> (r, s)
      | [] \<Rightarrow> insert_row env tb_ovs_update (new_ovs env) s)"

definition txn_del_bridge :: "'k env \<Rightarrow> string option \<Rightarrow> 'k ofc \<Rightarrow> 'k ofc outcome" where
  "txn_del_bridge env name s =
     (case name of
        None \<Rightarrow> fail op_failed s
      | Some b \<Rightarrow>
          (let (ovs, s1) = first_ovs env s in
           with_row tb_ovs ovs (\<lambda>x s.
             case refs_without (cells (tb_bridge (db s))) br_name b (o_bridges x) of
               None \<Rightarrow> Undef
             | Some bridges \<Rightarrow>
                 if o_bridges x = [] then Success s
                 else if length bridges = length (o_bridges x) then
                   fail (bad_elem ''name'' ''switch to remove not found'') s
                 else if length bridges + 1 = length (o_bridges x) then
                   (case filter (\<lambda>r. r \<notin> set bridges) (o_bridges x) of
                      [] \<Rightarrow> Undef
                    | bridge # _ \<Rightarrow>
                        steps
                          [set_ovs ovs ''bridges'' (\<lambda>x. x\<lparr>o_bridges := idl_set env bridges\<rparr>),
                           del_row tb_bridge tb_bridge_update bridge] s)
                 else Undef) s1))"

section \<open>Controllers\<close>

definition contr_has_id :: "string \<Rightarrow> contr_row \<Rightarrow> bool" where
  "contr_has_id cid x \<longleftrightarrow> smap_get (c_external_ids x) ''ofconfig-id'' = Some cid"

definition find_contr :: "string \<Rightarrow> 'k ofc \<Rightarrow> rowid option" where
  "find_contr cid s = find_row (contr_has_id cid) (tb_contr (db s))"

abbreviation no_contr :: nc_err where
  "no_contr \<equiv> bad_elem ''id'' ''Controller does not exist in OVSDB''"

definition txn_mod_contr_lip :: "string option \<Rightarrow> string option \<Rightarrow> 'k ofc \<Rightarrow> 'k ofc outcome" where
  "txn_mod_contr_lip contr_id value s =
     (case contr_id of
        None \<Rightarrow> fail op_failed s
      | Some cid \<Rightarrow>
          (case find_contr cid s of
             None \<Rightarrow> fail no_contr s
           | Some contr \<Rightarrow> set_contr contr ''local_ip'' (\<lambda>x. x\<lparr>c_local_ip := value\<rparr>) s))"

text \<open>
  The loop of \<^verbatim>\<open>txn_add_contr\<close> with its local variables \<^verbatim>\<open>proto\<close>, \<^verbatim>\<open>ip\<close> and \<^verbatim>\<open>port\<close>. The elements are read
  through \<^verbatim>\<open>aux->children->content\<close>.
\<close>

type_synonym 'k add_contr_state = "string \<times> string option \<times> string option \<times> 'k ofc"

definition add_contr_child :: "rowid \<Rightarrow> xmlnode \<Rightarrow> 'k add_contr_state \<Rightarrow> 'k add_contr_state outcome" where
  "add_contr_child contr aux st =
     (case st of (proto, ip, port, s) \<Rightarrow>
        if \<not> is_element aux
           \<or> node_name aux \<notin> {''id'', ''ip-address'', ''port'', ''protocol'', ''local-ip-address''}
        then Success st
        else case children aux of
          [] \<Rightarrow> Undef
        | c # _ \<Rightarrow>
            if node_name aux = ''id'' then
              (case content c of
                 None \<Rightarrow> Undef
               | Some v \<Rightarrow>
                   map_outcome (\<lambda>s. (proto, ip, port, s))
                     (set_contr contr ''external_ids''
                        (\<lambda>x. x\<lparr>c_external_ids := smap_replace ''ofconfig-id'' v (c_external_ids x)\<rparr>) s))
            else if node_name aux = ''ip-address'' then Success (proto, content c, port, s)
            else if node_name aux = ''port'' then Success (proto, ip, content c, s)
            else if node_name aux = ''protocol'' then
              Success (if content c = Some ''tcp'' then ''tcp'' else proto, ip, port, s)
            else
              map_outcome (\<lambda>s. (proto, ip, port, s))
                (set_contr contr ''local_ip'' (\<lambda>x. x\<lparr>c_local_ip := content c\<rparr>) s))"

text \<open>\<^verbatim>\<open>asprintf(&target, "%s:%s%s%s", proto, ip, port ? ":" : "", port ? port : "")\<close>\<close>

definition contr_target :: "string \<Rightarrow> string \<Rightarrow> string option \<Rightarrow> string" where
  "contr_target proto ip port =
     proto @ '':'' @ ip @ (case port of None \<Rightarrow> [] | Some p \<Rightarrow> '':'' @ p)"

definition link_contr :: "'k env \<Rightarrow> rowid \<Rightarrow> string option \<Rightarrow> 'k add_contr_state \<Rightarrow> 'k ofc outcome" where
  "link_contr env contr name st =
     (case st of (proto, ip, port, s) \<Rightarrow>
        case ip of
          None \<Rightarrow> fail (err_elem NC_ERR_MISSING_ELEM ''ip-address'') s
        | Some a \<Rightarrow>
            andthen (set_contr contr ''target'' (\<lambda>x. x\<lparr>c_target := Some (contr_target proto a port)\<rparr>) s) (\<lambda>s.
              case find_bridge name s of
                None \<Rightarrow> fail no_bridge s
              | Some br \<Rightarrow>
                  set_bridge br ''controller''
                    (\<lambda>x. x\<lparr>br_controller := idl_set env (br_controller x @ [contr])\<rparr>) s))"

definition txn_add_contr :: "'k env \<Rightarrow> xmlnode option \<Rightarrow> string option \<Rightarrow> 'k ofc \<Rightarrow> 'k ofc outcome" where
  "txn_add_contr env node name s =
     (case (name, node) of
        (Some b, Some n) \<Rightarrow>
          (let (contr, s1) = insert_row env tb_contr_update (new_contr env) s in
           andthen (set_contr contr ''connection_mode'' (\<lambda>x. x\<lparr>c_connection_mode := Some ''in-band''\<rparr>) s1) (\<lambda>s2.
             leave (\<lambda>(_, _, _, s). s) (for_each (add_contr_child contr) (children n) (''ssl'', None, None, s2))
               (link_contr env contr name)))
      | _ \<Rightarrow> fail op_failed s)"

definition txn_del_contr :: "'k env \<Rightarrow> string option \<Rightarrow> string option \<Rightarrow> 'k ofc \<Rightarrow> 'k ofc outcome" where
  "txn_del_contr env contr_id name s =
     (case (contr_id, name) of
        (Some cid, Some b) \<Rightarrow>
          (case find_contr cid s of
             None \<Rightarrow> fail no_contr s
           | Some contr \<Rightarrow>
               (case find_bridge name s of
                  None \<Rightarrow> fail no_bridge s
                | Some br \<Rightarrow>
                    with_row tb_bridge br (\<lambda>x s.
                      let n = length (br_controller x);
                          contrs = (if n = 1 then [] else filter (\<lambda>c. c \<noteq> contr) (br_controller x))
                      in if length contrs = n then
                           fail (err_text NC_ERR_OP_FAILED
                             ''Controller to delete is not connected with the specified bridge'') s
                         else if length contrs + 1 = n then
                           steps
                             [set_bridge br ''controller'' (\<lambda>x. x\<lparr>br_controller := idl_set env contrs\<rparr>),
                              del_row tb_contr tb_contr_update contr] s
                         else Undef) s))
      | _ \<Rightarrow> fail op_failed s)"

section \<open>The target of a controller\<close>

text \<open>
  The pieces of a target \<^verbatim>\<open>proto:address[:port]\<close> as \<^verbatim>\<open>index\<close> finds them: the position of the first
  colon and of the next one. With no colon at all the code searches from the address 1.
\<close>

definition second_colon :: "string \<Rightarrow> nat option option" where
  "second_colon t =
     (case strchr t CHR '':'' of
        None \<Rightarrow> None
      | Some i \<Rightarrow> Some (map_option (\<lambda>j. Suc i + j) (strchr (drop (Suc i) t) CHR '':'')))"

definition poke_target :: "rowid \<Rightarrow> string \<Rightarrow> 'k ofc \<Rightarrow> 'k ofc outcome" where
  "poke_target contr t = poke_row tb_contr tb_contr_update contr ''target'' (\<lambda>x. x\<lparr>c_target := Some t\<rparr>)"

definition set_target :: "rowid \<Rightarrow> string \<Rightarrow> 'k ofc \<Rightarrow> 'k ofc outcome" where
  "set_target contr t = set_contr contr ''target'' (\<lambda>x. x\<lparr>c_target := Some t\<rparr>)"

text \<open>\<^verbatim>\<open>port\<close>: the port is cut off in place; only a new port is handed to libovs.\<close>

definition mod_target_port :: "rowid \<Rightarrow> string option \<Rightarrow> string \<Rightarrow> 'k ofc \<Rightarrow> 'k ofc outcome" where
  "mod_target_port contr value t s =
     (case second_colon t of
        None \<Rightarrow> Undef
      | Some pos \<Rightarrow>
          (let hidden = (case pos of None \<Rightarrow> t | Some j \<Rightarrow> take j t) in
           andthen (case pos of None \<Rightarrow> Success s | Some j \<Rightarrow> poke_target contr hidden s)
             (\<lambda>s. case value of
                    None \<Rightarrow> Success s
                  | Some v \<Rightarrow> set_target contr (hidden @ '':'' @ v) s)))"

text \<open>\<^verbatim>\<open>protocol\<close>: three characters are overwritten in place.\<close>

definition mod_target_protocol :: "rowid \<Rightarrow> string option \<Rightarrow> string \<Rightarrow> 'k ofc \<Rightarrow> 'k ofc outcome" where
  "mod_target_protocol contr value t s =
     (if length t < 3 then Undef
      else poke_target contr ((if value = Some ''tcp'' then ''tcp'' else ''ssl'') @ drop 3 t) s)"

text \<open>
  \<^verbatim>\<open>ip-address\<close>: a new target with the protocol copied by \<^verbatim>\<open>memcpy\<close> of three bytes; from a target of
  two characters that includes the NUL.
\<close>

definition mod_target_ip :: "rowid \<Rightarrow> string option \<Rightarrow> string \<Rightarrow> 'k ofc \<Rightarrow> 'k ofc outcome" where
  "mod_target_ip contr value t s =
     (case value of
        None \<Rightarrow> Success s
      | Some v \<Rightarrow>
          (case second_colon t of
             None \<Rightarrow> Undef
           | Some pos \<Rightarrow>
               if length t < 2 then Undef
               else if length t = 2 then set_target contr t s
               else set_target contr
                      (take 3 t @ '':'' @ v @ (case pos of None \<Rightarrow> [] | Some j \<Rightarrow> drop j t)) s))"

definition txn_mod_contr_target ::
  "string option \<Rightarrow> string option \<Rightarrow> string option \<Rightarrow> 'k ofc \<Rightarrow> 'k ofc outcome" where
  "txn_mod_contr_target contr_id name value s =
     (case (contr_id, name) of
        (Some cid, Some n) \<Rightarrow>
          (case find_contr cid s of
             None \<Rightarrow> fail no_contr s
           | Some contr \<Rightarrow>
               steps
                 [with_row tb_contr contr (\<lambda>x s.
                    if c_target x = None then set_target contr ''ssl:'' s else Success s),
                  with_row tb_contr contr (\<lambda>x s.
                    case c_target x of
                      None \<Rightarrow> Undef
                    | Some t \<Rightarrow>
                        if n = ''port'' then mod_target_port contr value t s
                        else if n = ''protocol'' then mod_target_protocol contr value t s
                        else if n = ''ip-address'' then mod_target_ip contr value t s
                        else Success s)] s)
      | _ \<Rightarrow> fail op_failed s)"

section \<open>Datapath id and fail mode\<close>

text \<open>
  The loop that copies the 17 bytes of \<^verbatim>\<open>dp\<close>, skipping colons. Reading past the terminating NUL and
  leaving \<^verbatim>\<open>dp\<close> with no NUL are undefined.
\<close>

definition skip_colons :: "string \<Rightarrow> nat \<Rightarrow> nat" where
  "skip_colons value j = j + length (takeWhile (\<lambda>c. c = CHR '':'') (drop j value))"

fun dp_loop :: "string \<Rightarrow> nat \<Rightarrow> nat \<Rightarrow> string option" where
  "dp_loop value j 0 = Some []"
| "dp_loop value j (Suc n) =
     (let j' = skip_colons value j in
      if j' > length value then None
      else map_option ((#) ((value @ [NUL]) ! j')) (dp_loop value (Suc j') n))"

definition datapath_bytes :: "string \<Rightarrow> string option" where
  "datapath_bytes value =
     (case dp_loop value 0 17 of
        None \<Rightarrow> None
      | Some dp \<Rightarrow> if NUL \<in> set dp then Some (takeWhile (\<lambda>c. c \<noteq> NUL) dp) else None)"

definition txn_mod_bridge_datapath :: "string option \<Rightarrow> string option \<Rightarrow> 'k ofc \<Rightarrow> 'k ofc outcome" where
  "txn_mod_bridge_datapath name value s =
     (if name = None then fail op_failed s
      else case find_bridge name s of
             None \<Rightarrow> fail no_bridge s
           | Some bridge \<Rightarrow>
               (case value of
                  Some v \<Rightarrow>
                    if length v \<noteq> 23 then fail (bad_elem ''datapath-id'' ''Invalid value to set'') s
                    else (case datapath_bytes v of
                            None \<Rightarrow> Undef
                          | Some dp \<Rightarrow>
                              set_bridge bridge ''other_config''
                                (\<lambda>x. x\<lparr>br_other_config := smap_replace ''datapath-id'' dp (br_other_config x)\<rparr>) s)
                | None \<Rightarrow>
                    set_bridge bridge ''other_config''
                      (\<lambda>x. x\<lparr>br_other_config := smap_remove ''datapath-id'' (br_other_config x)\<rparr>) s))"

definition txn_mod_bridge_failmode :: "string option \<Rightarrow> string option \<Rightarrow> 'k ofc \<Rightarrow> 'k ofc outcome" where
  "txn_mod_bridge_failmode name value s =
     (if name = None then fail op_failed s
      else case find_bridge name s of
             None \<Rightarrow> fail no_bridge s
           | Some bridge \<Rightarrow>
               set_bridge bridge ''fail_mode''
                 (\<lambda>x. x\<lparr>br_fail_mode := Some (if value = Some ''failStandaloneMode'' then ''standalone'' else ''secure'')\<rparr>) s)"

section \<open>Creating a bridge\<close>

definition txn_ovs_insert_bridge :: "'k env \<Rightarrow> rowid \<Rightarrow> rowid \<Rightarrow> 'k ofc \<Rightarrow> 'k ofc outcome" where
  "txn_ovs_insert_bridge env ovs bridge =
     set_ovs ovs ''bridges'' (\<lambda>x. x\<lparr>o_bridges := idl_set env (o_bridges x @ [bridge])\<rparr>)"

definition add_bridge_resource :: "'k env \<Rightarrow> rowid \<Rightarrow> xmlnode \<Rightarrow> 'k ofc \<Rightarrow> 'k ofc outcome" where
  "add_bridge_resource env bridge leaf s =
     (let xmlval = first_content leaf in
      if node_name leaf = ''port'' then
        (case (if xmlval = None then None else find_port xmlval s) of
           None \<Rightarrow> fail (bad_elem ''port'' ''Invalid port leafref in switch.'') s
         | Some port \<Rightarrow> txn_bridge_insert_port env bridge port s)
      else if node_name leaf = ''flow-table'' then
        (case find_flowtable xmlval s of
           None \<Rightarrow> fail (bad_elem ''flow-table'' ''Invalid flow-table leafref in switch.'') s
         | Some ft \<Rightarrow> txn_bridge_insert_flowtable env bridge ft s)
      else Success s)"

text \<open>One round of the second loop of \<^verbatim>\<open>txn_add_bridge\<close>; the flag is \<^verbatim>\<open>failmode_flag\<close>.\<close>

definition add_bridge_child :: "'k env \<Rightarrow> rowid \<Rightarrow> xmlnode \<Rightarrow> bool \<times> 'k ofc \<Rightarrow> (bool \<times> 'k ofc) outcome" where
  "add_bridge_child env bridge aux st =
     (case st of (failmode, s) \<Rightarrow>
        if \<not> is_element aux then Success st
        else if node_name aux = ''datapath-id'' then
          map_outcome (Pair failmode) (txn_mod_bridge_datapath (bridge_name_of s bridge) (first_content aux) s)
        else if node_name aux = ''resources'' then
          map_outcome (Pair failmode) (for_each (add_bridge_resource env bridge) (children aux) s)
        else if node_name aux = ''controllers'' then
          map_outcome (Pair failmode)
            (for_each (\<lambda>leaf s. txn_add_contr env (Some leaf) (bridge_name_of s bridge) s) (children aux) s)
        else if node_name aux = ''lost-connection-behavior'' then
          (case children aux of
             [] \<Rightarrow> Undef
           | c # _ \<Rightarrow>
               map_outcome (Pair True) (txn_mod_bridge_failmode (bridge_name_of s bridge) (content c) s))
        else Success st)"

definition switch_id :: "xmlnode \<Rightarrow> string option" where
  "switch_id node = (case go2node (Some node) ''id'' of None \<Rightarrow> None | Some x \<Rightarrow> first_content x)"

definition txn_add_bridge :: "'k env \<Rightarrow> xmlnode option \<Rightarrow> 'k ofc \<Rightarrow> 'k ofc outcome" where
  "txn_add_bridge env node s =
     (case node of
        None \<Rightarrow> fail op_failed s
      | Some n \<Rightarrow>
          (let bridge_id = switch_id n in
           if find_bridge bridge_id s \<noteq> None then fail (bad_elem ''id'' ''Bridge already exists in OVSDB'') s
           else
             let (ovs, s1) = first_ovs env s;
                 (bridge, s2) = insert_row env tb_bridge_update (new_bridge env) s1
             in andthen (txn_ovs_insert_bridge env ovs bridge s2) (\<lambda>s3.
                case bridge_id of
                  None \<Rightarrow> Undef
                | Some b \<Rightarrow>
                    andthen (set_bridge bridge ''name'' (\<lambda>x. x\<lparr>br_name := Some b\<rparr>) s3) (\<lambda>s4.
                      leave snd (for_each (add_bridge_child env bridge) (children n) (False, s4))
                        (\<lambda>(failmode, s5).
                          if failmode then Success s5
                          else txn_mod_bridge_failmode (bridge_name_of s5 bridge) None s5)))))"

section \<open>Invariants\<close>

lemma bridge_refs_keep [wf_intros]:
  "in_txn h s \<Longrightarrow> outcome_all (in_txn h) (txn_del_bridge_port env b p s)"
  "in_txn h s \<Longrightarrow> outcome_all (in_txn h) (txn_bridge_insert_port env br r s)"
  "in_txn h s \<Longrightarrow> outcome_all (in_txn h) (txn_add_bridge_port env b p s)"
  "in_txn h s \<Longrightarrow> outcome_all (in_txn h) (txn_del_bridge_flowtable env b t s)"
  "in_txn h s \<Longrightarrow> outcome_all (in_txn h) (txn_bridge_insert_flowtable env br r s)"
  "in_txn h s \<Longrightarrow> outcome_all (in_txn h) (txn_add_bridge_flowtable env b t s)"
  by (auto simp: txn_del_bridge_port_def txn_bridge_insert_port_def txn_add_bridge_port_def
      txn_del_bridge_flowtable_def txn_bridge_insert_flowtable_def txn_add_bridge_flowtable_def
      add_flow_table_ref_def split: option.split intro!: wf_intros)

lemma first_ovs_keeps:
  "idl_places env \<Longrightarrow> in_txn h s \<Longrightarrow> first_ovs env s = (r, s') \<Longrightarrow> in_txn h s'"
  by (auto simp: first_ovs_def split: list.splits dest: ovs.insert_in_txn)

lemma txn_del_bridge_keeps [wf_intros]:
  assumes "idl_places env" and "in_txn h s"
  shows "outcome_all (in_txn h) (txn_del_bridge env b s)"
proof -
  obtain r s1 where 1: "first_ovs env s = (r, s1)" by force
  then have "in_txn h s1" using first_ovs_keeps assms by blast
  then show ?thesis
    using assms by (auto simp: txn_del_bridge_def 1 simp del: steps_simps split: option.split list.split
        intro!: wf_intros)
qed

lemma contr_mods_keep [wf_intros]:
  "in_txn h s \<Longrightarrow> outcome_all (in_txn h) (txn_mod_contr_lip c v s)"
  "in_txn h s \<Longrightarrow> outcome_all (in_txn h) (txn_del_contr env c b s)"
  by (auto simp: txn_mod_contr_lip_def txn_del_contr_def Let_def simp del: steps_simps split: option.split
      intro!: wf_intros)

lemma target_mods_keep:
  "in_txn h s \<Longrightarrow> outcome_all (in_txn h) (mod_target_port c v t s)"
  "in_txn h s \<Longrightarrow> outcome_all (in_txn h) (mod_target_protocol c v t s)"
  "in_txn h s \<Longrightarrow> outcome_all (in_txn h) (mod_target_ip c v t s)"
  by (auto simp: mod_target_port_def mod_target_protocol_def mod_target_ip_def poke_target_def set_target_def
      Let_def split: option.split intro!: wf_intros outcome_all_andthen)

lemma txn_mod_contr_target_keeps [wf_intros]:
  "in_txn h s \<Longrightarrow> outcome_all (in_txn h) (txn_mod_contr_target c n v s)"
  by (auto simp: txn_mod_contr_target_def set_target_def simp del: steps_simps split: option.split
      intro!: wf_intros target_mods_keep)

lemma bridge_mods_keep [wf_intros]:
  "in_txn h s \<Longrightarrow> outcome_all (in_txn h) (txn_mod_bridge_datapath b v s)"
  "in_txn h s \<Longrightarrow> outcome_all (in_txn h) (txn_mod_bridge_failmode b v s)"
  "in_txn h s \<Longrightarrow> outcome_all (in_txn h) (txn_ovs_insert_bridge env r r' s)"
  by (auto simp: txn_mod_bridge_datapath_def txn_mod_bridge_failmode_def txn_ovs_insert_bridge_def
      split: option.split intro!: wf_intros)

lemma add_contr_child_keeps:
  "in_txn h (snd (snd (snd st))) \<Longrightarrow>
     outcome_all (\<lambda>st. in_txn h (snd (snd (snd st)))) (add_contr_child c x st)"
  by (auto simp: add_contr_child_def split: prod.split option.split list.split intro!: wf_intros)

lemma txn_add_contr_keeps [wf_intros]:
  assumes "idl_places env" and "in_txn h s"
  shows "outcome_all (in_txn h) (txn_add_contr env node b s)"
proof (cases "b = None \<or> node = None")
  case False
  then obtain b' n where bn: "b = Some b'" "node = Some n" by auto
  obtain c s1 where 1: "insert_row env tb_contr_update (new_contr env) s = (c, s1)" by force
  have "in_txn h s1" using contr.insert_in_txn assms 1 by blast
  then have a: "outcome_all (in_txn h) (set_contr c ''connection_mode'' (\<lambda>x. x\<lparr>c_connection_mode := Some ''in-band''\<rparr>) s1)"
    by (rule wf_intros)
  have l: "outcome_all (in_txn h) (link_contr env c b st)" if "in_txn h (snd (snd (snd st)))" for st
    using that by (auto simp: link_contr_def split: prod.split option.split intro!: wf_intros outcome_all_andthen)
  have "outcome_all (in_txn h)
      (leave (\<lambda>(_, _, _, s). s) (for_each (add_contr_child c) (children n) (''ssl'', None, None, s2))
        (link_contr env c b))" if "in_txn h s2" for s2
  proof (rule outcome_all_leave)
    show "outcome_all (\<lambda>st. in_txn h (case st of (_, _, _, s) \<Rightarrow> s))
        (for_each (add_contr_child c) (children n) (''ssl'', None, None, s2))"
      using that add_contr_child_keeps [of h] by (intro outcome_all_for_each) (auto simp: case_prod_beta')
  qed (auto simp: case_prod_beta' intro: l)
  then show ?thesis
    using outcome_all_andthen [OF a] by (simp add: txn_add_contr_def bn 1)
qed (use assms in \<open>auto simp: txn_add_contr_def split: option.split\<close>)

lemma add_bridge_resource_keeps:
  "in_txn h s \<Longrightarrow> outcome_all (in_txn h) (add_bridge_resource env br x s)"
  by (auto simp: add_bridge_resource_def Let_def split: option.split intro!: wf_intros)

lemma add_bridge_child_keeps:
  assumes "idl_places env" and "in_txn h (snd st)"
  shows "outcome_all (\<lambda>st. in_txn h (snd st)) (add_bridge_child env br x st)"
proof -
  obtain f s where st: "st = (f, s)" by force
  have s: "in_txn h s" using assms(2) st by simp
  have "outcome_all (in_txn h) (for_each (add_bridge_resource env br) (children x) s)"
    using s by (rule outcome_all_for_each) (rule add_bridge_resource_keeps)
  moreover have "outcome_all (in_txn h)
      (for_each (\<lambda>leaf s. txn_add_contr env (Some leaf) (bridge_name_of s br) s) (children x) s)"
    using s by (rule outcome_all_for_each) (rule txn_add_contr_keeps [OF assms(1)])
  ultimately show ?thesis
    using bridge_mods_keep(1,2) [OF s] s by (simp add: st add_bridge_child_def split: list.split)
qed

lemma txn_add_bridge_keeps [wf_intros]:
  assumes "idl_places env" and "in_txn h s"
  shows "outcome_all (in_txn h) (txn_add_bridge env node s)"
proof (cases node)
  case (Some n)
  obtain r s1 where 1: "first_ovs env s = (r, s1)" by force
  obtain br s2 where 2: "insert_row env tb_bridge_update (new_bridge env) s1 = (br, s2)" by force
  have s2: "in_txn h s2" using first_ovs_keeps bridge.insert_in_txn assms 1 2 by blast
  have "outcome_all (in_txn h)
      (leave snd (for_each (add_bridge_child env br) (children n) (False, s4))
        (\<lambda>(failmode, s5). if failmode then Success s5
           else txn_mod_bridge_failmode (bridge_name_of s5 br) None s5))" if "in_txn h s4" for s4
    using that assms(1)
    by (intro outcome_all_leave outcome_all_for_each) (auto intro!: wf_intros add_bridge_child_keeps split: prod.split)
  then show ?thesis
    using s2 assms(2) by (auto simp: txn_add_bridge_def Some 1 2 Let_def split: option.split
        intro!: wf_intros outcome_all_andthen)
qed (use assms in \<open>simp add: txn_add_bridge_def\<close>)

section \<open>The datapath id\<close>

definition no_colons :: "string \<Rightarrow> string" where
  "no_colons v = filter (\<lambda>c. c \<noteq> CHR '':'') v"

lemma drop_skip_colons:
  "j \<le> length v \<Longrightarrow> drop (skip_colons v j) v = dropWhile (\<lambda>c. c = CHR '':'') (drop j v)"
  by (simp add: skip_colons_def dropWhile_eq_drop add.commute)

lemma skip_colons_le: "j \<le> length v \<Longrightarrow> skip_colons v j \<le> length v"
  using length_takeWhile_le [of "\<lambda>c. c = CHR '':''" "drop j v"] by (simp add: skip_colons_def)

lemma no_colons_dropWhile: "no_colons (dropWhile (\<lambda>c. c = CHR '':'') v) = no_colons v"
  by (induction v) (auto simp: no_colons_def)

lemma dp_loop_end: "dp_loop v (Suc (length v)) n = (if n = 0 then Some [] else None)"
  by (cases n) (simp_all add: skip_colons_def)

lemma dp_loop_eq:
  "j \<le> length v \<Longrightarrow>
     dp_loop v j n =
       (if n \<le> Suc (length (no_colons (drop j v))) then Some (take n (no_colons (drop j v) @ [NUL])) else None)"
proof (induction n arbitrary: j)
  case (Suc n)
  let ?j = "skip_colons v j"
  have le: "?j \<le> length v" and d: "drop ?j v = dropWhile (\<lambda>c. c = CHR '':'') (drop j v)"
    using Suc.prems by (simp_all add: skip_colons_le drop_skip_colons)
  have nc: "no_colons (drop j v) = no_colons (drop ?j v)" by (simp add: d no_colons_dropWhile)
  show ?case
  proof (cases "drop ?j v")
    case Nil
    then have "?j = length v" using le by simp
    moreover have "no_colons (drop j v) = []" unfolding nc by (simp add: Nil no_colons_def)
    ultimately show ?thesis by (simp add: dp_loop_end)
  next
    case (Cons c w)
    then have c: "c \<noteq> CHR '':''" using hd_dropWhile [of "\<lambda>c. c = CHR '':''" "drop j v"] d by force
    have lt: "?j < length v" using Cons by (metis drop_all leI list.distinct(1))
    have "v ! ?j = c" "drop (Suc ?j) v = w" using Cons lt by (simp_all add: Cons_nth_drop_Suc [symmetric])
    moreover have "no_colons (drop j v) = c # no_colons w"
      unfolding nc using c by (simp add: Cons no_colons_def)
    ultimately show ?thesis using Suc.IH [of "Suc ?j"] lt by (simp add: nth_append)
  qed
qed simp

lemma datapath_bytes_eq:
  assumes "NUL \<notin> set v"
  shows "datapath_bytes v = (if length (no_colons v) = 16 then Some (no_colons v) else None)"
proof -
  have nul: "NUL \<notin> set (no_colons v)" using assms by (simp add: no_colons_def)
  have loop: "dp_loop v 0 17 =
      (if 17 \<le> Suc (length (no_colons v)) then Some (take 17 (no_colons v @ [NUL])) else None)"
    by (simp add: dp_loop_eq)
  consider "length (no_colons v) < 16" | "length (no_colons v) = 16" | "16 < length (no_colons v)" by linarith
  then show ?thesis
  proof cases
    case 2
    then show ?thesis using nul by (simp add: datapath_bytes_def loop takeWhile_append)
  next
    case 3
    then have "NUL \<notin> set (take 17 (no_colons v @ [NUL]))"
      using nul by (auto dest: in_set_takeD)
    then show ?thesis using 3 by (simp add: datapath_bytes_def loop)
  qed (simp add: datapath_bytes_def loop)
qed

section \<open>Ports of a bridge\<close>

lemma set_bridge_row:
  assumes "find_bridge (Some b) s = Some br" and "cells (tb_bridge (db s)) br = Some x"
    and "br_name (f x) = br_name x"
  obtains s' where "set_bridge br c f s = Success s'" "cells (tb_bridge (db s')) br = Some (f x)"
    "find_bridge (Some b) s' = Some br" "tb_port (db s') = tb_port (db s)" "tb_contr (db s') = tb_contr (db s)"
    "order (tb_bridge (db s')) = order (tb_bridge (db s))"
proof -
  have live: "live (tb_bridge (db s)) br" using assms(1) find_row_Some by (auto simp: find_bridge_def)
  let ?s = "s\<lparr>db := tb_bridge_update (\<lambda>t. t\<lparr>cells := (cells t)(br \<mapsto> f x)\<rparr>) (db s), wlog := (br, c) # wlog s\<rparr>"
  have run: "set_bridge br c f s = Success ?s" using live assms(2) by (simp add: set_row_def change_row_def)
  have "(\<lambda>r. case cells (tb_bridge (db ?s)) r of None \<Rightarrow> False | Some y \<Rightarrow> Some b = br_name y)
      = (\<lambda>r. case cells (tb_bridge (db s)) r of None \<Rightarrow> False | Some y \<Rightarrow> Some b = br_name y)"
    using assms(2,3) by auto
  then have "find_bridge (Some b) ?s = Some br"
    using assms(1) by (simp add: find_bridge_def find_row_def)
  then show ?thesis using that [OF run] by simp
qed



section \<open>Controllers\<close>

lemma second_colon_target:
  assumes "CHR '':'' \<notin> set proto" and "CHR '':'' \<notin> set ip"
  shows "second_colon (contr_target proto ip port) =
           Some (case port of None \<Rightarrow> None | Some p \<Rightarrow> Some (Suc (length proto + length ip)))"
  using assms by (simp add: second_colon_def contr_target_def split: option.split)

lemma set_target_row:
  assumes "find_contr cid s = Some c" and "cells (tb_contr (db s)) c = Some x"
  shows "set_target c t s =
           Success (s\<lparr>db := tb_contr_update (\<lambda>u. u\<lparr>cells := (cells u)(c \<mapsto> x\<lparr>c_target := Some t\<rparr>)\<rparr>) (db s),
                      wlog := (c, ''target'') # wlog s\<rparr>)"
    and "poke_target c t s =
           Success (s\<lparr>db := tb_contr_update (\<lambda>u. u\<lparr>cells := (cells u)(c \<mapsto> x\<lparr>c_target := Some t\<rparr>)\<rparr>) (db s),
                      poked := (c, ''target'') # poked s\<rparr>)"
proof -
  have "live (tb_contr (db s)) c" using assms(1) find_row_Some by (auto simp: find_contr_def)
  then show "set_target c t s = Success (s\<lparr>db := tb_contr_update (\<lambda>u. u\<lparr>cells := (cells u)(c \<mapsto> x\<lparr>c_target := Some t\<rparr>)\<rparr>) (db s),
                      wlog := (c, ''target'') # wlog s\<rparr>)"
    "poke_target c t s = Success (s\<lparr>db := tb_contr_update (\<lambda>u. u\<lparr>cells := (cells u)(c \<mapsto> x\<lparr>c_target := Some t\<rparr>)\<rparr>) (db s),
                      poked := (c, ''target'') # poked s\<rparr>)"
    using assms(2) by (simp_all add: set_target_def poke_target_def set_row_def poke_row_def change_row_def)
qed

lemma mod_contr_target_run:
  assumes "find_contr cid s = Some c" and "cells (tb_contr (db s)) c = Some x" and "c_target x = Some t"
  shows "txn_mod_contr_target (Some cid) (Some n) value s =
           (if n = ''port'' then mod_target_port c value t s
            else if n = ''protocol'' then mod_target_protocol c value t s
            else if n = ''ip-address'' then mod_target_ip c value t s
            else Success s)"
  using assms by (simp add: txn_mod_contr_target_def with_row_def)

lemma mod_contr_ip:
  assumes "find_contr cid s = Some c" and "cells (tb_contr (db s)) c = Some x"
    and "c_target x = Some (contr_target proto ip port)"
    and "length proto = 3" and "CHR '':'' \<notin> set proto" and "CHR '':'' \<notin> set ip"
  shows "\<exists>s'. txn_mod_contr_target (Some cid) (Some ''ip-address'') (Some v) s = Success s'
     \<and> cells (tb_contr (db s')) c = Some (x\<lparr>c_target := Some (contr_target proto v port)\<rparr>)
     \<and> wlog s' = (c, ''target'') # wlog s \<and> poked s' = poked s"
proof -
  let ?t = "contr_target proto ip port"
  let ?pos = "case port of None \<Rightarrow> None | Some p \<Rightarrow> Some (Suc (length proto + length ip))"
  have res: "take 3 ?t @ '':'' @ v @ (case ?pos of None \<Rightarrow> [] | Some j \<Rightarrow> drop j ?t) = contr_target proto v port"
    using assms(4) by (cases port) (simp_all add: contr_target_def)
  have len: "\<not> length ?t < 2" "length ?t \<noteq> 2" using assms(4) by (simp_all add: contr_target_def)
  have "mod_target_ip c (Some v) ?t s = set_target c (contr_target proto v port) s"
    unfolding mod_target_ip_def option.case second_colon_target [OF assms(5,6)] res using len by simp
  then show ?thesis
    using set_target_row(1) [OF assms(1,2)] by (simp add: mod_contr_target_run [OF assms(1-3)])
qed

lemma mod_contr_port:
  assumes "find_contr cid s = Some c" and "cells (tb_contr (db s)) c = Some x"
    and "c_target x = Some (contr_target proto ip port)"
    and "CHR '':'' \<notin> set proto" and "CHR '':'' \<notin> set ip"
  shows "\<exists>s'. txn_mod_contr_target (Some cid) (Some ''port'') (Some v) s = Success s'
     \<and> cells (tb_contr (db s')) c = Some (x\<lparr>c_target := Some (contr_target proto ip (Some v))\<rparr>)
     \<and> wlog s' = (c, ''target'') # wlog s"
proof (cases port)
  case None
  then show ?thesis
    using second_colon_target [OF assms(4,5), of port] set_target_row(1) [OF assms(1,2)]
    by (simp add: mod_contr_target_run [OF assms(1-3)] mod_target_port_def contr_target_def)
next
  case (Some p)
  have cut: "take (Suc (length proto + length ip)) (contr_target proto ip port) = contr_target proto ip None"
    by (simp add: contr_target_def)
  let ?s = "s\<lparr>db := tb_contr_update (\<lambda>u. u\<lparr>cells := (cells u)(c \<mapsto> x\<lparr>c_target := Some (contr_target proto ip None)\<rparr>)\<rparr>) (db s),
                      poked := (c, ''target'') # poked s\<rparr>"
  have "live (tb_contr (db ?s)) c" using assms(1) find_row_Some by (auto simp: find_contr_def live_def)
  then show ?thesis
    using second_colon_target [OF assms(4,5), of port] set_target_row(2) [OF assms(1,2)] Some
    by (simp add: mod_contr_target_run [OF assms(1-3)] mod_target_port_def cut [unfolded Some] set_target_def
        set_row_def change_row_def contr_target_def)
qed

section \<open>A created bridge\<close>

text \<open>What the operations on the contents of a bridge leave alone.\<close>

definition same_bridges :: "'k ofc \<Rightarrow> 'k ofc \<Rightarrow> bool" where
  "same_bridges s s' \<longleftrightarrow> tb_ovs (db s') = tb_ovs (db s)
     \<and> order (tb_bridge (db s')) = order (tb_bridge (db s))
     \<and> (\<forall>r. map_option br_name (cells (tb_bridge (db s')) r) = map_option br_name (cells (tb_bridge (db s)) r))"

lemma same_bridges_refl [simp]: "same_bridges s s"
  by (simp add: same_bridges_def)

lemma same_bridges_trans: "same_bridges s t \<Longrightarrow> same_bridges t u \<Longrightarrow> same_bridges s u"
  by (simp add: same_bridges_def)

lemma set_bridge_same:
  assumes "same_bridges s0 s" and "\<And>x. br_name (f x) = br_name x"
  shows "outcome_all (same_bridges s0) (set_bridge r c f s)"
proof -
  have "outcome_all (same_bridges s) (set_bridge r c f s)"
    using assms(2) by (auto simp: set_row_def change_row_def same_bridges_def split: option.splits)
  then show ?thesis by (rule outcome_all_mono) (rule same_bridges_trans [OF assms(1)])
qed

lemma set_contr_same: "same_bridges s0 s \<Longrightarrow> outcome_all (same_bridges s0) (set_contr r c f s)"
  by (auto simp: set_row_def change_row_def same_bridges_def split: option.splits)

lemma add_bridge_resource_same:
  "same_bridges s0 s \<Longrightarrow> outcome_all (same_bridges s0) (add_bridge_resource env br x s)"
  by (auto simp: add_bridge_resource_def txn_bridge_insert_port_def txn_bridge_insert_flowtable_def
      add_flow_table_ref_def Let_def split: option.split intro!: set_bridge_same with_row_keeps)

lemma bridge_mods_same:
  "same_bridges s0 s \<Longrightarrow> outcome_all (same_bridges s0) (txn_mod_bridge_datapath b v s)"
  "same_bridges s0 s \<Longrightarrow> outcome_all (same_bridges s0) (txn_mod_bridge_failmode b v s)"
  by (auto simp: txn_mod_bridge_datapath_def txn_mod_bridge_failmode_def split: option.split intro!: set_bridge_same)

lemma add_contr_child_same:
  "same_bridges s0 (snd (snd (snd st))) \<Longrightarrow>
     outcome_all (\<lambda>st. same_bridges s0 (snd (snd (snd st)))) (add_contr_child c x st)"
  by (auto simp: add_contr_child_def split: prod.split option.split list.split intro!: set_contr_same)

lemma link_contr_same:
  "same_bridges s0 (snd (snd (snd st))) \<Longrightarrow> outcome_all (same_bridges s0) (link_contr env c b st)"
  by (auto simp: link_contr_def split: prod.split option.split
      intro!: outcome_all_andthen set_contr_same set_bridge_same)

lemma txn_add_contr_same:
  assumes "same_bridges s0 s"
  shows "outcome_all (same_bridges s0) (txn_add_contr env node b s)"
proof -
  obtain c s1 where 1: "insert_row env tb_contr_update (new_contr env) s = (c, s1)" by force
  then have s1: "same_bridges s0 s1"
    using assms by (auto simp: insert_row_def Let_def same_bridges_def)
  have loop: "outcome_all (\<lambda>st. same_bridges s0 (case st of (_, _, _, s) \<Rightarrow> s))
      (for_each (add_contr_child c) xs (''ssl'', None, None, s2))" if "same_bridges s0 s2" for s2 xs
    using that add_contr_child_same [of s0] by (intro outcome_all_for_each) (auto simp: case_prod_beta')
  have "outcome_all (same_bridges s0)
      (leave (\<lambda>(_, _, _, s). s) (for_each (add_contr_child c) xs (''ssl'', None, None, s2)) (link_contr env c b))"
    if "same_bridges s0 s2" for s2 xs
    using loop [OF that] by (rule outcome_all_leave) (auto simp: case_prod_beta' intro: link_contr_same)
  then show ?thesis
    using assms outcome_all_andthen [OF set_contr_same [OF s1]]
    by (simp add: txn_add_contr_def 1 split: option.split)
qed

lemma add_bridge_child_same:
  assumes "same_bridges s0 (snd st)"
  shows "outcome_all (\<lambda>st. same_bridges s0 (snd st)) (add_bridge_child env br x st)"
proof -
  obtain f s where st: "st = (f, s)" by force
  have s: "same_bridges s0 s" using assms st by simp
  have "outcome_all (same_bridges s0) (for_each (add_bridge_resource env br) (children x) s)"
    using s by (rule outcome_all_for_each) (rule add_bridge_resource_same)
  moreover have "outcome_all (same_bridges s0)
      (for_each (\<lambda>leaf s. txn_add_contr env (Some leaf) (bridge_name_of s br) s) (children x) s)"
    using s by (rule outcome_all_for_each) (rule txn_add_contr_same)
  ultimately show ?thesis
    using bridge_mods_same [OF s] s by (simp add: st add_bridge_child_def split: list.split)
qed

lemma add_bridge_body_same:
  assumes "same_bridges s0 s"
  shows "outcome_all (same_bridges s0)
     (leave snd (for_each (add_bridge_child env br) xs (False, s))
        (\<lambda>(failmode, s5). if failmode then Success s5
           else txn_mod_bridge_failmode (bridge_name_of s5 br) None s5))"
proof (rule outcome_all_leave)
  show "outcome_all (\<lambda>st. same_bridges s0 (snd st)) (for_each (add_bridge_child env br) xs (False, s))"
    using assms add_bridge_child_same by (intro outcome_all_for_each) auto
qed (auto intro: bridge_mods_same)

lemma first_ovs_row:
  assumes "idl_places env" and "store_wf s" and "first_ovs env s = (r, s1)"
  shows "live (tb_ovs (db s1)) r" and "\<exists>x. cells (tb_ovs (db s1)) r = Some x"
    and "tb_bridge (db s1) = tb_bridge (db s)" and "next_row s \<le> next_row s1"
proof -
  have "twf (next_row s) (tb_ovs (db s))" using assms(2) by (simp add: store_wf_def ovs.wf_get)
  then show "live (tb_ovs (db s1)) r" "\<exists>x. cells (tb_ovs (db s1)) r = Some x"
    "tb_bridge (db s1) = tb_bridge (db s)" "next_row s \<le> next_row s1"
    using assms by (auto simp: first_ovs_def insert_row_def Let_def idl_places_def live_def twf_def split: list.splits)
qed

lemma add_bridge_Success:
  assumes "txn_add_bridge env (Some n) s = Success s'"
  obtains b ovs s1 br s2 s3 s4 where "switch_id n = Some b" "find_bridge (Some b) s = None"
    "first_ovs env s = (ovs, s1)" "insert_row env tb_bridge_update (new_bridge env) s1 = (br, s2)"
    "txn_ovs_insert_bridge env ovs br s2 = Success s3"
    "set_bridge br ''name'' (\<lambda>x. x\<lparr>br_name := Some b\<rparr>) s3 = Success s4"
    "same_bridges s4 s'"
proof -
  obtain ovs s1 where 1: "first_ovs env s = (ovs, s1)" by force
  obtain br s2 where 2: "insert_row env tb_bridge_update (new_bridge env) s1 = (br, s2)" by force
  obtain b s3 s4 where "switch_id n = Some b" "find_bridge (Some b) s = None"
      "txn_ovs_insert_bridge env ovs br s2 = Success s3"
      "set_bridge br ''name'' (\<lambda>x. x\<lparr>br_name := Some b\<rparr>) s3 = Success s4"
      "leave snd (for_each (add_bridge_child env br) (children n) (False, s4))
        (\<lambda>(failmode, s5). if failmode then Success s5
           else txn_mod_bridge_failmode (bridge_name_of s5 br) None s5) = Success s'"
    using assms by (auto simp: txn_add_bridge_def Let_def 1 2 andthen_eq_Success split: if_splits option.splits)
  then show ?thesis
    using that 1 2 outcome_all_Success [OF add_bridge_body_same [OF same_bridges_refl]] by blast
qed

lemma add_bridge_creates:
  assumes places: "idl_places env" and cols: "idl_columns env" and wf: "store_wf s"
    and ok: "txn_add_bridge env (Some n) s = Success s'"
  shows "\<exists>b br ovs x. switch_id n = Some b \<and> find_bridge (Some b) s = None \<and> next_row s \<le> br
     \<and> find_bridge (Some b) s' = Some br \<and> live (tb_ovs (db s')) ovs
     \<and> cells (tb_ovs (db s')) ovs = Some x \<and> br \<in> set (o_bridges x)"
proof -
  obtain b ovs s1 br s2 s3 s4 where b: "switch_id n = Some b" "find_bridge (Some b) s = None"
    and 1: "first_ovs env s = (ovs, s1)" and 2: "insert_row env tb_bridge_update (new_bridge env) s1 = (br, s2)"
    and 3: "txn_ovs_insert_bridge env ovs br s2 = Success s3"
    and 4: "set_bridge br ''name'' (\<lambda>x. x\<lparr>br_name := Some b\<rparr>) s3 = Success s4"
    and same: "same_bridges s4 s'"
    by (rule add_bridge_Success [OF ok])
  obtain ox where o: "live (tb_ovs (db s1)) ovs" "cells (tb_ovs (db s1)) ovs = Some ox"
      "tb_bridge (db s1) = tb_bridge (db s)" "next_row s \<le> next_row s1"
    using first_ovs_row [OF places wf 1] by auto
  have br: "br = next_row s1" using 2 by (auto simp: insert_row_def Let_def)
  have ovs4: "live (tb_ovs (db s4)) ovs"
      "cells (tb_ovs (db s4)) ovs = Some (ox\<lparr>o_bridges := idl_set env (o_bridges ox @ [br])\<rparr>)"
    using o 2 3 4 by (auto simp: insert_row_def Let_def txn_ovs_insert_bridge_def set_row_def change_row_def
        live_def split: option.splits if_splits)
  have br4: "set (order (tb_bridge (db s4))) = insert br (set (order (tb_bridge (db s))))"
      "\<forall>r. r \<noteq> br \<longrightarrow> cells (tb_bridge (db s4)) r = cells (tb_bridge (db s)) r"
      "map_option br_name (cells (tb_bridge (db s4)) br) = Some (Some b)"
    using o 2 3 4 places by (auto simp: insert_row_def Let_def txn_ovs_insert_bridge_def set_row_def change_row_def
        idl_places_def split: option.splits if_splits)
  have "find_bridge (Some b) s' = Some br"
    unfolding find_bridge_def
  proof (rule find_new_row [OF b(2) [unfolded find_bridge_def]])
    show "set (order (tb_bridge (db s'))) = insert br (set (order (tb_bridge (db s))))"
      using same br4(1) by (simp add: same_bridges_def)
    fix r y
    assume "r \<noteq> br" "cells (tb_bridge (db s')) r = Some y"
    then have "map_option br_name (cells (tb_bridge (db s)) r) = Some (br_name y)"
      using same br4(2) unfolding same_bridges_def by (metis option.simps(9))
    then show "\<exists>z. cells (tb_bridge (db s)) r = Some z \<and> (Some b = br_name z) = (Some b = br_name y)" by auto
  next
    have "map_option br_name (cells (tb_bridge (db s')) br) = Some (Some b)"
      using same br4(3) by (simp add: same_bridges_def)
    then show "cells (tb_bridge (db s')) br = Some (the (cells (tb_bridge (db s')) br))"
      "Some b = br_name (the (cells (tb_bridge (db s')) br))" by auto
  qed
  moreover have "br \<in> set (o_bridges (ox\<lparr>o_bridges := idl_set env (o_bridges ox @ [br])\<rparr>))"
    using cols by (simp add: idl_columns_def)
  ultimately show ?thesis
    using b o(4) ovs4 same br unfolding same_bridges_def by metis
qed

text \<open>Whatever was there before stays: every linked bridge stays linked and every bridge keeps its id.\<close>

definition bridges_stay :: "'k ofc \<Rightarrow> 'k ofc \<Rightarrow> bool" where
  "bridges_stay s s' \<longleftrightarrow>
     (\<forall>r y. live (tb_ovs (db s)) r \<and> cells (tb_ovs (db s)) r = Some y \<longrightarrow>
        live (tb_ovs (db s')) r \<and> (\<exists>y'. cells (tb_ovs (db s')) r = Some y' \<and> set (o_bridges y) \<subseteq> set (o_bridges y')))
   \<and> (\<forall>r. live (tb_bridge (db s)) r \<longrightarrow>
        live (tb_bridge (db s')) r
        \<and> map_option br_name (cells (tb_bridge (db s')) r) = map_option br_name (cells (tb_bridge (db s)) r))"

lemma first_ovs_stay:
  assumes "idl_places env" and "store_wf s" and "first_ovs env s = (r, s1)" and "live (tb_ovs (db s)) q"
  shows "live (tb_ovs (db s1)) q \<and> cells (tb_ovs (db s1)) q = cells (tb_ovs (db s)) q"
proof -
  have "twf (next_row s) (tb_ovs (db s))" using assms(2) by (simp add: store_wf_def ovs.wf_get)
  then show ?thesis
    using assms by (auto simp: first_ovs_def insert_row_def Let_def idl_places_def live_def twf_def split: list.splits)
qed

lemma add_bridge_keeps_bridges:
  assumes places: "idl_places env" and cols: "idl_columns env" and wf: "store_wf s"
    and ok: "txn_add_bridge env (Some n) s = Success s'"
  shows "bridges_stay s s'"
proof -
  obtain b ovs s1 br s2 s3 s4 where 1: "first_ovs env s = (ovs, s1)"
    and 2: "insert_row env tb_bridge_update (new_bridge env) s1 = (br, s2)"
    and 3: "txn_ovs_insert_bridge env ovs br s2 = Success s3"
    and 4: "set_bridge br ''name'' (\<lambda>x. x\<lparr>br_name := Some b\<rparr>) s3 = Success s4" and same: "same_bridges s4 s'"
    by (rule add_bridge_Success [OF ok])
  have o: "tb_bridge (db s1) = tb_bridge (db s)" "next_row s \<le> next_row s1" using first_ovs_row [OF places wf 1] by auto
  have "twf (next_row s) (tb_bridge (db s))" using wf by (simp add: store_wf_def bridge.wf_get)
  then have new: "r \<noteq> next_row s1" if "live (tb_bridge (db s)) r" for r
    using that o(2) unfolding twf_def live_def by (metis leD)
  have "live (tb_ovs (db s4)) r \<and> (\<exists>y'. cells (tb_ovs (db s4)) r = Some y' \<and> set (o_bridges y) \<subseteq> set (o_bridges y'))"
    if "live (tb_ovs (db s)) r" "cells (tb_ovs (db s)) r = Some y" for r y
    using first_ovs_stay [OF places wf 1 that(1)] that(2) 2 3 4 cols
    by (auto simp: insert_row_def Let_def txn_ovs_insert_bridge_def set_row_def change_row_def live_def idl_columns_def
        split: option.splits if_splits)
  moreover have "live (tb_bridge (db s4)) r \<and> cells (tb_bridge (db s4)) r = cells (tb_bridge (db s)) r"
    if "live (tb_bridge (db s)) r" for r
    using new [OF that] that o(1) 2 3 4 places
    by (auto simp: insert_row_def Let_def txn_ovs_insert_bridge_def set_row_def change_row_def live_def idl_places_def
        split: option.splits if_splits)
  ultimately show ?thesis using same by (simp add: bridges_stay_def same_bridges_def live_def)
qed

section \<open>Properties\<close>

text \<open>
  C11: \<^verbatim>\<open>txn_add_bridge\<close> that succeeds has created a bridge with the id of the switch, an id no bridge had
  before; the bridge is found under that id and is among the bridges of a live row of the
  Open_vSwitch table. All bridges there were keep their ids, and those that were linked stay linked.
\<close>
theorem bridge_created:
  assumes "idl_places env" and "idl_columns env" and "store_wf s"
    and "txn_add_bridge env (Some n) s = Success s'"
  shows "\<exists>b br ovs x. switch_id n = Some b \<and> find_bridge (Some b) s = None \<and> next_row s \<le> br
     \<and> find_bridge (Some b) s' = Some br \<and> live (tb_ovs (db s')) ovs
     \<and> cells (tb_ovs (db s')) ovs = Some x \<and> br \<in> set (o_bridges x) \<and> bridges_stay s s'"
  using add_bridge_creates [OF assms] add_bridge_keeps_bridges [OF assms] by blast

definition switch_xml :: xmlnode where
  "switch_xml = Element 1 ''switch'' None [] []
     [Element 2 ''id'' None [] [] [TextNode 3 ''ofc-bridge''],
      Element 4 ''lost-connection-behavior'' None [] [] [TextNode 5 ''failStandaloneMode'']]"

lemma demo_add_bridge: "\<exists>s'. txn_add_bridge demo_env (Some switch_xml) (demo_ofc empty_db) = Success s'"
  by (simp add: txn_add_bridge_def switch_xml_def switch_id_def go2node_def first_content_def find_bridge_def
      find_row_def first_ovs_def insert_row_def Let_def txn_ovs_insert_bridge_def set_row_def change_row_def
      live_def add_bridge_child_def bridge_name_of_def txn_mod_bridge_failmode_def)

theorem bridge_created_witness:
  "\<exists>s' br. txn_add_bridge demo_env (Some switch_xml) (demo_ofc empty_db) = Success s'
     \<and> find_bridge (Some ''ofc-bridge'') s' = Some br \<and> 100 \<le> br"
proof -
  obtain s' where s': "txn_add_bridge demo_env (Some switch_xml) (demo_ofc empty_db) = Success s'"
    using demo_add_bridge by blast
  have "switch_id switch_xml = Some ''ofc-bridge''"
    by (simp add: switch_xml_def switch_id_def go2node_def first_content_def)
  then show ?thesis
    using bridge_created [OF demo_env_places demo_env_columns _ s'] s' by (auto simp: store_wf_def)
qed


definition demo_bridge :: bridge_row where
  "demo_bridge = \<lparr>br_name = Some ''br0'', br_datapath_id = None, br_fail_mode = None, br_controller = [9],
                  br_ports = [], br_flow_tables = [], br_other_config = []\<rparr>"

definition demo_contr :: "string \<Rightarrow> contr_row" where
  "demo_contr cid = \<lparr>c_target = Some ''ssl:10.0.0.1:6633'', c_local_ip = None, c_connection_mode = None,
                     c_external_ids = [(''ofconfig-id'', cid)]\<rparr>"

definition bridge_db :: db where
  "bridge_db = empty_db
     \<lparr>tb_bridge := one_row 4 demo_bridge,
      tb_port := one_row 5 \<lparr>p_name = Some ''eth1'', p_interfaces = [6], p_qos = None\<rparr>,
      tb_contr := \<lparr>order = [8, 9], cells = [8 \<mapsto> demo_contr ''c1'', 9 \<mapsto> demo_contr ''c2'']\<rparr>\<rparr>"

lemma bridge_db_simps [simp]:
  "find_bridge (Some ''br0'') (demo_ofc bridge_db) = Some 4"
  "cells (tb_bridge bridge_db) 4 = Some demo_bridge" "live (tb_bridge bridge_db) 4"
  "find_port (Some ''eth1'') (demo_ofc bridge_db) = Some 5"
  "find_contr ''c1'' (demo_ofc bridge_db) = Some 8" "live (tb_contr bridge_db) 8" "live (tb_contr bridge_db) 9"
  "cells (tb_contr bridge_db) 8 = Some (demo_contr ''c1'')"
  by (simp_all add: bridge_db_def demo_bridge_def demo_contr_def find_bridge_def find_port_def find_contr_def
      find_row_def contr_has_id_def smap_get_def live_def)


text \<open>
  C25: The datapath id of a bridge. The loop of \<^verbatim>\<open>txn_mod_bridge_datapath\<close> stays inside its buffers and
  yields a terminated string exactly when the value has 16 characters other than colons, and then
  the stored id is these characters in order; every other value of the accepted length 23 runs past
  a buffer.
\<close>
theorem datapath_id_copied:
  assumes "NUL \<notin> set v"
  shows "datapath_bytes v = (if length (no_colons v) = 16 then Some (no_colons v) else None)"
  using assms by (rule datapath_bytes_eq)

theorem datapath_id_copied_witness:
  "datapath_bytes ''00:00:00:1b:21:3c:4d:5e'' = Some ''0000001b213c4d5e''"
  using datapath_id_copied [of "''00:00:00:1b:21:3c:4d:5e''"] by (simp add: no_colons_def)

text \<open>
  Changing the address of a controller keeps its protocol and its port: for a target built by
  \<^verbatim>\<open>txn_add_contr\<close> from a three letter protocol and an address with no colon, \<^verbatim>\<open>txn_mod_contr_target\<close>
  stores the target built from the protocol, the new address and the port, as part of the
  transaction.
\<close>
lemma controller_address_changed:
  assumes "find_contr cid s = Some c" and "cells (tb_contr (db s)) c = Some x"
    and "c_target x = Some (contr_target proto ip port)"
    and "length proto = 3" and "CHR '':'' \<notin> set proto" and "CHR '':'' \<notin> set ip"
  shows "\<exists>s'. txn_mod_contr_target (Some cid) (Some ''ip-address'') (Some v) s = Success s'
     \<and> cells (tb_contr (db s')) c = Some (x\<lparr>c_target := Some (contr_target proto v port)\<rparr>)
     \<and> wlog s' = (c, ''target'') # wlog s \<and> poked s' = poked s"
  using assms by (rule mod_contr_ip)

lemma controller_address_changed_example:
  "\<exists>s' y. txn_mod_contr_target (Some ''c1'') (Some ''ip-address'') (Some ''10.9.9.9'') (demo_ofc bridge_db) = Success s'
     \<and> cells (tb_contr (db s')) 8 = Some y \<and> c_target y = Some ''ssl:10.9.9.9:6633''"
  using controller_address_changed [of "''c1''" "demo_ofc bridge_db" 8 "demo_contr ''c1''" "''ssl''" "''10.0.0.1''"
      "Some ''6633''" "''10.9.9.9''"]
  by (auto simp: demo_contr_def contr_target_def)

text \<open>
  Changing the protocol of a controller is not part of the transaction: the code overwrites the
  first three characters of the row structure and does not call the setter, so no column is
  written although the operation reports success. The change cannot reach the database.
\<close>
lemma controller_protocol_not_sent:
  assumes "find_contr cid s = Some c" and "cells (tb_contr (db s)) c = Some x"
    and "c_target x = Some t" and "3 \<le> length t"
  shows "\<exists>s'. txn_mod_contr_target (Some cid) (Some ''protocol'') (Some ''tcp'') s = Success s'
     \<and> cells (tb_contr (db s')) c = Some (x\<lparr>c_target := Some (''tcp'' @ drop 3 t)\<rparr>)
     \<and> wlog s' = wlog s \<and> poked s' = (c, ''target'') # poked s"
  using set_target_row(2) [OF assms(1,2)] assms(4)
  by (simp add: mod_contr_target_run [OF assms(1-3)] mod_target_protocol_def)

lemma controller_protocol_not_sent_example:
  "\<exists>s'. txn_mod_contr_target (Some ''c1'') (Some ''protocol'') (Some ''tcp'') (demo_ofc bridge_db) = Success s'
     \<and> wlog s' = wlog (demo_ofc bridge_db)"
  using controller_protocol_not_sent [of "''c1''" "demo_ofc bridge_db" 8 "demo_contr ''c1''" "''ssl:10.0.0.1:6633''"]
  by (auto simp: demo_contr_def)

text \<open>
  When a bridge has one controller, \<^verbatim>\<open>txn_del_contr\<close> does not check that it is the one to delete:
  the bridge loses its controller, the named controller, which belongs elsewhere, is deleted, and
  the controller of the bridge remains with no bridge.
\<close>
lemma single_controller_unlinked:
  assumes "find_contr cid s = Some c" and "find_bridge (Some b) s = Some br"
    and "cells (tb_bridge (db s)) br = Some x" and "br_controller x = [other]" and "other \<noteq> c"
    and "live (tb_contr (db s)) other" and "idl_columns env"
  shows "\<exists>s'. txn_del_contr env (Some cid) (Some b) s = Success s'
     \<and> cells (tb_bridge (db s')) br = Some (x\<lparr>br_controller := []\<rparr>)
     \<and> \<not> live (tb_contr (db s')) c \<and> live (tb_contr (db s')) other"
proof -
  have "set (idl_set env []) = {}" using assms(7) unfolding idl_columns_def by (metis list.set(1))
  then have e: "idl_set env [] = []" by simp
  obtain s1 where "set_bridge br ''controller'' (\<lambda>x. x\<lparr>br_controller := idl_set env []\<rparr>) s = Success s1"
      "cells (tb_bridge (db s1)) br = Some (x\<lparr>br_controller := idl_set env []\<rparr>)" "tb_contr (db s1) = tb_contr (db s)"
    by (rule set_bridge_row [OF assms(2,3), where c = "''controller''"
          and f = "\<lambda>x. x\<lparr>br_controller := idl_set env []\<rparr>"]) simp_all
  moreover have "live (tb_contr (db s)) c" using assms(1) find_row_Some by (auto simp: find_contr_def)
  ultimately show ?thesis
    using assms(1-6) by (simp add: txn_del_contr_def with_row_def Let_def del_row_def e live_def)
qed

lemma single_controller_unlinked_example:
  "\<exists>s'. txn_del_contr demo_env (Some ''c1'') (Some ''br0'') (demo_ofc bridge_db) = Success s'
     \<and> live (tb_contr (db s')) 9 \<and> \<not> live (tb_contr (db s')) 8"
  using single_controller_unlinked [of "''c1''" "demo_ofc bridge_db" 8 "''br0''" 4 demo_bridge 9 demo_env]
  by (auto simp: demo_env_columns demo_bridge_def)

end
