(* ===== verification/Ovs_Cert.thy ===== *)
theory Ovs_Cert
  imports Ovs_Bridge
begin

text \<open>
  Certificates of \<^verbatim>\<open>ovs-data.c\<close>. The owned and the external certificate share one SSL record; the
  certificates and the private key are kept in files next to the database. The contents of the files are
  part of the state, the success of the system calls is in the environment. An error that is set
  although the function goes on to succeed is not represented.
\<close>

definition OFC_RESID_OWN :: string where
  "OFC_RESID_OWN = ''ofc_resource_id_own''"

definition OFC_RESID_EXT :: string where
  "OFC_RESID_EXT = ''ofc_resource_id_ext''"

abbreviation LF :: char where
  "LF \<equiv> CHR 0x0A"

section \<open>Files\<close>

text \<open>
  One \<^verbatim>\<open>write\<close> on a file descriptor: the return value, the new position and the state. What is written
  replaces the bytes at the position; a write beyond the end leaves a gap of zero bytes.
\<close>

definition write_at :: "nat \<Rightarrow> string \<Rightarrow> string \<Rightarrow> string" where
  "write_at off d c = take off c @ replicate (off - length c) NUL @ d @ drop (off + length d) c"

definition file_content :: "'k ofc \<Rightarrow> string \<Rightarrow> string" where
  "file_content s file = (case files s file of None \<Rightarrow> [] | Some c \<Rightarrow> c)"

definition put_file :: "string \<Rightarrow> string \<Rightarrow> 'k ofc \<Rightarrow> 'k ofc" where
  "put_file file c s = s\<lparr>files := (files s)(file \<mapsto> c)\<rparr>"

definition fd_write :: "'k env \<Rightarrow> string \<Rightarrow> string \<Rightarrow> nat \<Rightarrow> 'k ofc \<Rightarrow> int \<times> nat \<times> 'k ofc" where
  "fd_write env file d off s =
     (case os_write env file (file_content s file) d of
        None \<Rightarrow> (-1, off, s)
      | Some n \<Rightarrow>
          (let w = take n d in
           (int (length w), off + length w, put_file file (write_at off w (file_content s file)) s)))"

text \<open>Several writes; only the return value of the last one is looked at.\<close>

fun fd_writes :: "'k env \<Rightarrow> string \<Rightarrow> string list \<Rightarrow> int \<times> nat \<times> 'k ofc \<Rightarrow> int \<times> nat \<times> 'k ofc" where
  "fd_writes env file [] r = r"
| "fd_writes env file (d # ds) (ret, off, s) = fd_writes env file ds (fd_write env file d off s)"

definition unlink_file :: "'k env \<Rightarrow> string \<Rightarrow> 'k ofc \<Rightarrow> 'k ofc" where
  "unlink_file env file s = (if os_unlink env file then s\<lparr>files := (files s)(file := None)\<rparr> else s)"

section \<open>Finding the SSL record\<close>

definition ssl_has_id :: "string \<Rightarrow> string \<Rightarrow> ssl_row \<Rightarrow> bool" where
  "ssl_has_id type rid x \<longleftrightarrow> smap_get (ssl_external_ids x) type = Some rid"

text \<open>
  \<^verbatim>\<open>find_ssl\<close> and the error it stores when there is no such record. \<^verbatim>\<open>strcmp\<close> is true when the strings
  differ, so the messages for the two kinds of certificate are swapped.
\<close>

definition find_ssl :: "string \<Rightarrow> string option \<Rightarrow> 'k ofc \<Rightarrow> rowid option" where
  "find_ssl type resource_id s =
     (case resource_id of None \<Rightarrow> None | Some rid \<Rightarrow> find_row (ssl_has_id type rid) (tb_ssl (db s)))"

definition no_ssl :: "string \<Rightarrow> nc_err" where
  "no_ssl type =
     bad_elem ''resource_id''
       (if type \<noteq> OFC_RESID_OWN then ''Could not find owned-certificate with the specified resource-id''
        else ''Could not find external-certificate with the specified resource-id'')"

section \<open>Writing certificates and keys\<close>

definition cert_begin :: string where
  "cert_begin = ''-----BEGIN CERTIFICATE-----'' @ [LF]"

definition cert_end :: string where
  "cert_end = [LF] @ ''-----END CERTIFICATE-----''"

definition write_cert :: "'k env \<Rightarrow> string \<Rightarrow> string \<Rightarrow> 'k ofc \<Rightarrow> 'k ofc outcome" where
  "write_cert env cert file s =
     (if \<not> os_creat env file then fail op_failed s
      else let (ret, off, s') = fd_writes env file [cert_begin, cert, cert_end] (0, 0, put_file file [] s)
           in if ret < 26 then fail op_failed s' else Success s')"

definition write_key :: "'k env \<Rightarrow> string \<Rightarrow> string \<Rightarrow> string \<Rightarrow> 'k ofc \<Rightarrow> 'k ofc outcome" where
  "write_key env key_type key_data file s =
     (if \<not> os_creat env file then fail op_failed s
      else let (ret, off, s') = fd_writes env file
                 [''-----BEGIN '', key_type, '' PRIVATE KEY-----'' @ [LF], key_data,
                  [LF] @ ''-----END '', key_type, '' PRIVATE KEY-----''] (0, 0, put_file file [] s)
           in if ret < 17 then fail op_failed s' else Success s')"

abbreviation cert_pem :: "'k env \<Rightarrow> string" where
  "cert_pem env \<equiv> OFC_DATADIR env @ ''/cert.pem''"

abbreviation key_pem :: "'k env \<Rightarrow> string" where
  "key_pem env \<equiv> OFC_DATADIR env @ ''/key.pem''"

abbreviation ca_cert_pem :: "'k env \<Rightarrow> string" where
  "ca_cert_pem env \<equiv> OFC_DATADIR env @ ''/ca_cert.pem''"

section \<open>Adding certificates\<close>

text \<open>What the loop over the children of the certificate element collects.\<close>

record cert_data =
  cd_resid :: "string option"
  cd_cert :: "string option"
  cd_key_type :: "string option"
  cd_key_data :: "string option"

definition key_leaf :: "xmlnode \<Rightarrow> cert_data \<Rightarrow> cert_data" where
  "key_leaf leaf d =
     (if node_name leaf = ''key-type'' then d\<lparr>cd_key_type := first_content leaf\<rparr>
      else if node_name leaf = ''key-data'' then d\<lparr>cd_key_data := first_content leaf\<rparr>
      else d)"

definition owned_child :: "xmlnode \<Rightarrow> cert_data \<Rightarrow> cert_data" where
  "owned_child aux d =
     (if \<not> is_element aux then d
      else if cd_resid d = None \<and> node_name aux = ''resource-id'' then d\<lparr>cd_resid := first_content aux\<rparr>
      else if node_name aux = ''certificate'' then d\<lparr>cd_cert := first_content aux\<rparr>
      else if node_name aux = ''private-key'' then fold key_leaf (children aux) d
      else d)"

definition external_child :: "xmlnode \<Rightarrow> cert_data \<Rightarrow> cert_data" where
  "external_child aux d =
     (if \<not> is_element aux then d
      else if cd_resid d = None \<and> node_name aux = ''resource-id'' then d\<lparr>cd_resid := first_content aux\<rparr>
      else if node_name aux = ''certificate'' then d\<lparr>cd_cert := first_content aux\<rparr>
      else d)"

abbreviation no_cert_data :: "string option \<Rightarrow> cert_data" where
  "no_cert_data resid \<equiv> \<lparr>cd_resid = resid, cd_cert = None, cd_key_type = None, cd_key_data = None\<rparr>"

text \<open>Linking the record into the Open_vSwitch table, which makes all bridges use it.\<close>

definition link_ssl :: "'k env \<Rightarrow> rowid \<Rightarrow> 'k ofc \<Rightarrow> 'k ofc outcome" where
  "link_ssl env r s =
     (let (ovs, s1) = first_ovs env s in set_ovs ovs ''ssl'' (\<lambda>x. x\<lparr>o_ssl := Some r\<rparr>) s1)"

definition store_owned :: "'k env \<Rightarrow> rowid \<Rightarrow> cert_data \<Rightarrow> 'k ofc \<Rightarrow> 'k ofc outcome" where
  "store_owned env ssl d s =
     (case (cd_resid d, cd_cert d, cd_key_type d, cd_key_data d) of
        (None, _, _, _) \<Rightarrow> fail (err_elem NC_ERR_MISSING_ELEM ''resource-id'') s
      | (Some _, None, _, _) \<Rightarrow> fail (err_elem NC_ERR_MISSING_ELEM ''certificate'') s
      | (Some _, Some _, None, _) \<Rightarrow> fail (err_elem NC_ERR_MISSING_ELEM ''key-type'') s
      | (Some _, Some _, Some _, None) \<Rightarrow> fail (err_elem NC_ERR_MISSING_ELEM ''key-data'') s
      | (Some new_resid, Some cert, Some key_type, Some key_data) \<Rightarrow>
          steps
            [write_cert env cert (cert_pem env),
             set_ssl ssl ''certificate'' (\<lambda>x. x\<lparr>ssl_certificate := Some (cert_pem env)\<rparr>),
             write_key env key_type key_data (key_pem env),
             set_ssl ssl ''private_key'' (\<lambda>x. x\<lparr>ssl_private_key := Some (key_pem env)\<rparr>),
             set_ssl ssl ''external_ids''
               (\<lambda>x. x\<lparr>ssl_external_ids := smap_replace OFC_RESID_OWN new_resid (ssl_external_ids x)\<rparr>),
             link_ssl env ssl] s)"

definition store_external :: "'k env \<Rightarrow> rowid \<Rightarrow> cert_data \<Rightarrow> 'k ofc \<Rightarrow> 'k ofc outcome" where
  "store_external env ssl d s =
     (case (cd_resid d, cd_cert d) of
        (None, _) \<Rightarrow> fail (err_elem NC_ERR_MISSING_ELEM ''resource-id'') s
      | (Some _, None) \<Rightarrow> fail (err_elem NC_ERR_MISSING_ELEM ''certificate'') s
      | (Some new_resid, Some cert) \<Rightarrow>
          steps
            [write_cert env cert (ca_cert_pem env),
             set_ssl ssl ''ca_cert'' (\<lambda>x. x\<lparr>ssl_ca_cert := Some (ca_cert_pem env)\<rparr>),
             set_ssl ssl ''external_ids''
               (\<lambda>x. x\<lparr>ssl_external_ids := smap_replace OFC_RESID_EXT new_resid (ssl_external_ids x)\<rparr>),
             link_ssl env ssl] s)"

text \<open>
  The start both functions share: the first SSL record, which must not have another resource id of
  the kind \<open>type\<close>, or a new one. The code that follows gets the record and the resource id if it was
  read already.
\<close>

definition ssl_to_fill ::
  "'k env \<Rightarrow> string \<Rightarrow> string \<Rightarrow> xmlnode \<Rightarrow> (rowid \<Rightarrow> string option \<Rightarrow> 'k ofc \<Rightarrow> 'k ofc outcome) \<Rightarrow> 'k ofc \<Rightarrow> 'k ofc outcome" where
  "ssl_to_fill env type msg node k s =
     (case order (tb_ssl (db s)) of
        [] \<Rightarrow> (let (ssl, s1) = insert_row env tb_ssl_update (new_ssl env) s in k ssl None s1)
      | ssl # _ \<Rightarrow>
          with_row tb_ssl ssl (\<lambda>x s.
            case get_key node ''resource-id'' of
              None \<Rightarrow> fail (err_elem NC_ERR_MISSING_ELEM ''resource-id'') s
            | Some new_resid \<Rightarrow>
                if smap_get (ssl_external_ids x) type \<notin> {None, Some new_resid}
                then fail (err_text NC_ERR_OP_FAILED msg) s
                else k ssl (Some new_resid) s) s)"

definition txn_add_owned_certificate :: "'k env \<Rightarrow> xmlnode option \<Rightarrow> 'k ofc \<Rightarrow> 'k ofc outcome" where
  "txn_add_owned_certificate env node s =
     (case node of
        None \<Rightarrow> fail op_failed s
      | Some n \<Rightarrow>
          ssl_to_fill env OFC_RESID_OWN ''OVS allows to use only a single owned certificate'' n
            (\<lambda>ssl resid. store_owned env ssl (fold owned_child (children n) (no_cert_data resid))) s)"

definition txn_add_external_certificate :: "'k env \<Rightarrow> xmlnode option \<Rightarrow> 'k ofc \<Rightarrow> 'k ofc outcome" where
  "txn_add_external_certificate env node s =
     (case node of
        None \<Rightarrow> fail op_failed s
      | Some n \<Rightarrow>
          ssl_to_fill env OFC_RESID_EXT ''OVS allows to use only a single external certificate'' n
            (\<lambda>ssl resid. store_external env ssl (fold external_child (children n) (no_cert_data resid))) s)"
section \<open>Changing certificates and keys\<close>

definition txn_mod_own_cert_certificate :: "'k env \<Rightarrow> string option \<Rightarrow> xmlnode option \<Rightarrow> 'k ofc \<Rightarrow> 'k ofc outcome" where
  "txn_mod_own_cert_certificate env resid node s =
     (if resid = None then fail op_failed s
      else case find_ssl OFC_RESID_OWN resid s of
             None \<Rightarrow> fail (no_ssl OFC_RESID_OWN) s
           | Some ssl \<Rightarrow>
               (case node of
                  None \<Rightarrow> set_ssl ssl ''ca_cert'' (\<lambda>x. x\<lparr>ssl_ca_cert := Some []\<rparr>) (unlink_file env (cert_pem env) s)
                | Some n \<Rightarrow>
                    (case first_content n of
                       None \<Rightarrow> fail (bad_elem ''certificate'' ''No data in owned-certificate'') s
                     | Some cert \<Rightarrow>
                         steps
                           [write_cert env cert (cert_pem env),
                            set_ssl ssl ''certificate'' (\<lambda>x. x\<lparr>ssl_certificate := Some (cert_pem env)\<rparr>)] s)))"

definition txn_mod_ext_cert_certificate :: "'k env \<Rightarrow> string option \<Rightarrow> xmlnode option \<Rightarrow> 'k ofc \<Rightarrow> 'k ofc outcome" where
  "txn_mod_ext_cert_certificate env resid node s =
     (if resid = None then fail op_failed s
      else case find_ssl OFC_RESID_EXT resid s of
             None \<Rightarrow> fail (no_ssl OFC_RESID_EXT) s
           | Some ssl \<Rightarrow>
               (case node of
                  None \<Rightarrow> set_ssl ssl ''ca_cert'' (\<lambda>x. x\<lparr>ssl_ca_cert := Some []\<rparr>) (unlink_file env (ca_cert_pem env) s)
                | Some n \<Rightarrow>
                    (case first_content n of
                       None \<Rightarrow> fail (bad_elem ''certificate'' ''No data in external-certificate'') s
                     | Some cert \<Rightarrow>
                         steps
                           [write_cert env cert (ca_cert_pem env),
                            set_ssl ssl ''ca_cert'' (\<lambda>x. x\<lparr>ssl_ca_cert := Some (ca_cert_pem env)\<rparr>)] s)))"

text \<open>
  \<^verbatim>\<open>parse_pem\<close> reads the key file and finds the markers: the text read and the positions of the begin
  and end marker, RSA first and then DSA. \<open>PemUndef\<close>: a \<^verbatim>\<open>read\<close> that returns -1 is not noticed, since the
  code compares it with an unsigned size, and the buffer stays uninitialised.
\<close>

definition pem_begin :: "string \<Rightarrow> string" where
  "pem_begin key_type = ''-----BEGIN '' @ key_type @ '' PRIVATE KEY-----'' @ [LF]"

definition pem_end :: "string \<Rightarrow> string" where
  "pem_end key_type = [LF] @ ''-----END '' @ key_type @ '' PRIVATE KEY-----''"

definition pem_markers :: "string \<Rightarrow> (nat \<times> nat) option" where
  "pem_markers pem =
     (let ends = (\<lambda>key_type. (strstr pem (pem_begin key_type), strstr pem (pem_end key_type)));
          found = (if fst (ends ''RSA'') = None then ends ''DSA'' else ends ''RSA'')
      in case found of (Some a, Some b) \<Rightarrow> Some (a, b) | _ \<Rightarrow> None)"

datatype pem = PemError | PemUndef | Pem string nat nat

definition parse_pem :: "'k env \<Rightarrow> string option \<Rightarrow> 'k ofc \<Rightarrow> pem" where
  "parse_pem env file s =
     (case file of
        None \<Rightarrow> PemError
      | Some f \<Rightarrow>
          (case files s f of
             None \<Rightarrow> PemError
           | Some c \<Rightarrow>
               if \<not> os_open env f then PemError
               else (case os_read env f c of
                       None \<Rightarrow> PemUndef
                     | Some n \<Rightarrow>
                         if n < length c then PemError
                         else (let pem = takeWhile (\<lambda>x. x \<noteq> NUL) c in
                               case pem_markers pem of
                                 None \<Rightarrow> PemError
                               | Some (a, b) \<Rightarrow> Pem pem a b))))"

text \<open>The code both changes of a key share, up to the parsed key file.\<close>

definition with_key_file ::
  "'k env \<Rightarrow> string option \<Rightarrow> (string \<Rightarrow> string \<Rightarrow> nat \<Rightarrow> nat \<Rightarrow> 'k ofc \<Rightarrow> 'k ofc outcome) \<Rightarrow> 'k ofc \<Rightarrow> 'k ofc outcome" where
  "with_key_file env res_id k s =
     (case find_ssl OFC_RESID_OWN res_id s of
        None \<Rightarrow> fail (no_ssl OFC_RESID_OWN) s
      | Some ssl \<Rightarrow>
          with_row tb_ssl ssl (\<lambda>x s.
            case parse_pem env (ssl_private_key x) s of
              PemError \<Rightarrow> fail op_failed s
            | PemUndef \<Rightarrow> Undef
            | Pem pem a b \<Rightarrow> k (the (ssl_private_key x)) pem a b s) s)"

text \<open>
  An empty element sets the error but the functions go on, with a NULL pointer whose \<^verbatim>\<open>xmlStrlen\<close> is 0,
  so nothing is written in its place and the result is a success.
\<close>

definition rewrite_key_type ::
  "'k env \<Rightarrow> string \<Rightarrow> string \<Rightarrow> string \<Rightarrow> nat \<Rightarrow> nat \<Rightarrow> 'k ofc \<Rightarrow> 'k ofc outcome" where
  "rewrite_key_type env type file pem a b s =
     (let (ret, _, s1) = fd_write env file type (a + 11) s in
      if ret < int (length type) then fail op_failed s1
      else let (ret, _, s2) = fd_write env file type (b + 10) s1 in
           if ret < int (length type) then fail op_failed s2 else Success s2)"

definition txn_mod_own_cert_key_type :: "'k env \<Rightarrow> string option \<Rightarrow> xmlnode option \<Rightarrow> 'k ofc \<Rightarrow> 'k ofc outcome" where
  "txn_mod_own_cert_key_type env res_id node s =
     (if res_id = None then fail op_failed s
      else case node of
             None \<Rightarrow> Success s
           | Some n \<Rightarrow>
               with_key_file env res_id
                 (rewrite_key_type env (case first_content n of None \<Rightarrow> [] | Some t \<Rightarrow> t)) s)"

definition rewrite_key_data ::
  "'k env \<Rightarrow> string \<Rightarrow> string \<Rightarrow> string \<Rightarrow> nat \<Rightarrow> nat \<Rightarrow> 'k ofc \<Rightarrow> 'k ofc outcome" where
  "rewrite_key_data env data file pem a b s =
     (if \<not> os_truncate env file then fail op_failed s
      else let (ret, _, s') = fd_writes env file
                 [take 32 (drop a pem), data, take 30 (drop b pem)] (0, 0, put_file file [] s)
           in if ret < 30 then fail op_failed s' else Success s')"

definition txn_mod_own_cert_key_data :: "'k env \<Rightarrow> string option \<Rightarrow> xmlnode option \<Rightarrow> 'k ofc \<Rightarrow> 'k ofc outcome" where
  "txn_mod_own_cert_key_data env res_id node s =
     (if res_id = None then fail op_failed s
      else case node of
             None \<Rightarrow> Success s
           | Some n \<Rightarrow>
               with_key_file env res_id
                 (rewrite_key_data env (case first_content n of None \<Rightarrow> [] | Some t \<Rightarrow> t)) s)"

section \<open>Deleting certificates\<close>

text \<open>The SSL record goes when the other certificate is not there; otherwise only its own part.\<close>

definition drop_ssl :: "rowid \<Rightarrow> 'k ofc \<Rightarrow> 'k ofc outcome" where
  "drop_ssl ssl s =
     (case order (tb_ovs (db s)) of
        [] \<Rightarrow> fail (err_text NC_ERR_OP_FAILED ''OVSDB content is corrupted'') s
      | ovs # _ \<Rightarrow>
          steps [set_ovs ovs ''ssl'' (\<lambda>x. x\<lparr>o_ssl := None\<rparr>), del_row tb_ssl tb_ssl_update ssl] s)"

definition drop_owned :: "'k env \<Rightarrow> rowid \<Rightarrow> 'k ofc \<Rightarrow> 'k ofc outcome" where
  "drop_owned env ssl = steps
     [\<lambda>s. Success (unlink_file env (cert_pem env) s),
      set_ssl ssl ''certificate'' (\<lambda>x. x\<lparr>ssl_certificate := Some []\<rparr>),
      \<lambda>s. Success (unlink_file env (key_pem env) s),
      set_ssl ssl ''private_key'' (\<lambda>x. x\<lparr>ssl_private_key := Some []\<rparr>),
      set_ssl ssl ''external_ids'' (\<lambda>x. x\<lparr>ssl_external_ids := smap_remove OFC_RESID_OWN (ssl_external_ids x)\<rparr>)]"

definition drop_external :: "'k env \<Rightarrow> rowid \<Rightarrow> 'k ofc \<Rightarrow> 'k ofc outcome" where
  "drop_external env ssl = steps
     [\<lambda>s. Success (unlink_file env (ca_cert_pem env) s),
      set_ssl ssl ''ca_cert'' (\<lambda>x. x\<lparr>ssl_ca_cert := Some []\<rparr>),
      set_ssl ssl ''external_ids'' (\<lambda>x. x\<lparr>ssl_external_ids := smap_remove OFC_RESID_EXT (ssl_external_ids x)\<rparr>)]"

definition del_certificate ::
  "string \<Rightarrow> string \<Rightarrow> string \<Rightarrow> (rowid \<Rightarrow> 'k ofc \<Rightarrow> 'k ofc outcome) \<Rightarrow> xmlnode option \<Rightarrow> 'k ofc \<Rightarrow> 'k ofc outcome" where
  "del_certificate type other msg clear node s =
     (case node of
        None \<Rightarrow> fail op_failed s
      | Some n \<Rightarrow>
          (case get_key n ''resource-id'' of
             None \<Rightarrow> fail (err_elem_text NC_ERR_MISSING_ELEM ''resource_id'' msg) s
           | Some resid \<Rightarrow>
               (case find_ssl type (Some resid) s of
                  None \<Rightarrow> fail (no_ssl type) s
                | Some ssl \<Rightarrow>
                    with_row tb_ssl ssl (\<lambda>x.
                      if smap_get (ssl_external_ids x) other = None then drop_ssl ssl else clear ssl) s)))"

definition txn_del_owned_certificate :: "'k env \<Rightarrow> xmlnode option \<Rightarrow> 'k ofc \<Rightarrow> 'k ofc outcome" where
  "txn_del_owned_certificate env =
     del_certificate OFC_RESID_OWN OFC_RESID_EXT ''owned-certificate has no resource-id specified'' (drop_owned env)"

definition txn_del_external_certificate :: "'k env \<Rightarrow> xmlnode option \<Rightarrow> 'k ofc \<Rightarrow> 'k ofc outcome" where
  "txn_del_external_certificate env =
     del_certificate OFC_RESID_EXT OFC_RESID_OWN ''external-certificate has no resource-id specified'' (drop_external env)"

section \<open>Invariants\<close>

lemma in_txn_file [simp]:
  "in_txn h (put_file f c s) = in_txn h s" "in_txn h (unlink_file env f s) = in_txn h s"
  by (simp_all add: put_file_def unlink_file_def)

lemma fd_write_in_txn [simp]: "in_txn h (snd (snd (fd_write env f d off s))) = in_txn h s"
  by (simp add: fd_write_def Let_def split: option.split)

lemma fd_writes_in_txn [simp]: "in_txn h (snd (snd (fd_writes env f ds r))) = in_txn h (snd (snd r))"
proof (induction ds arbitrary: r)
  case (Cons d ds)
  then show ?case by (cases r) simp
qed simp

lemma write_file_keeps [wf_intros]:
  "in_txn h s \<Longrightarrow> outcome_all (in_txn h) (write_cert env c f s)"
  "in_txn h s \<Longrightarrow> outcome_all (in_txn h) (write_key env t d f s)"
  by (simp_all add: write_cert_def write_key_def case_prod_unfold Let_def del: fd_writes.simps)

lemma link_ssl_keeps [wf_intros]:
  assumes "idl_places env" and "in_txn h s"
  shows "outcome_all (in_txn h) (link_ssl env r s)"
  using assms
  by (auto simp: link_ssl_def split: prod.split intro!: set_keeps dest: first_ovs_keeps)

lemma ssl_to_fill_keeps:
  assumes "idl_places env" and "in_txn h s"
    and "\<And>ssl r s. in_txn h s \<Longrightarrow> outcome_all (in_txn h) (k ssl r s)"
  shows "outcome_all (in_txn h) (ssl_to_fill env type msg node k s)"
  using assms
  by (auto simp: ssl_to_fill_def with_row_def split: list.split option.split prod.split
      dest: ssl.insert_in_txn)

lemma store_certificate_keeps:
  assumes "idl_places env" and "in_txn h s"
  shows "outcome_all (in_txn h) (store_owned env r d s)"
    and "outcome_all (in_txn h) (store_external env r d s)"
  using assms
  by (auto simp: store_owned_def store_external_def simp del: steps_simps split: option.split
      intro!: wf_intros)

lemma txn_add_certificate_keeps [wf_intros]:
  assumes "idl_places env" and "in_txn h s"
  shows "outcome_all (in_txn h) (txn_add_owned_certificate env node s)"
    and "outcome_all (in_txn h) (txn_add_external_certificate env node s)"
  using assms ssl_to_fill_keeps [OF assms] store_certificate_keeps [OF assms(1)]
  by (auto simp: txn_add_owned_certificate_def txn_add_external_certificate_def split: option.split)

lemma txn_mod_certificate_keeps [wf_intros]:
  assumes "in_txn h s"
  shows "outcome_all (in_txn h) (txn_mod_own_cert_certificate env r node s)"
    and "outcome_all (in_txn h) (txn_mod_ext_cert_certificate env r node s)"
  using assms
  by (auto simp: txn_mod_own_cert_certificate_def txn_mod_ext_cert_certificate_def simp del: steps_simps
      split: option.split intro!: wf_intros)

lemma rewrite_key_keeps:
  assumes "in_txn h s"
  shows "outcome_all (in_txn h) (rewrite_key_type env t f p a b s)"
    and "outcome_all (in_txn h) (rewrite_key_data env t f p a b s)"
  using assms
  by (simp_all add: rewrite_key_type_def rewrite_key_data_def case_prod_unfold Let_def del: fd_writes.simps)

lemma txn_mod_key_keeps [wf_intros]:
  assumes "in_txn h s"
  shows "outcome_all (in_txn h) (txn_mod_own_cert_key_type env r node s)"
    and "outcome_all (in_txn h) (txn_mod_own_cert_key_data env r node s)"
  using assms
  by (auto simp: txn_mod_own_cert_key_type_def txn_mod_own_cert_key_data_def with_key_file_def with_row_def
      split: option.split pem.split intro!: rewrite_key_keeps)

lemma txn_del_certificate_keeps [wf_intros]:
  assumes "in_txn h s"
  shows "outcome_all (in_txn h) (txn_del_owned_certificate env node s)"
    and "outcome_all (in_txn h) (txn_del_external_certificate env node s)"
  using assms
  by (auto simp: txn_del_owned_certificate_def txn_del_external_certificate_def del_certificate_def drop_ssl_def
      drop_owned_def drop_external_def simp del: steps_simps split: option.split list.split intro!: wf_intros)
section \<open>What the files hold\<close>

text \<open>An operating system that completes every call on a file.\<close>

definition disk_ok :: "'k env \<Rightarrow> bool" where
  "disk_ok env \<longleftrightarrow>
     (\<forall>f. os_creat env f \<and> os_open env f \<and> os_truncate env f)
     \<and> (\<forall>f c. os_read env f c = Some (length c)) \<and> (\<forall>f c d. os_write env f c d = Some (length d))"

definition pem_text :: "string \<Rightarrow> string \<Rightarrow> string" where
  "pem_text key_type key_data = pem_begin key_type @ key_data @ pem_end key_type"

lemma put_file_simps [simp]:
  "put_file f a (put_file f b s) = put_file f a s"
  "file_content (put_file f c s) f = c"
  "db (put_file f c s) = db s" "next_row (put_file f c s) = next_row s" "txn (put_file f c s) = txn s"
  "files (put_file f c s) = (files s)(f \<mapsto> c)"
  by (simp_all add: put_file_def file_content_def)

lemma write_at_end [simp]: "write_at (length c) d c = c @ d" "write_at 0 d [] = d"
  by (simp_all add: write_at_def)

lemma fd_write_end:
  assumes "disk_ok env" and "file_content s f = c"
  shows "fd_write env f d (length c) s = (int (length d), length (c @ d), put_file f (c @ d) s)"
  using assms by (simp add: fd_write_def disk_ok_def)

lemma fd_writes_end:
  assumes "disk_ok env" and "file_content s f = c" and "ds \<noteq> []"
  shows "fd_writes env f ds (r, length c, s) =
           (int (length (last ds)), length (c @ concat ds), put_file f (c @ concat ds) s)"
  using assms
proof (induction ds arbitrary: c s r)
  case (Cons d ds)
  note w = fd_write_end [OF Cons.prems(1,2), of d]
  show ?case
  proof (cases "ds = []")
    case False
    then show ?thesis
      using Cons.IH [of "put_file f (c @ d) s" "c @ d" "int (length d)"] Cons.prems(1) by (simp add: w)
  qed (simp add: w)
qed simp

lemma fd_writes_new:
  assumes "disk_ok env" and "ds \<noteq> []"
  shows "fd_writes env f ds (r, 0, put_file f [] s) =
           (int (length (last ds)), length (concat ds), put_file f (concat ds) s)"
  using fd_writes_end [OF assms(1) _ assms(2), of "put_file f [] s" f "[]" r] by simp

lemma disk_ok_simps:
  "disk_ok env \<Longrightarrow> os_creat env f" "disk_ok env \<Longrightarrow> os_open env f" "disk_ok env \<Longrightarrow> os_truncate env f"
  "disk_ok env \<Longrightarrow> os_read env f c = Some (length c)"
  by (simp_all add: disk_ok_def)

lemma write_cert_ok:
  "disk_ok env \<Longrightarrow> write_cert env cert f s = Success (put_file f (cert_begin @ cert @ cert_end) s)"
  by (simp add: write_cert_def fd_writes_new disk_ok_simps del: fd_writes.simps) (simp add: cert_end_def)

lemma write_key_ok:
  "disk_ok env \<Longrightarrow> write_key env t d f s = Success (put_file f (pem_text t d) s)"
  by (simp add: write_key_def fd_writes_new disk_ok_simps del: fd_writes.simps)
    (simp add: pem_text_def pem_begin_def pem_end_def)

subsection \<open>The markers are found where they were written\<close>

lemma strstr_skip:
  assumes "hd p \<notin> set xs" and "p \<noteq> []"
  shows "strstr (xs @ ys) p = map_option ((+) (length xs)) (strstr ys p)"
  using assms
proof (induction xs)
  case Nil
  then show ?case by (simp add: map_option_idI)
next
  case (Cons x xs)
  then have "take (length p) (x # xs @ ys) \<noteq> p" by (cases p) auto
  then show ?case using Cons by (cases "strstr ys p") auto
qed

text \<open>A line break of the data is never followed by a dash, unlike the one of the end marker.\<close>

lemma strstr_lines:
  assumes "CHR ''-'' \<notin> set xs"
  shows "strstr (xs @ LF # CHR ''-'' # r) (LF # CHR ''-'' # q)
           = map_option ((+) (length xs)) (strstr (LF # CHR ''-'' # r) (LF # CHR ''-'' # q))"
  using assms
proof (induction xs)
  case Nil
  then show ?case by (simp add: map_option_idI)
next
  case (Cons x xs)
  have "take (length (LF # CHR ''-'' # q)) (x # xs @ LF # CHR ''-'' # r) \<noteq> LF # CHR ''-'' # q"
    using Cons.prems by (cases xs) auto
  then show ?case
    using Cons by (cases "strstr (LF # CHR ''-'' # r) (LF # CHR ''-'' # q)") (auto simp del: strstr.simps(1))
qed

lemma pem_end_found:
  assumes "CHR ''-'' \<notin> set d" and "LF \<notin> set t"
  shows "strstr (pem_text t d) (pem_end t) = Some (length (pem_begin t @ d))"
proof -
  let ?B = "''-----BEGIN '' @ t @ '' PRIVATE KEY-----''"
  have split: "pem_text t d = ?B @ (LF # d) @ pem_end t" by (simp add: pem_text_def pem_begin_def)
  have e: "pem_end t = LF # CHR ''-'' # ''----END '' @ t @ '' PRIVATE KEY-----''" (is "_ = LF # _ # ?q")
    by (simp add: pem_end_def)
  have "strstr ((LF # d) @ pem_end t) (pem_end t) = Some (length (LF # d))"
    using strstr_lines [of "LF # d" ?q ?q] strstr_prefix [of "pem_end t" "[]"] assms(1) by (simp add: e)
  then show ?thesis
    unfolding split using strstr_skip [of "pem_end t" ?B] assms(2) by (simp add: pem_begin_def e)
qed

lemma no_RSA_marker:
  assumes "CHR ''-'' \<notin> set d"
  shows "strstr (pem_text ''DSA'' d) (pem_begin ''RSA'') = None"
proof -
  have "strstr (d @ pem_end ''DSA'') (pem_begin ''RSA'') =
          map_option ((+) (length d)) (strstr (pem_end ''DSA'') (pem_begin ''RSA''))"
    using assms by (intro strstr_skip) (simp_all add: pem_begin_def)
  moreover have "strstr (pem_end ''DSA'') (pem_begin ''RSA'') = None" by code_simp
  ultimately show ?thesis unfolding pem_text_def by (simp add: pem_begin_def)
qed

lemma pem_markers_text:
  assumes "t = ''RSA'' \<or> t = ''DSA''" and "CHR ''-'' \<notin> set d"
  shows "pem_markers (pem_text t d) = Some (0, length (pem_begin t @ d))"
proof -
  have "strstr (pem_text t d) (pem_begin t) = Some 0"
    unfolding pem_text_def by (rule strstr_prefix)
  moreover have "strstr (pem_text t d) (pem_end t) = Some (length (pem_begin t @ d))"
    using assms by (intro pem_end_found) auto
  ultimately show ?thesis
    using assms no_RSA_marker [of d] by (auto simp: pem_markers_def)
qed
lemma no_NUL_markers: "NUL \<notin> set (pem_begin ''RSA'')" "NUL \<notin> set (pem_begin ''DSA'')"
    "NUL \<notin> set (pem_end ''RSA'')" "NUL \<notin> set (pem_end ''DSA'')"
  by (simp_all add: pem_begin_def pem_end_def)

lemma parse_pem_text:
  assumes "disk_ok env" and "files s f = Some (pem_text t d)" and "t = ''RSA'' \<or> t = ''DSA''"
    and "CHR ''-'' \<notin> set d" and "NUL \<notin> set d"
  shows "parse_pem env (Some f) s = Pem (pem_text t d) 0 (length (pem_begin t @ d))"
proof -
  have "NUL \<notin> set (pem_text t d)" using assms(3,5) no_NUL_markers by (auto simp: pem_text_def)
  then have tw: "takeWhile (\<lambda>x. x \<noteq> NUL) (pem_text t d) = pem_text t d"
    by (auto simp: takeWhile_eq_all_conv)
  show ?thesis
    using assms(1,2) pem_markers_text [OF assms(3,4)] by (simp add: parse_pem_def disk_ok_simps tw)
qed

lemma marker_lengths:
  "t = ''RSA'' \<or> t = ''DSA'' \<Longrightarrow> length (pem_begin t) = 32 \<and> length (pem_end t) = 30"
  by (auto simp: pem_begin_def pem_end_def)

lemma rewrite_key_data_text:
  assumes "disk_ok env" and "t = ''RSA'' \<or> t = ''DSA''"
  shows "rewrite_key_data env d' f (pem_text t d) 0 (length (pem_begin t @ d)) s
           = Success (put_file f (pem_text t d') s)"
proof -
  have parts: "take 32 (drop 0 (pem_text t d)) = pem_begin t"
    "take 30 (drop (length (pem_begin t @ d)) (pem_text t d)) = pem_end t"
    using marker_lengths [OF assms(2)] by (simp_all add: pem_text_def)
  show ?thesis
    using assms(1) marker_lengths [OF assms(2)]
    unfolding rewrite_key_data_def parts
    by (simp add: fd_writes_new disk_ok_simps pem_text_def del: fd_writes.simps)
qed

text \<open>Overwriting in the middle of a text.\<close>

lemma write_at_middle: "length d = length b \<Longrightarrow> write_at (length a) d (a @ b @ c) = a @ d @ c"
  by (simp add: write_at_def)

lemma fd_write_middle:
  assumes "disk_ok env" and "file_content s f = a @ b @ c" and "length d = length b" and "off = length a"
  shows "fd_write env f d off s = (int (length d), off + length d, put_file f (a @ d @ c) s)"
  using assms write_at_middle [of d b a c] by (simp add: fd_write_def disk_ok_def)

lemma rewrite_key_type_text:
  assumes "disk_ok env" and "files s f = Some (pem_text t d)" and "length t' = length t"
  shows "rewrite_key_type env t' f (pem_text t d) 0 (length (pem_begin t @ d)) s
           = Success (put_file f (pem_text t' d) s)"
proof -
  let ?p = "'' PRIVATE KEY-----'' @ [LF] @ d @ [LF] @ ''-----END ''" and ?q = "'' PRIVATE KEY-----''"
  have 1: "fd_write env f t' (0 + 11) s =
      (int (length t'), 11 + length t', put_file f (''-----BEGIN '' @ t' @ ?p @ t @ ?q) s)"
    using fd_write_middle [of env s f "''-----BEGIN ''" t "?p @ t @ ?q" t' 11] assms
    by (simp add: file_content_def pem_text_def pem_begin_def pem_end_def)
  have 2: "fd_write env f t' (length (pem_begin t @ d) + 10) (put_file f (''-----BEGIN '' @ t' @ ?p @ t @ ?q) s) =
      (int (length t'), length (pem_begin t @ d) + 10 + length t', put_file f (''-----BEGIN '' @ t' @ ?p @ t' @ ?q) s)"
    using fd_write_middle [of env "put_file f (''-----BEGIN '' @ t' @ ?p @ t @ ?q) s" f
        "''-----BEGIN '' @ t' @ ?p" t ?q t' "length (pem_begin t @ d) + 10"] assms
    by (simp add: pem_begin_def)
  have "''-----BEGIN '' @ t' @ ?p @ t' @ ?q = pem_text t' d"
    by (simp add: pem_text_def pem_begin_def pem_end_def)
  then show ?thesis unfolding rewrite_key_type_def 1 2 Let_def prod.case by (simp only: if_False order.irrefl)
qed

section \<open>Properties\<close>

text \<open>
  C32: changing the data or the type of a private key rewrites exactly that part of the key file. If
  the file holds an RSA or DSA key in the form \<^verbatim>\<open>txn_add_owned_certificate\<close> writes, with base 64 data
  (no dash, no NUL), then afterwards it holds the same text with the new data, or with the new type in
  both markers; the database is not touched. The new type must have the length of the old one.
\<close>

theorem key_file_updated:
  assumes "disk_ok env" and "find_ssl OFC_RESID_OWN (Some rid) s = Some ssl"
    and "cells (tb_ssl (db s)) ssl = Some x" and "ssl_private_key x = Some f"
    and "files s f = Some (pem_text t d)" and "t = ''RSA'' \<or> t = ''DSA''"
    and "CHR ''-'' \<notin> set d" and "NUL \<notin> set d" and "first_content n = Some v"
  shows "txn_mod_own_cert_key_data env (Some rid) (Some n) s = Success (put_file f (pem_text t v) s)
         \<and> (length v = length t \<longrightarrow>
              txn_mod_own_cert_key_type env (Some rid) (Some n) s = Success (put_file f (pem_text v d) s))"
  using assms(1-4,9) parse_pem_text [OF assms(1,5-8)] rewrite_key_data_text [OF assms(1,6)]
    rewrite_key_type_text [OF assms(1,5)]
  by (simp add: txn_mod_own_cert_key_data_def txn_mod_own_cert_key_type_def with_key_file_def with_row_def)

definition ssl_db :: db where
  "ssl_db = empty_db\<lparr>tb_ssl := one_row 1 \<lparr>ssl_certificate = Some ''/d/cert.pem'', ssl_private_key = Some ''/d/key.pem'',
     ssl_ca_cert = Some [], ssl_external_ids = [(OFC_RESID_OWN, ''own'')]\<rparr>\<rparr>"

lemma demo_disk_ok: "disk_ok demo_env"
  by (simp add: disk_ok_def)

theorem key_file_updated_witness:
  "txn_mod_own_cert_key_type demo_env (Some ''own'') (Some (Element 1 ''key-type'' None [] [] [TextNode 2 ''DSA'']))
     (put_file ''/d/key.pem'' (pem_text ''RSA'' ''abcd'') (demo_ofc ssl_db))
   = Success (put_file ''/d/key.pem'' (pem_text ''DSA'' ''abcd'') (demo_ofc ssl_db))"
  using key_file_updated [OF demo_disk_ok, of "''own''" "put_file ''/d/key.pem'' (pem_text ''RSA'' ''abcd'') (demo_ofc ssl_db)" 1
      "\<lparr>ssl_certificate = Some ''/d/cert.pem'', ssl_private_key = Some ''/d/key.pem'',
     ssl_ca_cert = Some [], ssl_external_ids = [(OFC_RESID_OWN, ''own'')]\<rparr>" "''/d/key.pem''" "''RSA''" "''abcd''"
      "Element 1 ''key-type'' None [] [] [TextNode 2 ''DSA'']" "''DSA''"]
  by (simp add: find_ssl_def find_row_def ssl_db_def ssl_has_id_def smap_get_def first_content_def)
lemma first_ovs_live:
  assumes "idl_places env" and "in_txn h s" and "first_ovs env s = (r, s')"
  shows "in_txn h s'" "live (tb_ovs (db s')) r" "tb_ssl (db s') = tb_ssl (db s)" "files s' = files s"
proof -
  show "in_txn h s'" using assms first_ovs_keeps by blast
  show "live (tb_ovs (db s')) r" "tb_ssl (db s') = tb_ssl (db s)" "files s' = files s"
    using assms(1,3)
    by (auto simp: first_ovs_def insert_row_def live_def idl_places_def Let_def split: list.splits)
qed

lemma link_ssl_effect:
  assumes "idl_places env" and "in_txn h s"
  shows "\<exists>s' ovs y. link_ssl env ssl s = Success s' \<and> tb_ssl (db s') = tb_ssl (db s) \<and> files s' = files s
           \<and> live (tb_ovs (db s')) ovs \<and> cells (tb_ovs (db s')) ovs = Some y \<and> o_ssl y = Some ssl"
proof -
  obtain r s1 where 1: "first_ovs env s = (r, s1)" by force
  note s1 = first_ovs_live [OF assms 1]
  obtain x where x: "cells (tb_ovs (db s1)) r = Some x"
      "set_ovs r ''ssl'' (\<lambda>x. x\<lparr>o_ssl := Some ssl\<rparr>) s1 =
        Success (s1\<lparr>db := tb_ovs_update (\<lambda>t. t\<lparr>cells := (cells t)(r \<mapsto> x\<lparr>o_ssl := Some ssl\<rparr>)\<rparr>) (db s1),
                    wlog := (r, ''ssl'') # wlog s1\<rparr>)"
    using ovs.set_row_live [of s1 r "''ssl''" "\<lambda>x. x\<lparr>o_ssl := Some ssl\<rparr>"] s1 by (auto simp: in_txn_def)
  let ?s = "s1\<lparr>db := tb_ovs_update (\<lambda>t. t\<lparr>cells := (cells t)(r \<mapsto> x\<lparr>o_ssl := Some ssl\<rparr>)\<rparr>) (db s1),
                wlog := (r, ''ssl'') # wlog s1\<rparr>"
  show ?thesis
    by (intro exI [where x = ?s] exI [where x = r] exI [where x = "x\<lparr>o_ssl := Some ssl\<rparr>"])
      (use x s1 in \<open>simp add: link_ssl_def 1 live_def\<close>)
qed

lemma store_owned_effect:
  assumes "disk_ok env" and "idl_places env" and "in_txn h s" and "live (tb_ssl (db s)) ssl"
  shows "\<exists>s' x ovs y. store_owned env ssl
             \<lparr>cd_resid = Some rid, cd_cert = Some cert, cd_key_type = Some t, cd_key_data = Some d\<rparr> s = Success s'
           \<and> live (tb_ssl (db s')) ssl \<and> cells (tb_ssl (db s')) ssl = Some x
           \<and> ssl_certificate x = Some (cert_pem env) \<and> ssl_private_key x = Some (key_pem env)
           \<and> smap_get (ssl_external_ids x) OFC_RESID_OWN = Some rid
           \<and> files s' (cert_pem env) = Some (cert_begin @ cert @ cert_end)
           \<and> files s' (key_pem env) = Some (pem_text t d)
           \<and> live (tb_ovs (db s')) ovs \<and> cells (tb_ovs (db s')) ovs = Some y \<and> o_ssl y = Some ssl"
proof -
  obtain x where x: "cells (tb_ssl (db s)) ssl = Some x"
    using assms(3,4) ssl.wf_get [of "next_row s" "db s"] by (auto simp: in_txn_def store_wf_def twf_def live_def)
  let ?fs = "[write_cert env cert (cert_pem env),
             set_ssl ssl ''certificate'' (\<lambda>x. x\<lparr>ssl_certificate := Some (cert_pem env)\<rparr>),
             write_key env t d (key_pem env),
             set_ssl ssl ''private_key'' (\<lambda>x. x\<lparr>ssl_private_key := Some (key_pem env)\<rparr>),
             set_ssl ssl ''external_ids''
               (\<lambda>x. x\<lparr>ssl_external_ids := smap_replace OFC_RESID_OWN rid (ssl_external_ids x)\<rparr>)]"
  have "\<exists>s1 y. steps ?fs s = Success s1 \<and> order (tb_ssl (db s1)) = order (tb_ssl (db s))
      \<and> cells (tb_ssl (db s1)) ssl = Some y \<and> ssl_certificate y = Some (cert_pem env)
      \<and> ssl_private_key y = Some (key_pem env) \<and> smap_get (ssl_external_ids y) OFC_RESID_OWN = Some rid
      \<and> files s1 (cert_pem env) = Some (cert_begin @ cert @ cert_end)
      \<and> files s1 (key_pem env) = Some (pem_text t d)"
    using assms(4) x by (simp add: write_cert_ok write_key_ok assms(1) set_row_def change_row_def live_def)
  then obtain s1 y where s1: "steps ?fs s = Success s1" "order (tb_ssl (db s1)) = order (tb_ssl (db s))"
      "cells (tb_ssl (db s1)) ssl = Some y" "ssl_certificate y = Some (cert_pem env)"
      "ssl_private_key y = Some (key_pem env)" "smap_get (ssl_external_ids y) OFC_RESID_OWN = Some rid"
      "files s1 (cert_pem env) = Some (cert_begin @ cert @ cert_end)"
      "files s1 (key_pem env) = Some (pem_text t d)"
    by blast
  have "outcome_all (in_txn h) (steps ?fs s)"
    using assms(3) by (auto simp del: steps_simps intro!: wf_intros)
  then have "in_txn h s1" by (simp only: s1(1) outcome_all.simps)
  then obtain s2 ovs z where s2: "link_ssl env ssl s1 = Success s2" "tb_ssl (db s2) = tb_ssl (db s1)" "files s2 = files s1"
      "live (tb_ovs (db s2)) ovs" "cells (tb_ovs (db s2)) ovs = Some z" "o_ssl z = Some ssl"
    using link_ssl_effect [OF assms(2)] by blast
  have "steps (?fs @ [link_ssl env ssl]) s = Success s2"
    unfolding steps_append s1(1) by (simp add: s2(1))
  then have "store_owned env ssl
      \<lparr>cd_resid = Some rid, cd_cert = Some cert, cd_key_type = Some t, cd_key_data = Some d\<rparr> s = Success s2"
    by (simp add: store_owned_def del: steps_simps)
  then show ?thesis using s1(2-8) s2(2-6) assms(4)
    by (intro exI [where x = s2] exI [where x = y] exI [where x = ovs] exI [where x = z]) (simp add: live_def)
qed

text \<open>No SSL record carries another resource id of the given kind.\<close>

definition no_other_id :: "string \<Rightarrow> string \<Rightarrow> 'k ofc \<Rightarrow> bool" where
  "no_other_id type rid s \<longleftrightarrow>
     (\<forall>ssl x. live (tb_ssl (db s)) ssl \<longrightarrow> cells (tb_ssl (db s)) ssl = Some x \<longrightarrow>
        smap_get (ssl_external_ids x) type \<in> {None, Some rid})"

lemma ssl_to_fill_effect:
  assumes "idl_places env" and "in_txn h s" and "get_key n ''resource-id'' = Some rid"
    and "no_other_id type rid s"
  shows "\<exists>ssl r s1. r \<in> {None, Some rid} \<and> in_txn h s1 \<and> live (tb_ssl (db s1)) ssl \<and> files s1 = files s
           \<and> ssl_to_fill env type msg n k s = k ssl r s1"
proof (cases "order (tb_ssl (db s))")
  case Nil
  obtain ssl s1 where 1: "insert_row env tb_ssl_update (new_ssl env) s = (ssl, s1)" by (rule prod.exhaust)
  have "in_txn h s1" using assms(1,2) 1 by (rule ssl.insert_in_txn)
  moreover have "live (tb_ssl (db s1)) ssl" "files s1 = files s"
    using ssl.insert_row_live [OF assms(1) 1] by simp_all
  ultimately show ?thesis
    by (intro exI [where x = ssl] exI [where x = None] exI [where x = s1]) (simp add: ssl_to_fill_def Nil 1)
next
  case (Cons ssl rest)
  then have live: "live (tb_ssl (db s)) ssl" by (simp add: live_def)
  then obtain x where x: "cells (tb_ssl (db s)) ssl = Some x" using ssl.live_row [OF assms(2)] by blast
  have "smap_get (ssl_external_ids x) type \<in> {None, Some rid}" using assms(4) live x by (auto simp: no_other_id_def)
  then have eq: "ssl_to_fill env type msg n k s = k ssl (Some rid) s"
    by (simp only: ssl_to_fill_def with_row_def Cons list.case x option.case assms(3) if_False not_True_eq_False)
  show ?thesis
    by (intro exI [where x = ssl] exI [where x = "Some rid"] exI [where x = s]) (use live assms(2) in \<open>simp add: eq\<close>)
qed

text \<open>
  C31: adding an owned certificate stores it. If no SSL record has the id of another owned certificate
  and the element has all its parts, \<^verbatim>\<open>txn_add_owned_certificate\<close> succeeds: one SSL record refers to the
  certificate and key file and carries the resource id, the files hold the certificate and the key
  between their markers, and the Open_vSwitch table refers to that record.
\<close>

theorem owned_certificate_stored:
  assumes "disk_ok env" and "idl_places env" and "in_txn h s" and "get_key n ''resource-id'' = Some rid"
    and free: "no_other_id OFC_RESID_OWN rid s"
    and data: "\<forall>r \<in> {None, Some rid}. fold owned_child (children n) (no_cert_data r) =
           \<lparr>cd_resid = Some rid, cd_cert = Some cert, cd_key_type = Some t, cd_key_data = Some d\<rparr>"
  shows "\<exists>s' ssl x ovs y. txn_add_owned_certificate env (Some n) s = Success s'
           \<and> live (tb_ssl (db s')) ssl \<and> cells (tb_ssl (db s')) ssl = Some x
           \<and> ssl_certificate x = Some (cert_pem env) \<and> ssl_private_key x = Some (key_pem env)
           \<and> smap_get (ssl_external_ids x) OFC_RESID_OWN = Some rid
           \<and> files s' (cert_pem env) = Some (cert_begin @ cert @ cert_end)
           \<and> files s' (key_pem env) = Some (pem_text t d)
           \<and> live (tb_ovs (db s')) ovs \<and> cells (tb_ovs (db s')) ovs = Some y \<and> o_ssl y = Some ssl"
proof -
  let ?k = "\<lambda>ssl resid. store_owned env ssl (fold owned_child (children n) (no_cert_data resid))"
  obtain ssl r s1 where r: "r \<in> {None, Some rid}" and s1: "in_txn h s1" "live (tb_ssl (db s1)) ssl"
    and eq: "ssl_to_fill env OFC_RESID_OWN ''OVS allows to use only a single owned certificate'' n ?k s = ?k ssl r s1"
    using ssl_to_fill_effect [OF assms(2-4) free, where k = ?k
        and msg = "''OVS allows to use only a single owned certificate''"]
    by (elim exE conjE) (rule that)
  have "txn_add_owned_certificate env (Some n) s = store_owned env ssl
      \<lparr>cd_resid = Some rid, cd_cert = Some cert, cd_key_type = Some t, cd_key_data = Some d\<rparr> s1"
    unfolding txn_add_owned_certificate_def option.case eq bspec [OF data r] ..
  then show ?thesis using store_owned_effect [OF assms(1,2) s1, of rid cert t d] by (simp only:) blast
qed

definition owned_xml :: xmlnode where
  "owned_xml = Element 1 ''owned-certificate'' None [] []
     [Element 2 ''resource-id'' None [] [] [TextNode 3 ''own''],
      Element 4 ''certificate'' None [] [] [TextNode 5 ''MIIC''],
      Element 6 ''private-key'' None [] []
        [Element 7 ''key-type'' None [] [] [TextNode 8 ''RSA''],
         Element 9 ''key-data'' None [] [] [TextNode 10 ''MIIE'']]]"

theorem owned_certificate_stored_witness:
  "\<exists>s'. txn_add_owned_certificate demo_env (Some owned_xml) (demo_ofc empty_db) = Success s'
        \<and> files s' ''/d/cert.pem'' = Some (cert_begin @ ''MIIC'' @ cert_end)
        \<and> files s' ''/d/key.pem'' = Some (pem_text ''RSA'' ''MIIE'')"
proof -
  have "in_txn (TxnOpen empty_db) (demo_ofc empty_db)" by (simp add: in_txn_def store_wf_def)
  moreover have "get_key owned_xml ''resource-id'' = Some ''own''"
    by (simp add: owned_xml_def get_key_def go2node_def is_blank_node_def)
  ultimately show ?thesis
    using owned_certificate_stored [OF demo_disk_ok demo_env_places, of "TxnOpen empty_db" "demo_ofc empty_db"
        owned_xml "''own''" "''MIIC''" "''RSA''" "''MIIE''"]
    by (auto simp: no_other_id_def live_def owned_xml_def owned_child_def key_leaf_def first_content_def)
qed

text \<open>
  deleting the element \<^verbatim>\<open>certificate\<close> of an owned certificate removes the certificate file but empties
  the column of the CA certificate: the record still refers to the removed file, and the external
  certificate is lost.
\<close>

lemma owned_certificate_removal_clears_ca:
  assumes "in_txn h s" and "find_ssl OFC_RESID_OWN (Some rid) s = Some ssl"
    and "cells (tb_ssl (db s)) ssl = Some x" and "os_unlink env (cert_pem env)"
  shows "\<exists>s'. txn_mod_own_cert_certificate env (Some rid) None s = Success s'
          \<and> cells (tb_ssl (db s')) ssl = Some (x\<lparr>ssl_ca_cert := Some []\<rparr>) \<and> files s' (cert_pem env) = None"
proof -
  have "live (tb_ssl (db s)) ssl" using assms(2) by (auto simp: find_ssl_def dest: find_row_Some)
  then show ?thesis using assms
    by (simp add: txn_mod_own_cert_certificate_def set_row_def change_row_def unlink_file_def live_def)
qed

lemma owned_certificate_removal_clears_ca_example:
  "\<exists>s'. txn_mod_own_cert_certificate demo_env (Some ''own'') None (demo_ofc ssl_db) = Success s'
        \<and> map_option ssl_certificate (cells (tb_ssl (db s')) 1) = Some (Some ''/d/cert.pem'')
        \<and> files s' ''/d/cert.pem'' = None"
proof -
  have "in_txn (TxnOpen ssl_db) (demo_ofc ssl_db)" by (simp add: in_txn_def store_wf_def ssl_db_def db_wf_def)
  then show ?thesis
    using owned_certificate_removal_clears_ca [of "TxnOpen ssl_db" "demo_ofc ssl_db" "''own''" 1 _ demo_env]
    by (auto simp: find_ssl_def find_row_def ssl_db_def ssl_has_id_def smap_get_def)
qed

end
