(* ===== verification/Ovs_OpenFlow.thy ===== *)
theory Ovs_OpenFlow
  imports Ovs_Cert
begin

text \<open>
  The configuration of ports through OpenFlow (\<^verbatim>\<open>of_open_vconn\<close>, \<^verbatim>\<open>of_mod_port_cfg\<close> and \<^verbatim>\<open>of_post_ports\<close> of
  \<^verbatim>\<open>ovs-data.c\<close>). The connection to the switch and its answers are part of the environment.
\<close>

section \<open>Connecting to a bridge\<close>

text \<open>
  One attempt: the name itself if it has a colon, otherwise the first of three sockets that can be opened.
  The outer \<open>None\<close>: \<^verbatim>\<open>vconn_open\<close> failed for a name with a colon, and the code goes on with a NULL
  connection.
\<close>

definition vconn_names :: "'k env \<Rightarrow> string \<Rightarrow> string list" where
  "vconn_names env name =
     [''unix:'' @ name, ''unix:'' @ ovs_rundir env @ ''/'' @ name @ ''.mgmt'',
      ''unix:'' @ ovs_rundir env @ ''/'' @ dp_parse_name env name @ ''.mgmt'']"

definition of_open_vconn_socket :: "'k env \<Rightarrow> nat \<Rightarrow> string \<Rightarrow> string option option" where
  "of_open_vconn_socket env i name =
     (if CHR '':'' \<in> set name then (if vconn_open env i name then Some (Some name) else None)
      else Some (find (vconn_open env i) (vconn_names env name)))"

text \<open>
  The loop: \<open>n\<close> attempts are left. Every failed attempt closes the connection, so the loop ends with a
  connection without error or when all attempts are used up.
\<close>

fun connect_loop :: "'k env \<Rightarrow> string \<Rightarrow> nat \<Rightarrow> nat \<Rightarrow> string option option" where
  "connect_loop env name i 0 = Some None"
| "connect_loop env name i (Suc n) =
     (case of_open_vconn_socket env i name of
        None \<Rightarrow> None
      | Some None \<Rightarrow> connect_loop env name (Suc i) n
      | Some (Some c) \<Rightarrow> if vconn_connect env i c = 0 then Some (Some c) else connect_loop env name (Suc i) n)"

definition of_open_vconn :: "'k env \<Rightarrow> string \<Rightarrow> string option option" where
  "of_open_vconn env name =
     (case connect_loop env name 0 30 of
        None \<Rightarrow> None
      | Some None \<Rightarrow> Some None
      | Some (Some c) \<Rightarrow> Some (if ofp_supported env c then Some c else None))"

section \<open>Changing a port\<close>

text \<open>
  \<^verbatim>\<open>of_mod_port_cfg_internal\<close>. \<^verbatim>\<open>of_get_ports\<close> reads the reply even if there is none. When the switch answers
  the change with an error, the message is made from the list of ports, not from that answer.
\<close>

definition of_mod_port_cfg_internal ::
  "'k env \<Rightarrow> string \<Rightarrow> string \<Rightarrow> of_bit \<Rightarrow> bool \<Rightarrow> 'k ofc \<Rightarrow> 'k ofc outcome" where
  "of_mod_port_cfg_internal env vconn port_name cfg val s =
     (case of_port_desc env (kst s) vconn of
        OfLost \<Rightarrow> Undef
      | OfOther \<Rightarrow> fail (err_text NC_ERR_OP_FAILED ''Unexpected response via OpenFlow.'') s
      | OfPorts ports \<Rightarrow>
          (case find (\<lambda>(name, port_no). name = port_name) ports of
             None \<Rightarrow> fail (err_text NC_ERR_OP_FAILED ''Modification of unknown port.'') s
           | Some (name, port_no) \<Rightarrow>
               (let (ret, mod_reply, k) = of_port_mod env vconn port_no cfg val (kst s);
                    s' = s\<lparr>kst := k\<rparr>
                in if ret \<noteq> 0 then fail (err_text NC_ERR_OP_FAILED (ovs_strerror env ret)) s'
                   else if mod_reply then fail (err_text NC_ERR_OP_FAILED (ofp_to_string env (OfPorts ports))) s'
                   else Success s')))"

text \<open>
  \<^verbatim>\<open>find_bridge_with_port\<close>: the name of the first bridge with a port that has an interface of the name.
  The outer \<open>None\<close> is the read of a freed row or of a missing name.
\<close>

fun scan_any :: "('a \<Rightarrow> bool option) \<Rightarrow> 'a list \<Rightarrow> bool option" where
  "scan_any f [] = Some False"
| "scan_any f (x # xs) =
     (case f x of None \<Rightarrow> None | Some b \<Rightarrow> if b then Some True else scan_any f xs)"

definition iface_named :: "'k ofc \<Rightarrow> string \<Rightarrow> rowid \<Rightarrow> bool option" where
  "iface_named s p i =
     (case cells (tb_iface (db s)) i of
        None \<Rightarrow> None
      | Some x \<Rightarrow> map_option (\<lambda>n. n = p) (i_name x))"

definition port_has_iface :: "'k ofc \<Rightarrow> string \<Rightarrow> rowid \<Rightarrow> bool option" where
  "port_has_iface s p port =
     (case cells (tb_port (db s)) port of
        None \<Rightarrow> None
      | Some x \<Rightarrow> scan_any (iface_named s p) (p_interfaces x))"

fun scan_bridges :: "'k ofc \<Rightarrow> string \<Rightarrow> rowid list \<Rightarrow> string option option" where
  "scan_bridges s p [] = Some None"
| "scan_bridges s p (b # bs) =
     (case cells (tb_bridge (db s)) b of
        None \<Rightarrow> None
      | Some x \<Rightarrow>
          (case scan_any (port_has_iface s p) (br_ports x) of
             None \<Rightarrow> None
           | Some found \<Rightarrow> if found then Some (br_name x) else scan_bridges s p bs))"

text \<open>With a NULL name the first comparison is undefined; with no interface to compare there is none.\<close>

definition has_interfaces :: "'k ofc \<Rightarrow> bool" where
  "has_interfaces s \<longleftrightarrow>
     list_ex (\<lambda>b. case cells (tb_bridge (db s)) b of
                    None \<Rightarrow> True
                  | Some x \<Rightarrow> list_ex (\<lambda>p. case cells (tb_port (db s)) p of
                                         None \<Rightarrow> True
                                       | Some y \<Rightarrow> p_interfaces y \<noteq> []) (br_ports x))
       (order (tb_bridge (db s)))"

definition find_bridge_with_port :: "'k ofc \<Rightarrow> string option \<Rightarrow> string option option" where
  "find_bridge_with_port s port_name =
     (case port_name of
        None \<Rightarrow> if has_interfaces s then None else Some None
      | Some p \<Rightarrow> scan_bridges s p (order (tb_bridge (db s))))"

definition port_cfg_bit :: "string \<Rightarrow> of_bit option" where
  "port_cfg_bit n =
     (if n = ''no-receive'' then Some OFPUTIL_PC_NO_RECV
      else if n = ''no-forward'' then Some OFPUTIL_PC_NO_FWD
      else if n = ''no-packet-in'' then Some OFPUTIL_PC_NO_PACKET_IN
      else if n = ''admin-state'' then Some OFPUTIL_PC_PORT_DOWN
      else None)"

definition port_cfg_value :: "of_bit \<Rightarrow> string option \<Rightarrow> bool option" where
  "port_cfg_value cfg value =
     (let (off, on) = (if cfg = OFPUTIL_PC_PORT_DOWN then (''up'', ''down'') else (''false'', ''true'')) in
      if value = None \<or> value = Some off then Some False
      else if value = Some on then Some True
      else None)"

definition of_mod_port_cfg ::
  "'k env \<Rightarrow> string option \<Rightarrow> string \<Rightarrow> string option \<Rightarrow> 'k ofc \<Rightarrow> 'k ofc outcome" where
  "of_mod_port_cfg env port_name node value s =
     (case find_bridge_with_port s port_name of
        None \<Rightarrow> Undef
      | Some None \<Rightarrow> fail (err_text NC_ERR_OP_FAILED ''The bridge with the port being modified not found.'') s
      | Some (Some br) \<Rightarrow>
          (case (port_name, port_cfg_bit node) of
             (None, _) \<Rightarrow> Undef
           | (Some p, None) \<Rightarrow> fail (bad_elem node ''Invalid element name.'') s
           | (Some p, Some cfg) \<Rightarrow>
               if cfg = OFPUTIL_PC_PORT_DOWN \<and> dev_is_system env s p
               then txn_mod_port_admin_state env port_name value s
               else
                 (case port_cfg_value cfg value of
                    None \<Rightarrow> fail (bad_elem node ''Invalid element value.'') s
                  | Some val \<Rightarrow>
                      (case of_open_vconn env br of
                         None \<Rightarrow> Undef
                       | Some None \<Rightarrow>
                           fail (err_text NC_ERR_OP_FAILED ''Unable to connect to the bridge via openFlow.'') s
                       | Some (Some vconn) \<Rightarrow> of_mod_port_cfg_internal env vconn p cfg val s))))"

section \<open>Ports of a committed configuration\<close>

text \<open>
  \<^verbatim>\<open>of_post_ports\<close> runs after the commit, when interfaces were added. The XPath expression
  \<^verbatim>\<open>//ofc:port/ofc:configuration/..\<close> selects the port elements of the namespace that have a configuration
  of the namespace, in document order.
\<close>

definition ofc_ns :: string where
  "ofc_ns = ''urn:onf:config:yang''"

definition in_ofc_ns :: "xmlnode \<Rightarrow> string \<Rightarrow> bool" where
  "in_ofc_ns x n \<longleftrightarrow>
     is_element x \<and> node_name x = n \<and> (case node_ns x of None \<Rightarrow> False | Some ns \<Rightarrow> href ns = ofc_ns)"

fun configured_ports :: "xmlnode \<Rightarrow> xmlnode list" where
  "configured_ports (Element i n s d p k) =
     (if in_ofc_ns (Element i n s d p k) ''port'' \<and> list_ex (\<lambda>c. in_ofc_ns c ''configuration'') k
      then [Element i n s d p k] else [])
     @ concat (map configured_ports k)"
| "configured_ports x = []"

definition post_port :: "'k env \<Rightarrow> xmlnode \<Rightarrow> 'k ofc \<Rightarrow> 'k ofc outcome" where
  "post_port env port s =
     (case go2node (Some port) ''configuration'' of
        None \<Rightarrow> Success s
      | Some cfg \<Rightarrow>
          for_each (\<lambda>aux. of_mod_port_cfg env (get_key port ''name'') (node_name aux) (first_content aux))
            (children cfg) s)"

definition of_post_ports :: "'k env \<Rightarrow> xmldoc option \<Rightarrow> 'k ofc \<Rightarrow> 'k ofc outcome" where
  "of_post_ports env doc s =
     (case doc of
        None \<Rightarrow> Success s
      | Some d \<Rightarrow>
          if \<not> added_interface s then Success s
          else for_each (post_port env) (concat (map configured_ports d)) s)"

section \<open>Lemmas\<close>

text \<open>When and how an attempt connects.\<close>

definition attempt :: "'k env \<Rightarrow> string \<Rightarrow> nat \<Rightarrow> string option option" where
  "attempt env name i =
     (case of_open_vconn_socket env i name of
        None \<Rightarrow> None
      | Some None \<Rightarrow> Some None
      | Some (Some c) \<Rightarrow> Some (if vconn_connect env i c = 0 then Some c else None))"

lemma connect_loop_Suc:
  "connect_loop env name i (Suc n) =
     (case attempt env name i of
        None \<Rightarrow> None | Some None \<Rightarrow> connect_loop env name (Suc i) n | Some (Some c) \<Rightarrow> Some (Some c))"
  by (auto simp: attempt_def split: option.split)

lemma connect_loop_connected:
  "connect_loop env name i n = Some (Some c) \<longleftrightarrow>
     (\<exists>k < n. attempt env name (i + k) = Some (Some c) \<and> (\<forall>j < k. attempt env name (i + j) = Some None))"
proof (induction n arbitrary: i)
  case (Suc n)
  show ?case
  proof (cases "attempt env name i")
    case None
    then show ?thesis by (auto simp: connect_loop_Suc simp del: connect_loop.simps) (metis add.right_neutral not_gr0 option.distinct(1))
  next
    case (Some r)
    show ?thesis
    proof (cases r)
      case None
      have "(\<exists>k < Suc n. attempt env name (i + k) = Some (Some c) \<and> (\<forall>j < k. attempt env name (i + j) = Some None))
          \<longleftrightarrow> (\<exists>k < n. attempt env name (Suc i + k) = Some (Some c) \<and> (\<forall>j < k. attempt env name (Suc i + j) = Some None))"
        using Some None by (auto simp: Ex_less_Suc2 All_less_Suc2)
      then show ?thesis using Suc.IH [of "Suc i"] Some None by (simp add: connect_loop_Suc del: connect_loop.simps)
    next
      case (Some c')
      then show ?thesis using \<open>attempt env name i = Some r\<close>
        by (auto simp: connect_loop_Suc Ex_less_Suc2 simp del: connect_loop.simps)
    qed
  qed
qed simp

lemma of_mod_port_cfg_keeps [wf_intros]:
  "in_txn h s \<Longrightarrow> outcome_all (in_txn h) (of_mod_port_cfg env p n v s)"
  by (auto simp: of_mod_port_cfg_def of_mod_port_cfg_internal_def Let_def
      split: option.split of_reply.split prod.split intro!: wf_intros)

section \<open>Properties\<close>

text \<open>
  C33: connecting to a bridge. \<^verbatim>\<open>of_open_vconn\<close> always returns; it gives a connection exactly if one of the
  first 30 attempts connects, no earlier one was undefined, and the version is supported. So a bridge
  whose socket is ready by the thirtieth attempt is reached.
\<close>

theorem connection_established:
  "of_open_vconn env name = Some (Some c) \<longleftrightarrow>
     ofp_supported env c
     \<and> (\<exists>k < 30. attempt env name k = Some (Some c) \<and> (\<forall>j < k. attempt env name j = Some None))"
  using connect_loop_connected [of env name 0 30 c]
  by (auto simp: of_open_vconn_def simp del: connect_loop.simps split: option.splits if_splits)

theorem connection_established_witness:
  "of_open_vconn demo_env ''br0'' = Some (Some ''unix:br0'')"
proof -
  have "attempt demo_env ''br0'' 1 = Some (Some ''unix:br0'')" "attempt demo_env ''br0'' 0 = Some None"
    by (simp_all add: attempt_def of_open_vconn_socket_def vconn_names_def)
  then show ?thesis
    unfolding connection_established by (intro conjI exI [where x = 1]) simp_all
qed




end
