(* ===== verification/Edit_Run.thy ===== *)
theory Edit_Run
  imports Edit_Check Ovs_OpenFlow
begin

text \<open>
  The running datastore: how \<^verbatim>\<open>edit_delete\<close> and \<^verbatim>\<open>edit_create\<close> of \<^verbatim>\<open>edit-config.c\<close> turn a node of the
  configuration into calls of \<^verbatim>\<open>ovs-data.c\<close>. Both functions look at the names of the node, its parent
  and its grandparent. A branch either calls an operation, or works through the children of the
  node, or takes one child. The node itself is unlinked by the caller when the result is a success.
\<close>

section \<open>Keys of ancestors\<close>

text \<open>
  \<^verbatim>\<open>get_key(node->parent->...->parent, name)\<close> with \<open>k + 1\<close> times \<^verbatim>\<open>parent\<close>. The parent of the root element is the
  document, which \<^verbatim>\<open>go2node\<close> searches like an element; \<^verbatim>\<open>get_key\<close> of NULL is undefined.
\<close>

definition key_at :: "ancestors \<Rightarrow> nat \<Rightarrow> string \<Rightarrow> string option option" where
  "key_at as k name =
     (if k < length as then Some (get_key (as ! k) name)
      else if k = length as \<and> as \<noteq> [] then Some (get_key (Element 0 [] None [] [] [last as]) name)
      else None)"

definition with_key :: "ancestors \<Rightarrow> nat \<Rightarrow> string \<Rightarrow> (string option \<Rightarrow> 'k ofc outcome) \<Rightarrow> 'k ofc outcome" where
  "with_key as k name f = (case key_at as k name of None \<Rightarrow> Undef | Some key \<Rightarrow> f key)"

text \<open>A call whose result the code does not look at.\<close>

fun ignore_result :: "'s outcome \<Rightarrow> 's outcome" where
  "ignore_result (Failure e s) = Success s"
| "ignore_result m = m"

datatype 'k visit = Here "'k ofc outcome" | Children | Inner xmlnode

abbreviation tunnel_names :: "string list" where
  "tunnel_names \<equiv> [''ipgre-tunnel'', ''vxlan-tunnel'', ''tunnel'']"

abbreviation bad_leafref :: "string \<Rightarrow> nc_err" where
  "bad_leafref n \<equiv> bad_elem n ''invalid resources leafref''"

section \<open>Deletion\<close>

text \<open>Children of \<^verbatim>\<open>resources\<close>: of the capable switch, or references of a logical switch.\<close>

definition delete_resource :: "'k env \<Rightarrow> xmlnode \<Rightarrow> 'k ofc \<Rightarrow> 'k ofc outcome" where
  "delete_resource env node s =
     (let n = node_name node in
      if n = ''port'' then txn_del_port (get_key node ''name'') s
      else if n = ''queue'' then txn_del_queue env (get_key node ''resource-id'') s
      else if n = ''owned-certificate'' then txn_del_owned_certificate env (Some node) s
      else if n = ''external-certificate'' then txn_del_external_certificate env (Some node) s
      else if n = ''flow-table'' then txn_del_flow_table (get_key node ''table-id'') s
      else Success s)"

definition delete_reference :: "'k env \<Rightarrow> xmlnode \<Rightarrow> ancestors \<Rightarrow> 'k ofc \<Rightarrow> 'k ofc outcome" where
  "delete_reference env node as s =
     with_key as 1 ''id'' (\<lambda>key.
       case first_content node of
         None \<Rightarrow> fail (bad_leafref (node_name node)) s
       | Some aux \<Rightarrow>
           if node_name node = ''port'' then txn_del_bridge_port env key (Some aux) s
           else if node_name node = ''flow-table'' then txn_del_bridge_flowtable env key (Some aux) s
           else Success s)"

text \<open>Children of a port, and what is below \<^verbatim>\<open>configuration\<close>, \<^verbatim>\<open>advertised\<close> and the tunnels.\<close>

definition delete_in_port :: "'k env \<Rightarrow> xmlnode \<Rightarrow> ancestors \<Rightarrow> 'k ofc \<Rightarrow> 'k visit" where
  "delete_in_port env node as s =
     (let n = node_name node; key = get_key (hd as) ''name'' in
      if n = ''requested-number'' then Here (txn_mod_port_reqnumber key None s)
      else if n \<in> set tunnel_names then Here (txn_del_port_tunnel env key s)
      else if n = ''features'' then
        (case go2node (Some node) ''advertised'' of None \<Rightarrow> Here (Success s) | Some child \<Rightarrow> Inner child)
      else Children)"

definition delete_adverts :: "'k env \<Rightarrow> xmlnode \<Rightarrow> ancestors \<Rightarrow> 'k ofc \<Rightarrow> 'k ofc outcome" where
  "delete_adverts env node as s =
     with_key as 1 ''name'' (\<lambda>key. for_each (\<lambda>child. txn_del_port_advert env key (Some child)) (children node) s)"

text \<open>Certificates. The branch for children of \<^verbatim>\<open>owned-certificate\<close> also takes \<^verbatim>\<open>private-key\<close>.\<close>

definition delete_in_key :: "'k env \<Rightarrow> xmlnode \<Rightarrow> ancestors \<Rightarrow> 'k ofc \<Rightarrow> 'k ofc outcome" where
  "delete_in_key env node as s =
     with_key as 1 ''resource-id'' (\<lambda>key.
       if node_name node = ''key-type'' then txn_mod_own_cert_key_type env key None s
       else if node_name node = ''key-data'' then txn_mod_own_cert_key_data env key None s
       else Success s)"

definition delete_in_flow_table :: "xmlnode \<Rightarrow> ancestors \<Rightarrow> 'k ofc \<Rightarrow> 'k ofc outcome" where
  "delete_in_flow_table node as s =
     (let key = get_key (hd as) ''table-id'' in
      if node_name node = ''name'' then txn_mod_flowtable_name key None s
      else if node_name node = ''resource-id'' then txn_mod_flowtable_resid key None s
      else Success s)"

text \<open>Children of a switch and of a controller.\<close>

definition delete_in_switch :: "xmlnode \<Rightarrow> ancestors \<Rightarrow> 'k ofc \<Rightarrow> 'k visit" where
  "delete_in_switch node as s =
     (let n = node_name node; key = get_key (hd as) ''id'' in
      if n = ''datapath-id'' then Here (txn_mod_bridge_datapath key None s)
      else if n = ''controllers'' \<or> n = ''resources'' then Children
      else if n = ''lost-connection-behavior'' then Here (txn_mod_bridge_failmode key None s)
      else Here (Success s))"

definition delete_in_controller :: "xmlnode \<Rightarrow> ancestors \<Rightarrow> 'k ofc \<Rightarrow> 'k ofc outcome" where
  "delete_in_controller node as s =
     (let n = node_name node; key = get_key (hd as) ''id'' in
      if n = ''local-ip-address'' then txn_mod_contr_lip key None s
      else if n = ''ip-address'' \<or> n = ''port'' \<or> n = ''protocol'' then txn_mod_contr_target key (Some n) None s
      else Success s)"

text \<open>The chain of conditions of \<^verbatim>\<open>edit_delete\<close> for an element that is not the root.\<close>

definition delete_visit :: "'k env \<Rightarrow> xmlnode \<Rightarrow> ancestors \<Rightarrow> 'k ofc \<Rightarrow> 'k visit" where
  "delete_visit env node as s =
     (let n = node_name node; p = node_name (hd as); gp = anc_name as 1 in
      if p = ''capable-switch'' then
        (if n = ''id'' then Here (ignore_result (ofc_set_switchid None s)) else Children)
      else if p = ''resources'' then
        (if gp = Some ''capable-switch'' then Here (delete_resource env node s)
         else Here (delete_reference env node as s))
      else if p = ''port'' then delete_in_port env node as s
      else if p = ''configuration'' then
        Here (with_key as 1 ''name'' (\<lambda>key. of_mod_port_cfg env key n None s))
      else if n = ''advertised'' then Here (delete_adverts env node as s)
      else if p = ''advertised'' then
        Here (with_key as 2 ''name'' (\<lambda>key. txn_del_port_advert env key (Some node) s))
      else if p \<in> set tunnel_names then
        Here (with_key as 1 ''name'' (\<lambda>key. txn_mod_port_tunnel_opt key (Some n) None s))
      else if p = ''queue'' then
        (if n = ''port'' then Here (txn_del_queue_port env (get_key (hd as) ''resource-id'') s)
         else if n = ''properties'' then Children
         else Here (Success s))
      else if p = ''properties'' then
        Here (with_key as 1 ''resource-id'' (\<lambda>key. txn_mod_queue_options key (Some n) None s))
      else if p = ''owned-certificate'' then
        Here (txn_mod_own_cert_certificate env (get_key (hd as) ''resource-id'') None s)
      else if n = ''private-key'' then Children
      else if p = ''private-key'' then Here (delete_in_key env node as s)
      else if p = ''external-certificate'' then
        Here (txn_mod_ext_cert_certificate env (get_key (hd as) ''resource-id'') None s)
      else if p = ''flow-table'' then Here (delete_in_flow_table node as s)
      else if n = ''switch'' then Here (txn_del_bridge env (get_key node ''id'') s)
      else if p = ''switch'' then delete_in_switch node as s
      else if n = ''controller'' then
        Here (with_key as 1 ''id'' (\<lambda>aux. txn_del_contr env (get_key node ''id'') aux s))
      else if p = ''controller'' then Here (delete_in_controller node as s)
      else Here (Success s))"

lemma delete_visit_Inner: "delete_visit env node as s = Inner c \<Longrightarrow> size c < size node"
  by (auto simp: delete_visit_def delete_in_port_def delete_in_switch_def Let_def go2node_size
      split: if_splits option.splits)

text \<open>
  \<^verbatim>\<open>edit_delete\<close> on a node below the root. \<open>run_delete_list\<close> is the loop
  \<^verbatim>\<open>while (node->children) { edit_delete(node->children) }\<close>: the child is unlinked before the next round, so
  a failure leaves a smaller node behind. The result carries what is left of the node.
\<close>

function run_delete :: "'k env \<Rightarrow> xmlnode \<Rightarrow> ancestors \<Rightarrow> 'k ofc \<Rightarrow> (xmlnode \<times> 'k ofc) outcome"
  and run_delete_list ::
    "'k env \<Rightarrow> xmlnode \<Rightarrow> xmlnode list \<Rightarrow> ancestors \<Rightarrow> 'k ofc \<Rightarrow> (xmlnode list \<times> 'k ofc) outcome" where
  "run_delete env node as s =
     (if \<not> is_element node then Success (node, s)
      else case delete_visit env node as s of
             Here r \<Rightarrow> map_outcome (Pair node) r
           | Children \<Rightarrow>
               map_outcome (\<lambda>(ks, s). (set_children ks node, s)) (run_delete_list env node (children node) as s)
           | Inner child \<Rightarrow>
               map_outcome (\<lambda>(c, s). (set_children (map (\<lambda>x. if x = child then c else x) (children node)) node, s))
                 (run_delete env child (node # as) s))"
| "run_delete_list env node [] as s = Success ([], s)"
| "run_delete_list env node (c # cs) as s =
     (case run_delete env c (set_children (c # cs) node # as) s of
        Success (_, s') \<Rightarrow> run_delete_list env node cs as s'
      | Failure e (c', s') \<Rightarrow> Failure e (c' # cs, s')
      | Undef \<Rightarrow> Undef)"
  by pat_completeness auto
termination
proof (relation "measure (\<lambda>x. case x of Inl (env, node, as, s) \<Rightarrow> 2 * size node + 1
                             | Inr (env, node, cs, as, s) \<Rightarrow> 2 * forest_size cs)", goal_cases)
  case (2 env node as s)
  then show ?case using forest_size_children [of node] by simp
next
  case (3 env node as s child)
  then show ?case by (simp add: delete_visit_Inner)
qed (simp_all add: forest_size_def)

declare run_delete.simps [simp del]

section \<open>Creation\<close>

definition create_resource :: "'k env \<Rightarrow> xmlnode \<Rightarrow> 'k ofc \<Rightarrow> 'k ofc outcome" where
  "create_resource env edit s =
     (let n = node_name edit in
      if n = ''port'' then txn_add_port env (Some edit) s
      else if n = ''queue'' then txn_add_queue env (Some edit) s
      else if n = ''owned-certificate'' then txn_add_owned_certificate env (Some edit) s
      else if n = ''external-certificate'' then txn_add_external_certificate env (Some edit) s
      else if n = ''flow-table'' then txn_add_flow_table env (Some edit) s
      else Success s)"

definition check_queue_reference :: "string option \<Rightarrow> string \<Rightarrow> 'k ofc \<Rightarrow> 'k ofc outcome" where
  "check_queue_reference key aux s =
     (case ofc_check_bridge_queue key (Some aux) s of
        None \<Rightarrow> Undef
      | Some r \<Rightarrow>
          if r = 1 then fail (bad_elem ''queue'' ''Invalid queue leafref'') s
          else if r = 2 then
            fail (err_text NC_ERR_OP_FAILED
              ''Assigning queue to the bridge (port) must be done by the port element in the queue'') s
          else Success s)"

definition create_reference :: "'k env \<Rightarrow> xmlnode \<Rightarrow> ancestors \<Rightarrow> 'k ofc \<Rightarrow> 'k ofc outcome" where
  "create_reference env edit as s =
     with_key as 1 ''id'' (\<lambda>key.
       case first_content edit of
         None \<Rightarrow> fail (bad_leafref (node_name edit)) s
       | Some aux \<Rightarrow>
           if node_name edit = ''port'' then txn_add_bridge_port env key (Some aux) s
           else if node_name edit = ''flow-table'' then txn_add_bridge_flowtable env key (Some aux) s
           else if node_name edit = ''queue'' then check_queue_reference key aux s
           else Success s)"

definition create_in_port :: "'k env \<Rightarrow> xmlnode \<Rightarrow> ancestors \<Rightarrow> 'k ofc \<Rightarrow> 'k visit" where
  "create_in_port env edit as s =
     (let n = node_name edit; key = get_key (hd as) ''name'' in
      if n = ''requested-number'' then Here (txn_mod_port_reqnumber key (first_content edit) s)
      else if n \<in> set tunnel_names then Here (txn_add_port_tunnel key (Some edit) s)
      else if n = ''features'' then
        (case go2node (Some edit) ''advertised'' of None \<Rightarrow> Here (Success s) | Some child \<Rightarrow> Inner child)
      else Children)"

definition create_adverts :: "'k env \<Rightarrow> xmlnode \<Rightarrow> ancestors \<Rightarrow> 'k ofc \<Rightarrow> 'k ofc outcome" where
  "create_adverts env edit as s =
     with_key as 1 ''name'' (\<lambda>key. for_each (\<lambda>child. txn_add_port_advert env key (Some child)) (children edit) s)"

definition create_in_queue :: "'k env \<Rightarrow> xmlnode \<Rightarrow> ancestors \<Rightarrow> 'k ofc \<Rightarrow> 'k visit" where
  "create_in_queue env edit as s =
     (let n = node_name edit; key = get_key (hd as) ''resource-id'' in
      if n = ''id'' then Here (txn_mod_queue_id env key (first_content edit) s)
      else if n = ''port'' then Here (txn_add_queue_port env key (first_content edit) s)
      else if n = ''properties'' then Children
      else Here (Success s))"

definition create_in_key :: "'k env \<Rightarrow> xmlnode \<Rightarrow> ancestors \<Rightarrow> 'k ofc \<Rightarrow> 'k ofc outcome" where
  "create_in_key env edit as s =
     with_key as 1 ''resource-id'' (\<lambda>key.
       if node_name edit = ''key-type'' then txn_mod_own_cert_key_type env key (Some edit) s
       else if node_name edit = ''key-data'' then txn_mod_own_cert_key_data env key (Some edit) s
       else Success s)"

definition create_in_flow_table :: "xmlnode \<Rightarrow> ancestors \<Rightarrow> 'k ofc \<Rightarrow> 'k ofc outcome" where
  "create_in_flow_table edit as s =
     (let key = get_key (hd as) ''table-id'' in
      if node_name edit = ''name'' then txn_mod_flowtable_name key (Some edit) s
      else if node_name edit = ''resource-id'' then txn_mod_flowtable_resid key (Some edit) s
      else Success s)"

definition create_in_switch :: "xmlnode \<Rightarrow> ancestors \<Rightarrow> 'k ofc \<Rightarrow> 'k visit" where
  "create_in_switch edit as s =
     (let n = node_name edit; key = get_key (hd as) ''id'' in
      if n = ''datapath-id'' then Here (txn_mod_bridge_datapath key (first_content edit) s)
      else if n = ''controllers'' \<or> n = ''resources'' then Children
      else if n = ''lost-connection-behavior'' then Here (txn_mod_bridge_failmode key (first_content edit) s)
      else Here (Success s))"

definition create_in_controller :: "xmlnode \<Rightarrow> ancestors \<Rightarrow> 'k ofc \<Rightarrow> 'k ofc outcome" where
  "create_in_controller edit as s =
     (let n = node_name edit; key = get_key (hd as) ''id''; aux = first_content edit in
      if n = ''local-ip-address'' then txn_mod_contr_lip key aux s
      else if n = ''ip-address'' \<or> n = ''port'' \<or> n = ''protocol'' then txn_mod_contr_target key (Some n) aux s
      else Success s)"

text \<open>The chain of conditions of \<^verbatim>\<open>edit_create\<close> for an element that is not the root.\<close>

definition create_visit :: "'k env \<Rightarrow> xmlnode \<Rightarrow> ancestors \<Rightarrow> 'k ofc \<Rightarrow> 'k visit" where
  "create_visit env edit as s =
     (let n = node_name edit; p = node_name (hd as); gp = anc_name as 1 in
      if p = ''capable-switch'' then
        (if n = ''id'' then Here (ignore_result (ofc_set_switchid (Some edit) s)) else Children)
      else if p = ''resources'' then
        (if gp = Some ''capable-switch'' then Here (create_resource env edit s)
         else Here (create_reference env edit as s))
      else if p = ''port'' then create_in_port env edit as s
      else if p = ''configuration'' then
        Here (with_key as 1 ''name'' (\<lambda>key. of_mod_port_cfg env key n (first_content edit) s))
      else if n = ''advertised'' then Here (create_adverts env edit as s)
      else if p = ''advertised'' then
        Here (with_key as 2 ''name'' (\<lambda>key. txn_add_port_advert env key (Some edit) s))
      else if p \<in> set tunnel_names then
        Here (with_key as 1 ''name'' (\<lambda>key. txn_mod_port_tunnel_opt key (Some n) (first_content edit) s))
      else if p = ''queue'' then create_in_queue env edit as s
      else if p = ''properties'' then
        Here (with_key as 1 ''resource-id'' (\<lambda>key. txn_mod_queue_options key (Some n) (Some edit) s))
      else if n = ''private-key'' then Children
      else if p = ''owned-certificate'' then
        Here (txn_mod_own_cert_certificate env (get_key (hd as) ''resource-id'') (Some edit) s)
      else if p = ''external-certificate'' then
        Here (txn_mod_ext_cert_certificate env (get_key (hd as) ''resource-id'') (Some edit) s)
      else if p = ''private-key'' then Here (create_in_key env edit as s)
      else if p = ''flow-table'' then Here (create_in_flow_table edit as s)
      else if n = ''switch'' then Here (txn_add_bridge env (Some edit) s)
      else if p = ''switch'' then create_in_switch edit as s
      else if n = ''controller'' then
        Here (with_key as 1 ''id'' (\<lambda>key. txn_add_contr env (Some edit) key s))
      else if p = ''controller'' then Here (create_in_controller edit as s)
      else Here (Success s))"

lemma drop_op_attr_simps [simp]:
  "children (drop_op_attr x) = children x" "node_name (drop_op_attr x) = node_name x"
  "is_element (drop_op_attr x) = is_element x" "xid (drop_op_attr x) = xid x" "size (drop_op_attr x) = size x"
  by (cases x; simp)+

lemma create_visit_Inner: "create_visit env node as s = Inner c \<Longrightarrow> size c < size node"
  by (auto simp: create_visit_def create_in_port_def create_in_switch_def create_in_queue_def Let_def
      go2node_size split: if_splits option.splits)

text \<open>
  \<^verbatim>\<open>edit_create\<close> on a node below the root, in the same way. It unlinks what it has created from the edit
  document.
\<close>

function run_create :: "'k env \<Rightarrow> xmlnode \<Rightarrow> ancestors \<Rightarrow> 'k ofc \<Rightarrow> (xmlnode \<times> 'k ofc) outcome"
  and run_create_list ::
    "'k env \<Rightarrow> xmlnode \<Rightarrow> xmlnode list \<Rightarrow> ancestors \<Rightarrow> 'k ofc \<Rightarrow> (xmlnode list \<times> 'k ofc) outcome" where
  "run_create env edit0 as s =
     (let edit = drop_op_attr edit0 in
      if \<not> is_element edit then Success (edit, s)
      else case create_visit env edit as s of
             Here r \<Rightarrow> map_outcome (Pair edit) r
           | Children \<Rightarrow>
               map_outcome (\<lambda>(ks, s). (set_children ks edit, s)) (run_create_list env edit (children edit) as s)
           | Inner child \<Rightarrow>
               map_outcome (\<lambda>(c, s). (set_children (map (\<lambda>x. if x = child then c else x) (children edit)) edit, s))
                 (run_create env child (edit # as) s))"
| "run_create_list env edit [] as s = Success ([], s)"
| "run_create_list env edit (c # cs) as s =
     (case run_create env c (set_children (c # cs) edit # as) s of
        Success (_, s') \<Rightarrow> run_create_list env edit cs as s'
      | Failure e (c', s') \<Rightarrow> Failure e (c' # cs, s')
      | Undef \<Rightarrow> Undef)"
  by pat_completeness auto
termination
proof (relation "measure (\<lambda>x. case x of Inl (env, node, as, s) \<Rightarrow> 2 * size node + 1
                             | Inr (env, node, cs, as, s) \<Rightarrow> 2 * forest_size cs)", goal_cases)
  case (2 env node as s edit)
  then show ?case using forest_size_children [of edit] by simp
next
  case (3 env node as s edit child)
  then have "size child < size edit" by (intro create_visit_Inner)
  then show ?case using 3 by simp
qed (simp_all add: forest_size_def)

declare run_create.simps [simp del]

text \<open>The whole \<^verbatim>\<open>capable-switch\<close>, whose \<^verbatim>\<open>id\<close> is mandatory.\<close>

definition run_create_root :: "'k env \<Rightarrow> xmlnode \<Rightarrow> 'k ofc \<Rightarrow> (xmlnode \<times> 'k ofc) outcome" where
  "run_create_root env edit0 s =
     (let edit = drop_op_attr edit0 in
      if \<not> is_element edit then Success (edit, s)
      else if get_key edit ''id'' = None then
        fail (err_elem_text NC_ERR_MISSING_ELEM ''id'' ''Missing capable-switch's id'') (edit, s)
      else map_outcome (\<lambda>(ks, s). (set_children ks edit, s)) (run_create_list env edit (children edit) [] s))"

section \<open>The transaction survives\<close>

lemma ignore_result_all [simp]: "outcome_all P (ignore_result m) = outcome_all P m"
  by (cases m) simp_all

lemma with_key_keeps [intro!]:
  "(\<And>key. outcome_all P (f key)) \<Longrightarrow> outcome_all P (with_key as k name f)"
  by (simp add: with_key_def split: option.split)

lemma ofc_set_switchid_keeps [wf_intros]:
  "in_txn h s \<Longrightarrow> outcome_all (in_txn h) (ofc_set_switchid node s)"
  by (auto simp: ofc_set_switchid_def split: option.split list.split)

lemma adverts_keep [wf_intros]:
  assumes "in_txn h s"
  shows "outcome_all (in_txn h) (delete_adverts env node as s)"
    and "outcome_all (in_txn h) (create_adverts env node as s)"
  unfolding delete_adverts_def create_adverts_def
  by (auto intro!: outcome_all_for_each assms txn_port_advert_keeps)

lemma delete_parts_keep [wf_intros]:
  assumes "idl_places env" and "in_txn h s"
  shows "outcome_all (in_txn h) (delete_resource env node s)"
    and "outcome_all (in_txn h) (delete_reference env node as s)"
    and "outcome_all (in_txn h) (delete_in_key env node as s)"
    and "outcome_all (in_txn h) (delete_in_flow_table node as s)"
    and "outcome_all (in_txn h) (delete_in_controller node as s)"
  using assms
  by (auto simp: delete_resource_def delete_reference_def delete_in_key_def delete_in_flow_table_def
      delete_in_controller_def Let_def split: option.split intro!: wf_intros)

lemma create_parts_keep [wf_intros]:
  assumes "idl_places env" and "in_txn h s"
  shows "outcome_all (in_txn h) (create_resource env node s)"
    and "outcome_all (in_txn h) (create_reference env node as s)"
    and "outcome_all (in_txn h) (create_in_key env node as s)"
    and "outcome_all (in_txn h) (create_in_flow_table node as s)"
    and "outcome_all (in_txn h) (create_in_controller node as s)"
  using assms
  by (auto simp: create_resource_def create_reference_def check_queue_reference_def create_in_key_def
      create_in_flow_table_def create_in_controller_def Let_def split: option.split intro!: wf_intros)

text \<open>A visit is harmless if what it does at once keeps the transaction.\<close>

fun visit_all :: "('k ofc \<Rightarrow> bool) \<Rightarrow> 'k visit \<Rightarrow> bool" where
  "visit_all P (Here r) = outcome_all P r"
| "visit_all P Children = True"
| "visit_all P (Inner c) = True"

lemma visit_if [intro!]: "(b \<Longrightarrow> visit_all P v) \<Longrightarrow> (\<not> b \<Longrightarrow> visit_all P w) \<Longrightarrow> visit_all P (if b then v else w)"
  by simp

lemma visit_Here [intro!]: "outcome_all P r \<Longrightarrow> visit_all P (Here r)"
  by simp

lemma visit_descend [intro!]: "visit_all P Children" "visit_all P (Inner c)"
  by simp_all

lemma delete_in_keep [intro!]:
  assumes "idl_places env" and "in_txn h s"
  shows "visit_all (in_txn h) (delete_in_port env node as s)"
    and "visit_all (in_txn h) (delete_in_switch node as s)"
  using assms unfolding delete_in_port_def delete_in_switch_def Let_def
  by (auto split: option.split intro!: wf_intros)

lemma create_in_keep [intro!]:
  assumes "idl_places env" and "in_txn h s"
  shows "visit_all (in_txn h) (create_in_port env node as s)"
    and "visit_all (in_txn h) (create_in_switch node as s)"
    and "visit_all (in_txn h) (create_in_queue env node as s)"
  using assms unfolding create_in_port_def create_in_switch_def create_in_queue_def Let_def
  by (auto split: option.split intro!: wf_intros)

lemma delete_visit_keeps:
  assumes "idl_places env" and "in_txn h s"
  shows "visit_all (in_txn h) (delete_visit env node as s)"
  using assms unfolding delete_visit_def Let_def
  by (intro visit_if visit_Here visit_descend delete_in_keep delete_parts_keep adverts_keep with_key_keeps
      txn_port_advert_keeps txn_mod_port_tunnel_opt_keeps of_mod_port_cfg_keeps)
    (auto intro!: wf_intros)

lemma create_visit_keeps:
  assumes "idl_places env" and "in_txn h s"
  shows "visit_all (in_txn h) (create_visit env node as s)"
  using assms unfolding create_visit_def Let_def
  by (intro visit_if visit_Here visit_descend create_in_keep create_parts_keep adverts_keep with_key_keeps
      txn_port_advert_keeps txn_mod_port_tunnel_opt_keeps of_mod_port_cfg_keeps)
    (auto intro!: wf_intros)

text \<open>The part of an outcome that is the state of the switch.\<close>

abbreviation sys_all :: "('k ofc \<Rightarrow> bool) \<Rightarrow> ('a \<times> 'k ofc) outcome \<Rightarrow> bool" where
  "sys_all P \<equiv> outcome_all (\<lambda>r. P (snd r))"

lemma sys_all_Pair: "sys_all P (map_outcome (Pair a) m) = outcome_all P m"
  by (cases m) simp_all

lemma sys_all_map: "sys_all P (map_outcome (\<lambda>(a, s). (f a, s)) m) = sys_all P m"
  by (cases m) auto

lemma sys_all_next:
  assumes "sys_all P m" and "\<And>a s. m = Success (a, s) \<Longrightarrow> P s \<Longrightarrow> sys_all P (f a s)"
  shows "sys_all P (case m of Success (a, s) \<Rightarrow> f a s | Failure e (a, s) \<Rightarrow> Failure e (g a, s) | Undef \<Rightarrow> Undef)"
  using assms by (auto split: outcome.split)

lemma run_delete_keeps [wf_intros]:
  "idl_places env \<Longrightarrow> in_txn h s \<Longrightarrow> sys_all (in_txn h) (run_delete env node as s)"
  "idl_places env \<Longrightarrow> in_txn h s \<Longrightarrow> sys_all (in_txn h) (run_delete_list env node cs as s)"
proof (induction env node as s and env node cs as s rule: run_delete_run_delete_list.induct)
  case (1 env node as s)
  have v: "visit_all (in_txn h) (delete_visit env node as s)"
    using delete_visit_keeps [OF "1.prems"] .
  show ?case
  proof (cases "is_element node")
    case el: True
    show ?thesis
    proof (cases "delete_visit env node as s")
      case (Here r)
      then show ?thesis using v el by (simp add: run_delete.simps [of env node as s] sys_all_Pair del: outcome_all_map)
    next
      case Children
      then show ?thesis using "1.IH"(1) [OF _ Children] "1.prems" el
        by (simp add: run_delete.simps [of env node as s] del: outcome_all_map) (subst sys_all_map, simp)
    next
      case (Inner child)
      then show ?thesis using "1.IH"(2) [OF _ Inner] "1.prems" el
        by (simp add: run_delete.simps [of env node as s] del: outcome_all_map) (subst sys_all_map, simp)
    qed
  next
    case False
    then show ?thesis using "1.prems" by (simp add: run_delete.simps [of env node as s])
  qed
next
  case (3 env node c cs as s)
  show ?case unfolding run_delete_list.simps
    by (rule sys_all_next) (use 3 in auto)
qed simp

lemma run_create_keeps [wf_intros]:
  "idl_places env \<Longrightarrow> in_txn h s \<Longrightarrow> sys_all (in_txn h) (run_create env node as s)"
  "idl_places env \<Longrightarrow> in_txn h s \<Longrightarrow> sys_all (in_txn h) (run_create_list env node cs as s)"
proof (induction env node as s and env node cs as s rule: run_create_run_create_list.induct)
  case (1 env node as s)
  let ?edit = "drop_op_attr node"
  have v: "visit_all (in_txn h) (create_visit env ?edit as s)"
    using create_visit_keeps [OF "1.prems"] .
  show ?case
  proof (cases "is_element ?edit")
    case el: True
    show ?thesis
    proof (cases "create_visit env ?edit as s")
      case (Here r)
      then show ?thesis using v el by (simp add: run_create.simps [of env node as s] sys_all_Pair del: outcome_all_map)
    next
      case Children
      then show ?thesis using "1.IH"(1) [OF refl _ Children] "1.prems" el
        by (simp add: run_create.simps [of env node as s] Let_def del: outcome_all_map)
          (subst sys_all_map, simp)
    next
      case (Inner child)
      then show ?thesis using "1.IH"(2) [OF refl _ Inner] "1.prems" el
        by (simp add: run_create.simps [of env node as s] Let_def del: outcome_all_map)
          (subst sys_all_map, simp)
    qed
  next
    case False
    then show ?thesis using "1.prems" by (simp add: run_create.simps [of env node as s])
  qed
next
  case (3 env node c cs as s)
  show ?case unfolding run_create_list.simps
    by (rule sys_all_next) (use 3 in auto)
qed simp

lemma run_create_root_keeps [wf_intros]:
  "idl_places env \<Longrightarrow> in_txn h s \<Longrightarrow> sys_all (in_txn h) (run_create_root env node s)"
  unfolding run_create_root_def Let_def using run_create_keeps [of env h s]
  by (simp del: outcome_all_map) (intro impI, subst sys_all_map, simp)


section \<open>Properties\<close>

text \<open>
  whatever part of the running configuration is deleted or created, the tables stay
  well-formed and the transaction that was open stays open with the same snapshot, whether the edit
  succeeds or fails. An edit that fails half way can therefore still be aborted as a whole.
\<close>

lemma running_edit_keeps_transaction:
  assumes "idl_places env" and "in_txn h s"
  shows "outcome_all (\<lambda>(left, s'). in_txn h s') (run_delete env node as s)
         \<and> outcome_all (\<lambda>(left, s'). in_txn h s') (run_create env node as s)
         \<and> outcome_all (\<lambda>(left, s'). in_txn h s') (run_create_root env node s)"
  using run_delete_keeps(1) [OF assms] run_create_keeps(1) [OF assms] run_create_root_keeps [OF assms]
  by (simp_all add: case_prod_unfold)

definition demo_switch :: xmlnode where
  "demo_switch =
     Element 1 ''capable-switch'' None [] []
       [Element 2 ''id'' None [] [] [TextNode 3 ''s1''],
        Element 4 ''resources'' None [] []
          [Element 5 ''flow-table'' None [] [] [Element 6 ''table-id'' None [] [] [TextNode 7 ''1'']]]]"

lemma running_edit_keeps_transaction_example:
  "outcome_all (\<lambda>(left, s'). in_txn (TxnOpen empty_db) s') (run_create_root demo_env demo_switch (demo_ofc empty_db))"
  using running_edit_keeps_transaction [OF demo_env_places, of "TxnOpen empty_db" "demo_ofc empty_db" demo_switch "[]"]
  by (simp add: in_txn_def store_wf_def)

text \<open>
  the branches for certificates stand in different orders in the two functions. Creating
  \<^verbatim>\<open>private-key\<close> goes on to \<^verbatim>\<open>key-type\<close> and \<^verbatim>\<open>key-data\<close>; deleting it takes the branch for the children
  of \<^verbatim>\<open>owned-certificate\<close> and clears the certificate instead of the key.
\<close>

lemma private_key_deletion_clears_certificate:
  assumes "is_element node" and "node_name node = ''private-key''" and "node_name parent = ''owned-certificate''"
  shows "run_delete env node (parent # as) s
           = map_outcome (Pair node) (txn_mod_own_cert_certificate env (get_key parent ''resource-id'') None s)
         \<and> run_create env node (parent # as) s
           = map_outcome (\<lambda>(ks, s'). (set_children ks (drop_op_attr node), s'))
               (run_create_list env (drop_op_attr node) (children node) (parent # as) s)"
proof -
  have "delete_visit env node (parent # as) s
          = Here (txn_mod_own_cert_certificate env (get_key parent ''resource-id'') None s)"
    using assms by (simp add: delete_visit_def)
  then have del: "run_delete env node (parent # as) s
               = map_outcome (Pair node) (txn_mod_own_cert_certificate env (get_key parent ''resource-id'') None s)"
    using assms(1) by (simp add: run_delete.simps)
  have "create_visit env (drop_op_attr node) (parent # as) s = Children"
    using assms by (simp add: create_visit_def)
  then have "run_create env node (parent # as) s
           = map_outcome (\<lambda>(ks, s'). (set_children ks (drop_op_attr node), s'))
               (run_create_list env (drop_op_attr node) (children node) (parent # as) s)"
    using assms(1) by (simp add: run_create.simps [of env node] Let_def)
  with del show ?thesis ..
qed

definition demo_key :: xmlnode where
  "demo_key = Element 4 ''private-key'' None [] [] [Element 5 ''key-type'' None [] [] [TextNode 6 ''DSA'']]"

definition demo_owned :: xmlnode where
  "demo_owned =
     Element 1 ''owned-certificate'' None [] []
       [Element 2 ''resource-id'' None [] [] [TextNode 3 ''own''], demo_key]"

lemma private_key_deletion_clears_certificate_example:
  "run_delete demo_env demo_key [demo_owned] (demo_ofc ssl_db)
     = map_outcome (Pair demo_key) (txn_mod_own_cert_certificate demo_env (Some ''own'') None (demo_ofc ssl_db))"
  using private_key_deletion_clears_certificate [of demo_key demo_owned demo_env "[]" "demo_ofc ssl_db"]
  by (simp add: demo_key_def demo_owned_def get_key_def go2node_def is_blank_node_def)

end
