(* ===== verification/Edit_Ops.thy ===== *)
theory Edit_Ops
  imports Edit_Run
begin

text \<open>
  The operations of \<^verbatim>\<open>edit-config.c\<close> on the pair of documents. \<open>orig_doc\<close> is the configuration to edit,
  \<open>edit_doc\<close> what is left of the edit document and \<open>sys\<close> the switch behind the running datastore.
  With \<open>running\<close> the operations change the switch and keep \<open>orig_doc\<close> in step; otherwise they
  change \<open>orig_doc\<close> only. \<open>pending\<close> is an error left behind by a call whose result was ignored.

  A node of \<open>orig_doc\<close> is named by its position. A node of \<open>edit_doc\<close> is named by its address, as in the
  node sets of the code; a call on an address that is gone is a use after free. Copies made by
  \<^verbatim>\<open>xmlCopyNode\<close> keep the address and the namespace of the copied node, since addresses of \<open>orig_doc\<close> and of its
  namespaces are never compared.

  A loop that need not end is a partial function into \<open>option\<close>: the result \<open>None\<close> means that the
  call does not return.
\<close>

section \<open>Loops\<close>

datatype 's round = Done "'s outcome" | Again 's

partial_function (option) rounds :: "('s \<Rightarrow> 's round) \<Rightarrow> 's \<Rightarrow> 's outcome option" where
  "rounds f s = (case f s of Done r \<Rightarrow> Some r | Again s' \<Rightarrow> rounds f s')"

fun bind_run :: "'s outcome option \<Rightarrow> ('s \<Rightarrow> 's outcome option) \<Rightarrow> 's outcome option" where
  "bind_run (Some (Success s)) f = f s"
| "bind_run r f = r"

fun run_all :: "('s \<Rightarrow> bool) \<Rightarrow> 's outcome option \<Rightarrow> bool" where
  "run_all P None = True"
| "run_all P (Some m) = outcome_all P m"

text \<open>A loop returns if every further round lowers a measure; then its last round is known.\<close>

lemma rounds_returns:
  assumes "I s" and "\<And>s s'. I s \<Longrightarrow> f s = Again s' \<Longrightarrow> I s' \<and> m s' < (m s :: nat)"
  shows "\<exists>s' r. I s' \<and> f s' = Done r \<and> rounds f s = Some r"
  using assms(1)
proof (induction "m s" arbitrary: s rule: less_induct)
  case less
  show ?case
  proof (cases "f s")
    case (Again s')
    then show ?thesis using less.hyps [of s'] assms(2) [OF less.prems Again] by (simp add: rounds.simps [of f s])
  qed (use less.prems in \<open>auto simp: rounds.simps [of f s]\<close>)
qed

text \<open>Whatever every round keeps holds of the result, if there is one.\<close>

lemma rounds_result:
  assumes result: "rounds f s = Some r" and "I s" and "\<And>s s'. I s \<Longrightarrow> f s = Again s' \<Longrightarrow> I s'"
  shows "\<exists>s'. I s' \<and> f s' = Done r"
proof -
  have "g = f \<longrightarrow> I s \<longrightarrow> (\<exists>s'. I s' \<and> f s' = Done r)" if "rounds g s = Some r" for g s r
    by (rule rounds.raw_induct [OF _ that, where P = "\<lambda>g s r. g = f \<longrightarrow> I s \<longrightarrow> (\<exists>s'. I s' \<and> f s' = Done r)"])
      (auto split: round.splits dest: assms(3))
  then show ?thesis using assms(1,2) by blast
qed

lemma rounds_all:
  assumes "P s" and "\<And>s s'. P s \<Longrightarrow> f s = Again s' \<Longrightarrow> P s'" and "\<And>s r. P s \<Longrightarrow> f s = Done r \<Longrightarrow> outcome_all P r"
  shows "run_all P (rounds f s)"
  using rounds_result [of f s _ P] assms by (cases "rounds f s") fastforce+

text \<open>A loop with a round that always wants another one does not return.\<close>

lemma rounds_forever:
  assumes "I s" and "\<And>s. I s \<Longrightarrow> \<exists>s'. f s = Again s' \<and> I s'"
  shows "rounds f s = None"
proof (rule ccontr)
  assume "rounds f s \<noteq> None"
  then obtain r where "rounds f s = Some r" by blast
  then obtain s' where "I s'" "f s' = Done r" using rounds_result [of f s r I] assms by fastforce
  then show False using assms(2) by fastforce
qed

lemma run_all_bind: "run_all P m \<Longrightarrow> (\<And>s. P s \<Longrightarrow> run_all P (f s)) \<Longrightarrow> run_all P (bind_run m f)"
  by (cases "(m, f)" rule: bind_run.cases) auto

text \<open>The loop over a list.\<close>

fun for_each_run :: "('a \<Rightarrow> 's \<Rightarrow> 's outcome option) \<Rightarrow> 'a list \<Rightarrow> 's \<Rightarrow> 's outcome option" where
  "for_each_run f [] s = Some (Success s)"
| "for_each_run f (x # xs) s = bind_run (f x s) (for_each_run f xs)"

lemma run_all_for_each: "P s \<Longrightarrow> (\<And>x s. P s \<Longrightarrow> run_all P (f x s)) \<Longrightarrow> run_all P (for_each_run f xs s)"
  by (induction xs arbitrary: s) (auto intro!: run_all_bind)

section \<open>State\<close>

record 'k est =
  orig_doc :: xmldoc
  edit_doc :: xmldoc
  sys :: "'k ofc"
  pending :: "nc_err option"

section \<open>Tree updates\<close>

text \<open>\<^verbatim>\<open>xmlDocSetRootElement\<close>: replaces the first element of the document, or comes after all other nodes.\<close>

fun doc_set_root :: "xmldoc \<Rightarrow> xmlnode \<Rightarrow> nat \<times> xmldoc" where
  "doc_set_root [] x = (0, [x])"
| "doc_set_root (y # ys) x =
     (if is_element y then (0, x # ys) else case doc_set_root ys x of (i, zs) \<Rightarrow> (Suc i, y # zs))"

fun update_addr_node :: "nat \<Rightarrow> xmlnode \<Rightarrow> xmlnode \<Rightarrow> xmlnode" where
  "update_addr_node a y (Element i n s d p k) =
     (if i = a then y else Element i n s d p (map (update_addr_node a y) k))"
| "update_addr_node a y x = (if xid x = a then y else x)"

definition update_addr :: "nat \<Rightarrow> xmlnode \<Rightarrow> xmlnode list \<Rightarrow> xmlnode list" where
  "update_addr a y = map (update_addr_node a y)"

section \<open>Deletion\<close>

text \<open>
  \<^verbatim>\<open>edit_delete\<close> on a node of the original document. Removing the root of the running configuration
  empties the database and returns before the node is unlinked.
\<close>

definition edit_delete :: "'k env \<Rightarrow> bool \<Rightarrow> position \<Rightarrow> 'k est \<Rightarrow> 'k est outcome" where
  "edit_delete env running p st =
     (case node_at (orig_doc st) p of
        None \<Rightarrow> Undef
      | Some node \<Rightarrow>
          let gone = remove_at p (orig_doc st) in
          if \<not> running \<or> \<not> is_element node then Success (st\<lparr>orig_doc := gone\<rparr>)
          else if length p = 1 then map_outcome (\<lambda>s. st\<lparr>sys := s\<rparr>) (txn_del_all env (sys st))
          else (case run_delete env node (ancestors_at (orig_doc st) [] p) (sys st) of
                  Success (_, s) \<Rightarrow> Success (st\<lparr>sys := s, orig_doc := gone\<rparr>)
                | Failure e (left, s) \<Rightarrow> Failure e (st\<lparr>sys := s, orig_doc := replace_at p left (orig_doc st)\<rparr>)
                | Undef \<Rightarrow> Undef))"

text \<open>\<^verbatim>\<open>edit_delete(edit_node, 0, 0, error)\<close> on a node of the edit document.\<close>

abbreviation forget :: "nat \<Rightarrow> 'k est \<Rightarrow> 'k est" where
  "forget a st \<equiv> st\<lparr>edit_doc := remove_addr a (edit_doc st)\<rparr>"

text \<open>One round of the loop that deletes every equivalent of the edit node, and the loop.\<close>

definition delete_round :: "'k env \<Rightarrow> bool \<Rightarrow> nat \<Rightarrow> 'k est \<Rightarrow> 'k est round" where
  "delete_round env running a st =
     (case locate_in a (edit_doc st) [] of
        None \<Rightarrow> Done Undef
      | Some (node, as) \<Rightarrow>
          (case find_element_equiv (orig_doc st) as node of
             None \<Rightarrow> Done (Success st)
           | Some p \<Rightarrow>
               (case edit_delete env running p st of
                  Success st' \<Rightarrow> Again st'
                | Failure e st' \<Rightarrow> Done (Failure e st')
                | Undef \<Rightarrow> Done Undef)))"

definition delete_equivs :: "'k env \<Rightarrow> bool \<Rightarrow> nat \<Rightarrow> 'k est \<Rightarrow> 'k est outcome option" where
  "delete_equivs env running a = rounds (delete_round env running a)"

definition edit_remove :: "'k env \<Rightarrow> bool \<Rightarrow> nat \<Rightarrow> 'k est \<Rightarrow> 'k est outcome option" where
  "edit_remove env running a st =
     bind_run (delete_equivs env running a st) (\<lambda>st. Some (Success (forget a st)))"

text \<open>The body of the loop over the \<^verbatim>\<open>delete\<close> operations: the data must exist.\<close>

definition edit_delete_op :: "'k env \<Rightarrow> bool \<Rightarrow> nat \<Rightarrow> 'k est \<Rightarrow> 'k est outcome option" where
  "edit_delete_op env running a st =
     (case locate_in a (edit_doc st) [] of
        None \<Rightarrow> Some Undef
      | Some (node, as) \<Rightarrow>
          if find_element_equiv (orig_doc st) as node = None
          then Some (fail (nc_err_new NC_ERR_DATA_MISSING) st)
          else edit_remove env running a st)"

section \<open>Creation\<close>

text \<open>
  \<^verbatim>\<open>edit_create_r\<close>: the position of the equivalent of a node of the edit document, which is created
  with its missing ancestors, and the document after that. \<^verbatim>\<open>xmlCopyNode(edit, 0)\<close> copies the name only.
\<close>

definition shallow_copy :: "xmlnode \<Rightarrow> xmlns option \<Rightarrow> xmlns list \<Rightarrow> xmlnode" where
  "shallow_copy edit ns nsdef = Element (xid edit) (node_name edit) ns nsdef [] []"

definition new_ns :: "xmlnode \<Rightarrow> xmlns list" where
  "new_ns edit = (case node_ns edit of None \<Rightarrow> [] | Some ns \<Rightarrow> [ns])"

definition child_copy :: "xmlnode \<Rightarrow> xmlnode \<Rightarrow> xmlnode" where
  "child_copy parent edit =
     (case (node_ns edit, node_ns parent) of
        (Some ns, Some pns) \<Rightarrow> if href ns = href pns then shallow_copy edit (Some pns) []
                                else shallow_copy edit (Some ns) (new_ns edit)
      | _ \<Rightarrow> shallow_copy edit (node_ns edit) (new_ns edit))"

fun edit_create_r :: "xmldoc \<Rightarrow> xmlnode \<Rightarrow> ancestors \<Rightarrow> position \<times> xmldoc" where
  "edit_create_r orig edit [] =
     (case find_element_equiv orig [] edit of
        Some p \<Rightarrow> (p, orig)
      | None \<Rightarrow> (case doc_set_root orig (shallow_copy edit (node_ns edit) (new_ns edit)) of (i, doc) \<Rightarrow> ([i], doc)))"
| "edit_create_r orig edit (par # eas) =
     (case find_element_equiv orig (par # eas) edit of
        Some p \<Rightarrow> (p, orig)
      | None \<Rightarrow>
          (case edit_create_r orig par eas of
             (q, doc) \<Rightarrow>
               (case node_at doc q of
                  None \<Rightarrow> (q, doc)
                | Some parent \<Rightarrow>
                    (q @ [length (children parent)], add_child_at q (child_copy parent edit) doc))))"

definition create_xml :: "xmldoc \<Rightarrow> xmlnode \<Rightarrow> ancestors \<Rightarrow> xmldoc" where
  "create_xml orig edit as =
     (case as of
        [] \<Rightarrow> snd (doc_set_root orig edit)
      | par # eas \<Rightarrow> (case edit_create_r orig par eas of (p, doc) \<Rightarrow> add_child_at p edit doc))"

definition edit_create :: "'k env \<Rightarrow> bool \<Rightarrow> nat \<Rightarrow> 'k est \<Rightarrow> 'k est outcome" where
  "edit_create env running a st =
     (case locate_in a (edit_doc st) [] of
        None \<Rightarrow> Undef
      | Some (edit, as) \<Rightarrow>
          if running then
            (case (if as = [] then run_create_root env edit (sys st) else run_create env edit as (sys st)) of
               Success (_, s) \<Rightarrow> Success (forget a (st\<lparr>sys := s\<rparr>))
             | Failure e (left, s) \<Rightarrow> Failure e (st\<lparr>sys := s, edit_doc := update_addr a left (edit_doc st)\<rparr>)
             | Undef \<Rightarrow> Undef)
          else Success (forget a (st\<lparr>orig_doc := create_xml (orig_doc st) (drop_op_attr edit) as\<rparr>)))"

section \<open>Replacement and merge\<close>

text \<open>\<^verbatim>\<open>edit_replace\<close>; without a node the configuration is replaced by empty data.\<close>

definition edit_replace :: "'k env \<Rightarrow> bool \<Rightarrow> nat option \<Rightarrow> 'k est \<Rightarrow> 'k est outcome" where
  "edit_replace env running edit_node st =
     (case edit_node of
        None \<Rightarrow>
          if orig_doc st \<noteq> [] then edit_delete env running [0] st
          else map_outcome (\<lambda>s. st\<lparr>sys := s\<rparr>) (txn_del_all env (sys st))
      | Some a \<Rightarrow>
          (case locate_in a (edit_doc st) [] of
             None \<Rightarrow> Undef
           | Some (node, as) \<Rightarrow>
               andthen
                 (case find_element_equiv (orig_doc st) as node of
                    None \<Rightarrow> Success st
                  | Some old \<Rightarrow> edit_delete env running old st)
                 (edit_create env running a)))"

text \<open>
  \<^verbatim>\<open>edit_merge\<close> on the node \<open>x\<close>. The loop takes \<^verbatim>\<open>child->next\<close> before it merges the child, so it visits the
  children the node had at the start.
\<close>

function edit_merge :: "'k env \<Rightarrow> bool \<Rightarrow> xmlnode \<Rightarrow> 'k est \<Rightarrow> 'k est outcome"
  and edit_merge_list :: "'k env \<Rightarrow> bool \<Rightarrow> xmlnode \<Rightarrow> xmlnode list \<Rightarrow> 'k est \<Rightarrow> 'k est outcome" where
  "edit_merge env running x st =
     (case locate_in (xid x) (edit_doc st) [] of
        None \<Rightarrow> Undef
      | Some (node, as) \<Rightarrow>
          if find_element_equiv (orig_doc st) as node = None then edit_create env running (xid x) st
          else if is_key node as then Success st
          else if (case first_child x of None \<Rightarrow> False | Some child \<Rightarrow> is_text child)
            then edit_replace env running (Some (xid x)) st
          else andthen (edit_merge_list env running x (children x) st) (\<lambda>st. Success (forget (xid x) st)))"
| "edit_merge_list env running x [] st = Success st"
| "edit_merge_list env running x (c # cs) st =
     (if is_key c [x] then edit_merge_list env running x cs st
      else andthen (edit_merge env running c st) (edit_merge_list env running x cs))"
  by pat_completeness auto
termination
proof (relation "measure (\<lambda>r. case r of Inl (env, running, x, st) \<Rightarrow> 2 * size x + 1
                             | Inr (env, running, x, cs, st) \<Rightarrow> 2 * forest_size cs)", goal_cases)
  case (2 env running x st)
  then show ?case using forest_size_children [of x] by simp
qed (simp_all add: forest_size_def)

declare edit_merge.simps [simp del]

section \<open>All operations of an edit document\<close>

text \<open>Default replace: the result of \<^verbatim>\<open>edit_replace\<close> is not looked at.\<close>

definition remember :: "nc_err option \<Rightarrow> 'k est \<Rightarrow> 'k est" where
  "remember e st = (if e = None then st else st\<lparr>pending := e\<rparr>)"

definition replace_round :: "'k env \<Rightarrow> bool \<Rightarrow> 'k est \<Rightarrow> 'k est round" where
  "replace_round env running st =
     (case edit_doc st of
        [] \<Rightarrow> Done (Success st)
      | x # xs \<Rightarrow>
          (case edit_replace env running (Some (xid x)) st of
             Success st' \<Rightarrow> Again st'
           | Failure e st' \<Rightarrow> Again (remember e st')
           | Undef \<Rightarrow> Done Undef))"

definition replace_roots :: "'k env \<Rightarrow> bool \<Rightarrow> 'k est \<Rightarrow> 'k est outcome option" where
  "replace_roots env running = rounds (replace_round env running)"

definition merge_round :: "'k env \<Rightarrow> bool \<Rightarrow> 'k est \<Rightarrow> 'k est round" where
  "merge_round env running st =
     (case edit_doc st of
        [] \<Rightarrow> Done (Success st)
      | x # xs \<Rightarrow>
          (case edit_merge env running x st of
             Success st' \<Rightarrow> Again st'
           | Failure e st' \<Rightarrow> Done (Failure e st')
           | Undef \<Rightarrow> Done Undef))"

definition merge_roots :: "'k env \<Rightarrow> bool \<Rightarrow> 'k est \<Rightarrow> 'k est outcome option" where
  "merge_roots env running = rounds (merge_round env running)"

text \<open>The loop over the nodes with one explicit operation.\<close>

definition op_phase :: "edit_op \<Rightarrow> (nat \<Rightarrow> 'k est \<Rightarrow> 'k est outcome option) \<Rightarrow> 'k est \<Rightarrow> 'k est outcome option" where
  "op_phase op f st =
     (case get_operation_elements op (edit_doc st) of
        None \<Rightarrow> Some (Success st)
      | Some nodes \<Rightarrow> for_each_run f nodes st)"

definition edit_merge_op :: "'k env \<Rightarrow> bool \<Rightarrow> nat \<Rightarrow> 'k est \<Rightarrow> 'k est outcome" where
  "edit_merge_op env running a st =
     (case locate_in a (edit_doc st) [] of None \<Rightarrow> Undef | Some (x, as) \<Rightarrow> edit_merge env running x st)"

text \<open>The label \<^verbatim>\<open>error\<close>: a failure without an error structure gets one.\<close>

fun report :: "'k est outcome \<Rightarrow> 'k est outcome" where
  "report (Failure e st) =
     Failure (case e of Some x \<Rightarrow> Some x | None \<Rightarrow> (case pending st of Some x \<Rightarrow> Some x | None \<Rightarrow> Some op_failed)) st"
| "report m = m"

definition explicit_phases :: "'k env \<Rightarrow> bool \<Rightarrow> defop \<Rightarrow> 'k est \<Rightarrow> 'k est outcome option" where
  "explicit_phases env running defop st =
     bind_run (bind_run (bind_run (bind_run (bind_run
       (if defop = NC_EDIT_DEFOP_REPLACE then replace_roots env running st else Some (Success st))
       (op_phase NC_EDIT_OP_DELETE (edit_delete_op env running)))
       (op_phase NC_EDIT_OP_REMOVE (edit_remove env running)))
       (op_phase NC_EDIT_OP_REPLACE (\<lambda>a st. Some (edit_replace env running (Some a) st))))
       (op_phase NC_EDIT_OP_CREATE (\<lambda>a st. Some (edit_create env running a st))))
       (op_phase NC_EDIT_OP_MERGE (\<lambda>a st. Some (edit_merge_op env running a st)))"

definition edit_phases :: "'k env \<Rightarrow> bool \<Rightarrow> defop \<Rightarrow> 'k est \<Rightarrow> 'k est outcome option" where
  "edit_phases env running defop st =
     bind_run (explicit_phases env running defop st)
       (\<lambda>st. if defop = NC_EDIT_DEFOP_MERGE \<or> defop = NC_EDIT_DEFOP_NOTSET then merge_roots env running st
             else Some (Success st))"

definition edit_operations ::
  "'k env \<Rightarrow> bool \<Rightarrow> defop \<Rightarrow> xmldoc option \<Rightarrow> xmldoc \<Rightarrow> 'k ofc \<Rightarrow> 'k est outcome option" where
  "edit_operations env running defop orig edit s =
     (case orig of
        None \<Rightarrow> Some (Failure None \<lparr>orig_doc = [], edit_doc = edit, sys = s, pending = None\<rparr>)
      | Some doc \<Rightarrow>
          map_option report
            (edit_phases env running defop \<lparr>orig_doc = doc, edit_doc = edit, sys = s, pending = None\<rparr>))"

section \<open>Deletion comes to an end\<close>

lemma forest_size_simps [simp]: "forest_size [] = 0" "forest_size (x # xs) = Suc (size x + forest_size xs)"
  by (simp_all add: forest_size_def)

lemma forest_size_append [simp]: "forest_size (xs @ ys) = forest_size xs + forest_size ys"
  by (induction xs) simp_all

lemma forest_size_split:
  "i < length ks \<Longrightarrow> forest_size ks = forest_size (take i ks) + Suc (size (ks ! i)) + forest_size (drop (Suc i) ks)"
  using arg_cong [OF id_take_nth_drop [of i ks], of forest_size] by simp

lemma forest_size_update:
  assumes "i < length ks" and "size y < size (ks ! i)"
  shows "forest_size (ks[i := y]) < forest_size ks"
  using assms forest_size_split [OF assms(1)] by (simp add: upd_conv_take_nth_drop)

lemma size_set_children:
  "is_element x \<Longrightarrow> forest_size ks < forest_size (children x) \<Longrightarrow> size (set_children ks x) < size x"
  by (cases x) (simp_all add: forest_size_def)

lemma node_at_element:
  "node_at ks (i # j # p) = Some n \<Longrightarrow> i < length ks \<and> is_element (ks ! i) \<and> node_at (children (ks ! i)) (j # p) = Some n"
  by (cases "ks ! i") (auto split: if_splits, (cases p; simp)+)

lemma remove_at_size: "node_at ks p = Some n \<Longrightarrow> forest_size (remove_at p ks) < forest_size ks"
proof (induction ks p rule: node_at.induct)
  case (2 ks i)
  then show ?case using forest_size_split [of i ks] by (auto simp: remove_at_def split: if_splits)
next
  case (3 ks i j p)
  then have a: "i < length ks" "is_element (ks ! i)" and n: "node_at (children (ks ! i)) (j # p) = Some n"
    using node_at_element by blast+
  have "forest_size (remove_at (j # p) (children (ks ! i))) < forest_size (children (ks ! i))"
    using "3.IH" [OF a(1) n] .
  then show ?case
    using a by (auto simp: remove_at_def intro!: forest_size_update size_set_children)
qed simp

lemma find_equiv_length: "find_equiv kids as es = Some p \<Longrightarrow> length p = length es"
  by (induction kids as es arbitrary: p rule: find_equiv.induct) (auto split: option.splits)

lemma find_element_equiv_length: "find_element_equiv doc eas e = Some p \<Longrightarrow> length p = Suc (length eas)"
  by (auto simp: find_element_equiv_def dest: find_equiv_length)

lemma edit_delete_step:
  assumes "find_element_equiv (orig_doc st) as node = Some p" and "\<not> running \<or> as \<noteq> []"
    and "edit_delete env running p st = Success st'"
  shows "edit_doc st' = edit_doc st \<and> forest_size (orig_doc st') < forest_size (orig_doc st)"
proof -
  obtain n where n: "node_at (orig_doc st) p = Some n"
    using find_element_equiv_node_at [OF assms(1)] by blast
  have "\<not> running \<or> length p \<noteq> 1" using find_element_equiv_length [OF assms(1)] assms(2) by auto
  then show ?thesis
    using assms(3) n remove_at_size [OF n]
    by (auto simp: edit_delete_def Let_def split: if_splits outcome.splits)
qed

lemma delete_equivs_returns:
  assumes "locate_in a (edit_doc st) [] = Some (node, as)" and "\<not> running \<or> as \<noteq> []"
  shows "\<exists>r. delete_equivs env running a st = Some r
            \<and> (\<forall>st'. r = Success st' \<longrightarrow> edit_doc st' = edit_doc st \<and> find_element_equiv (orig_doc st') as node = None)
            \<and> (\<not> running \<longrightarrow> (\<exists>st'. r = Success st'))"
proof -
  define I where "I st' \<longleftrightarrow> edit_doc st' = edit_doc st" for st' :: "'a est"
  have step: "I st2 \<and> forest_size (orig_doc st2) < forest_size (orig_doc st1)"
    if "I st1" "delete_round env running a st1 = Again st2" for st1 st2
    using that assms edit_delete_step [of st1 as node _ running env st2]
    by (auto simp: I_def delete_round_def split: option.splits outcome.splits)
  have "I st" by (simp add: I_def)
  from rounds_returns [of I st "delete_round env running a" "\<lambda>st. forest_size (orig_doc st)", OF this step]
  obtain st' r where "I st'" "delete_round env running a st' = Done r" "delete_equivs env running a st = Some r"
    unfolding delete_equivs_def by blast
  moreover have "\<exists>st2. edit_delete env False p st' = Success st2" if "find_element_equiv (orig_doc st') as node = Some p" for p
    using find_element_equiv_node_at [OF that] by (auto simp: edit_delete_def Let_def)
  ultimately show ?thesis
    using assms(1) by (fastforce simp: I_def delete_round_def split: option.splits outcome.splits)
qed

section \<open>What the operations keep\<close>

text \<open>
  The operations on the two documents reach the state through \<^const>\<open>edit_delete\<close> and \<^const>\<open>edit_create\<close> only,
  apart from unlinking nodes of the edit document. Whatever these keep, \<^const>\<open>edit_operations\<close> keeps.
\<close>

lemma run_all_phase: "P st \<Longrightarrow> (\<And>a st. P st \<Longrightarrow> run_all P (f a st)) \<Longrightarrow> run_all P (op_phase op f st)"
  by (auto simp: op_phase_def intro!: run_all_for_each split: option.split)

locale edit_invariant =
  fixes env :: "'k env" and running :: bool and P :: "'k est \<Rightarrow> bool"
  assumes delete: "P st \<Longrightarrow> outcome_all P (edit_delete env running p st)"
    and create: "P st \<Longrightarrow> outcome_all P (edit_create env running a st)"
    and unlink: "P st \<Longrightarrow> P (forget a st)"
    and error: "P st \<Longrightarrow> P (remember e st)"
begin

lemma replace: "P st \<Longrightarrow> outcome_all P (edit_replace env running (Some a) st)"
  by (auto simp: edit_replace_def intro!: outcome_all_andthen delete create split: option.split)

lemma merge:
  fixes env' :: "'k env"
  shows "env' = env \<Longrightarrow> running' = running \<Longrightarrow> P st \<Longrightarrow> outcome_all P (edit_merge env' running' x st)"
    and "env' = env \<Longrightarrow> running' = running \<Longrightarrow> P st \<Longrightarrow> outcome_all P (edit_merge_list env' running' x cs st)"
proof (induction env' running' x st and env' running' x cs st rule: edit_merge_edit_merge_list.induct)
  case (1 env' running' x st)
  then show ?case
    by (auto simp: edit_merge.simps [of env running x st] intro!: create replace outcome_all_andthen unlink
        split: option.split)
next
  case (3 env' running' x c cs st)
  then show ?case by (auto intro!: outcome_all_andthen)
qed simp

lemma results:
  "edit_delete env running p st = Success st' \<Longrightarrow> P st \<Longrightarrow> P st'"
  "edit_delete env running p st = Failure e st' \<Longrightarrow> P st \<Longrightarrow> P st'"
  "edit_replace env running (Some a) st = Success st' \<Longrightarrow> P st \<Longrightarrow> P st'"
  "edit_replace env running (Some a) st = Failure e st' \<Longrightarrow> P st \<Longrightarrow> P st'"
  "edit_merge env running x st = Success st' \<Longrightarrow> P st \<Longrightarrow> P st'"
  "edit_merge env running x st = Failure e st' \<Longrightarrow> P st \<Longrightarrow> P st'"
  using delete [of st p] replace [of st a] merge(1) [OF refl refl, of st x] by auto

lemma merge_op: "P st \<Longrightarrow> outcome_all P (edit_merge_op env running a st)"
  by (auto simp: edit_merge_op_def intro!: merge split: option.split)

lemma delete_all: "P st \<Longrightarrow> run_all P (delete_equivs env running a st)"
  unfolding delete_equivs_def
proof (rule rounds_all)
  fix st st'
  assume "P st" "delete_round env running a st = Again st'"
  then show "P st'"
    by (auto simp: delete_round_def dest: results split: option.splits outcome.splits)
next
  fix st r
  assume "P st" "delete_round env running a st = Done r"
  then show "outcome_all P r"
    by (auto simp: delete_round_def intro!: delete split: option.splits outcome.splits)
qed

lemma remove: "P st \<Longrightarrow> run_all P (edit_remove env running a st)"
  unfolding edit_remove_def by (intro run_all_bind delete_all) (simp_all add: unlink)

lemma delete_op: "P st \<Longrightarrow> run_all P (edit_delete_op env running a st)"
  by (auto simp: edit_delete_op_def intro!: remove split: option.split)

lemma replace_all: "P st \<Longrightarrow> run_all P (replace_roots env running st)"
  unfolding replace_roots_def
proof (rule rounds_all)
  fix st st'
  assume "P st" "replace_round env running st = Again st'"
  then show "P st'"
    by (auto simp: replace_round_def dest: results intro!: error split: list.splits outcome.splits)
next
  fix st r
  assume "P st" "replace_round env running st = Done r"
  then show "outcome_all P r"
    by (auto simp: replace_round_def split: list.splits outcome.splits)
qed

lemma merge_all: "P st \<Longrightarrow> run_all P (merge_roots env running st)"
  unfolding merge_roots_def
proof (rule rounds_all)
  fix st st'
  assume "P st" "merge_round env running st = Again st'"
  then show "P st'"
    by (auto simp: merge_round_def dest: results split: list.splits outcome.splits)
next
  fix st r
  assume "P st" "merge_round env running st = Done r"
  then show "outcome_all P r"
    by (auto simp: merge_round_def intro!: merge split: list.splits outcome.splits)
qed

lemma explicit: "P st \<Longrightarrow> run_all P (explicit_phases env running defop st)"
  unfolding explicit_phases_def
  by (intro run_all_bind run_all_phase delete_op remove) (simp_all add: replace_all replace create merge_op)

lemma phases: "P st \<Longrightarrow> run_all P (edit_phases env running defop st)"
  unfolding edit_phases_def by (intro run_all_bind explicit) (simp_all add: merge_all)

lemma operations:
  assumes "P \<lparr>orig_doc = case orig of None \<Rightarrow> [] | Some d \<Rightarrow> d, edit_doc = edit, sys = s, pending = None\<rparr>"
  shows "run_all P (edit_operations env running defop orig edit s)"
proof (cases orig)
  case (Some doc)
  let ?st = "\<lparr>orig_doc = doc, edit_doc = edit, sys = s, pending = None\<rparr>"
  have "outcome_all P (report r)" if "outcome_all P r" for r
    using that by (cases r rule: report.cases) simp_all
  then show ?thesis
    using phases [of ?st defop] assms Some
    by (cases "edit_phases env running defop ?st") (simp_all add: edit_operations_def)
qed (use assms in \<open>simp add: edit_operations_def\<close>)

end

subsection \<open>Documents only\<close>

text \<open>
  On the other datastores the switch stays as it is, no operation fails in the middle, and the
  top-level nodes of the edit document can only become fewer.
\<close>

definition roots :: "'k est \<Rightarrow> (nat \<times> string) list" where
  "roots st = map (\<lambda>x. (xid x, node_name x)) (edit_doc st)"

definition only_docs :: "'k ofc \<Rightarrow> (nat \<times> string) list \<Rightarrow> 'k est \<Rightarrow> bool" where
  "only_docs s rs st \<longleftrightarrow> sys st = s \<and> (\<exists>Q. roots st = filter Q rs)"

lemma remove_addr_node_simps [simp]:
  "xid (remove_addr_node a x) = xid x" "node_name (remove_addr_node a x) = node_name x"
  by (cases x; simp)+


lemma only_docs_update [simp]:
  "only_docs s rs (st\<lparr>orig_doc := d\<rparr>) = only_docs s rs st" "only_docs s rs (remember e st) = only_docs s rs st"
  by (simp_all add: only_docs_def roots_def remember_def)



subsection \<open>The running datastore\<close>

definition open_txn :: "'k ofc \<Rightarrow> bool" where
  "open_txn s \<longleftrightarrow> (\<exists>d. in_txn (TxnOpen d) s)"

definition edit_env :: "'k env \<Rightarrow> bool" where
  "edit_env env \<longleftrightarrow> idl_places env \<and> (\<forall>n. commit_wf env n)"

lemma sys_all_open:
  "(\<And>h. in_txn h s \<Longrightarrow> sys_all (in_txn h) m) \<Longrightarrow> open_txn s \<Longrightarrow> sys_all open_txn m"
  unfolding open_txn_def by (cases m) auto

lemma outcome_all_open:
  "(\<And>h. in_txn h s \<Longrightarrow> outcome_all (in_txn h) m) \<Longrightarrow> open_txn s \<Longrightarrow> outcome_all open_txn m"
  unfolding open_txn_def by (cases m) auto

lemma txn_commit_init:
  assumes "edit_env env" and "open_txn s" and "txn_commit env False s = Success s'"
  shows "open_txn (txn_init s')"
proof -
  obtain d where d: "store_wf s" "txn s = Some (TxnOpen d)" using assms(2) by (auto simp: open_txn_def in_txn_def)
  have "db s' = snd (idl_commit env (db s) d) \<and> next_row s' = next_row s"
    using assms(3) d(2)
    by (auto simp: txn_commit_def txn_abort_def Let_def split: prod.splits option.splits if_splits)
  then show ?thesis
    using d(1) assms(1) by (simp add: open_txn_def in_txn_def store_wf_def txn_init_def edit_env_def commit_wf_def)
qed

lemma steps_Cons: "steps (f # fs) = (\<lambda>s. andthen (f s) (steps fs))"
  by (rule ext) simp

lemma txn_del_all_keeps:
  assumes "edit_env env" and "open_txn s"
  shows "outcome_all open_txn (txn_del_all env s)"
proof -
  have loop: "outcome_all open_txn (for_each f rs s)"
    if "\<And>h r s. in_txn h s \<Longrightarrow> outcome_all (in_txn h) (f r s)" "open_txn s" for f and rs :: "rowid list" and s :: "'a ofc"
    using that by (intro outcome_all_for_each) (auto intro: outcome_all_open)
  have dels: "in_txn h s \<Longrightarrow> outcome_all (in_txn h) (del_ovs r s)" "in_txn h s \<Longrightarrow> outcome_all (in_txn h) (del_qos r s)"
    "in_txn h s \<Longrightarrow> outcome_all (in_txn h) (del_port r s)" for h r and s :: "'a ofc"
    by (auto simp: del_ovs_def del_qos_def del_port_def simp del: steps_simps intro!: wf_intros)
  define late where "late = steps
     [\<lambda>s. for_each del_qos (order (tb_qos (db s))) s,
      \<lambda>s. for_each (del_row tb_queue tb_queue_update) (order (tb_queue (db s))) s,
      \<lambda>s. for_each del_port (order (tb_port (db s))) s,
      \<lambda>s. for_each (del_row tb_ssl tb_ssl_update) (order (tb_ssl (db s))) s,
      ofc_set_switchid None :: 'a ofc \<Rightarrow> 'a ofc outcome]"
  have late: "outcome_all open_txn (late s)" if "open_txn s" for s
    unfolding late_def using that
    by (intro steps_keeps) (auto intro!: loop dels del_keeps outcome_all_open [OF ofc_set_switchid_keeps])
  have mid: "outcome_all open_txn (andthen (txn_commit env False s) (\<lambda>s. late (txn_init s)))" if "open_txn s" for s
    using late txn_commit_init [OF assms(1) that] that
    by (cases "txn_commit env False s")
      (auto simp: txn_commit_def Let_def split: option.splits txn_handle.splits prod.splits if_splits)
  have "txn_del_all env s = andthen (for_each del_ovs (order (tb_ovs (db s))) s)
      (\<lambda>s. andthen (for_each (del_row tb_fscs tb_fscs_update) (order (tb_fscs (db s))) s)
        (\<lambda>s. andthen (txn_commit env False s) (\<lambda>s. late (txn_init s))))"
    by (simp add: txn_del_all_def late_def steps_Cons)
  moreover have "outcome_all open_txn \<dots>"
    by (rule outcome_all_andthen, rule loop, rule dels(1), assumption, rule assms(2),
        rule outcome_all_andthen, rule loop, rule del_keeps(10)) (assumption | rule mid)+
  ultimately show ?thesis by simp
qed

lemma run_open:
  assumes "edit_env env" and "open_txn s"
  shows "sys_all open_txn (run_delete env n as s)" "sys_all open_txn (run_create env n as s)"
    "sys_all open_txn (run_create_root env n s)"
  using assms
  by (auto simp: edit_env_def intro: sys_all_open [OF run_delete_keeps(1)] sys_all_open [OF run_create_keeps(1)]
      sys_all_open [OF run_create_root_keeps])

lemma edit_delete_open:
  assumes "edit_env env" and "open_txn (sys st)"
  shows "outcome_all (\<lambda>st. open_txn (sys st)) (edit_delete env True p st)"
proof (cases "node_at (orig_doc st) p")
  case (Some n)
  then show ?thesis
    using assms txn_del_all_keeps [OF assms] run_open(1) [OF assms, of n "ancestors_at (orig_doc st) [] p"]
    by (auto simp: edit_delete_def Let_def split: outcome.split)
qed (simp add: edit_delete_def)

lemma edit_create_open:
  assumes "edit_env env" and "open_txn (sys st)"
  shows "outcome_all (\<lambda>st. open_txn (sys st)) (edit_create env True a st)"
proof (cases "locate_in a (edit_doc st) []")
  case (Some r)
  then show ?thesis
    using run_open(2) [OF assms, of "fst r" "snd r"] run_open(3) [OF assms, of "fst r"]
    by (auto simp: edit_create_def case_prod_unfold split: outcome.split)
qed (simp add: edit_create_def)

lemma outcome_all_imp: "(A \<Longrightarrow> outcome_all Q m) \<Longrightarrow> outcome_all (\<lambda>s. A \<longrightarrow> Q s) m"
  by (cases m) auto

interpretation switch: edit_invariant env True "\<lambda>st. edit_env env \<longrightarrow> open_txn (sys st)" for env
  by unfold_locales (auto simp: remember_def intro!: outcome_all_imp edit_delete_open edit_create_open)

section \<open>Edits of documents come to an end\<close>





lemma edit_create_doc:
  "locate_in a (edit_doc st) [] = Some (node, as) \<Longrightarrow>
   edit_create env False a st = Success (forget a (st\<lparr>orig_doc := create_xml (orig_doc st) (drop_op_attr node) as\<rparr>))"
  by (simp add: edit_create_def)















section \<open>Creation in a document\<close>

text \<open>\<^const>\<open>matching_elements\<close> looks at the names of the ancestors only, and not at attributes.\<close>

definition key_names :: "string set" where
  "key_names = {''id'', ''name'', ''table-id'', ''resource-id''}"

lemma list_key_names: "list_key x as = Some k \<Longrightarrow> k \<in> key_names"
  by (auto simp: list_key_def key_names_def Let_def split: if_splits)

lemma anc_name_cong: "map node_name as = map node_name bs \<Longrightarrow> anc_name as k = anc_name bs k"
  by (auto simp: anc_name_def dest: map_eq_imp_length_eq) (metis length_map nth_map)

lemma list_key_cong: "map node_name as = map node_name bs \<Longrightarrow> list_key x as = list_key x bs"
  using anc_name_cong [of as bs 1] by (simp add: list_key_def)

lemma leaf_list_cong: "map node_name as = map node_name bs \<Longrightarrow> is_leaf_list_name x as = is_leaf_list_name x bs"
  using anc_name_cong [of as bs 0] by (simp add: is_leaf_list_name_def)

lemma matching_cong:
  "map node_name as = map node_name bs \<Longrightarrow> matching_elements x y as = matching_elements x y bs"
proof (induction x y as arbitrary: bs rule: matching_elements.induct)
  case (1 node1 node2 as)
  then show ?case
    using list_key_cong [OF "1.prems"] leaf_list_cong [OF "1.prems"]
    by (simp add: matching_elements.simps(1) split: option.split)
qed simp_all

lemma find_child_cong:
  "map node_name as = map node_name bs \<Longrightarrow> find_child e ks as = find_child e ks bs"
  by (induction ks) (simp_all add: matching_cong [of as bs])

lemma matching_names:
  assumes "matching_elements (Some e) (Some c) as \<noteq> 0" and "is_element e"
  shows "is_element c \<and> node_name c = node_name e"
  using assms by (cases e) (auto simp: matching_elements.simps(1) split: if_splits)

text \<open>What the search reads of a node of the original document.\<close>

definition text_head :: "xmlnode \<Rightarrow> xmlnode option" where
  "text_head x = (case first_child x of None \<Rightarrow> None | Some t \<Rightarrow> if is_text t then Some t else None)"

definition same_look :: "xmlnode \<Rightarrow> xmlnode \<Rightarrow> bool" where
  "same_look c c' \<longleftrightarrow> node_name c' = node_name c \<and> node_ns c' = node_ns c \<and> is_element c' = is_element c
     \<and> text_head c' = text_head c \<and> (\<forall>k \<in> key_names. go2node (Some c') k = go2node (Some c) k)"

lemma matching_unfold:
  "is_element e \<Longrightarrow> matching_elements (Some e) (Some c) as =
     (if \<not> is_element c \<or> node_name e \<noteq> node_name c \<or> nscmp e c \<noteq> 0 then 0
      else if is_leaf_list_name c as \<and> text_head e \<noteq> None \<and> text_head c \<noteq> None
        then matching_elements (text_head e) (text_head c) (c # as)
      else (case list_key c as of
              None \<Rightarrow> 1
            | Some k \<Rightarrow>
                (case (go2node (Some e) k, go2node (Some c) k) of
                   (Some key1, Some key2) \<Rightarrow> matching_elements (first_child key1) (first_child key2) (key2 # c # as)
                 | _ \<Rightarrow> 0)))"
  by (cases e) (auto simp: matching_elements.simps(1) text_head_def split: option.splits if_splits)

lemma matching_same_look:
  assumes "same_look c c'" and "is_element e"
  shows "matching_elements (Some e) (Some c') as = matching_elements (Some e) (Some c) as"
proof -
  have "node_ns c' = node_ns c" using assms(1) by (simp add: same_look_def)
  then have ns: "nscmp e c' = nscmp e c" unfolding nscmp_def by (rule ssubst) (rule refl)
  have a: "is_leaf_list_name c' as = is_leaf_list_name c as" "list_key c' as = list_key c as"
    "matching_elements x y (c' # as) = matching_elements x y (c # as)"
    "matching_elements x y (k # c' # as) = matching_elements x y (k # c # as)" for x y k
    using assms(1) by (auto simp: same_look_def is_leaf_list_name_def list_key_def intro: matching_cong)
  have b: "go2node (Some c') k = go2node (Some c) k" if "list_key c as = Some k" for k
    using assms(1) list_key_names [OF that] by (simp add: same_look_def)
  show ?thesis
    unfolding matching_unfold [OF assms(2)] a ns using assms(1) b
    by (auto simp: same_look_def split: option.split)
qed

lemma find_equiv_Cons:
  "find_equiv kids as (e # es) = Some p \<longleftrightarrow>
     (\<exists>i c q. find_child e kids as = Some (i, c) \<and> p = i # q \<and> find_equiv (children c) (c # as) es = Some q)"
  by (auto split: option.splits)

lemma find_child_update:
  assumes "find_child e kids as = Some (i, c)" and "same_look c c'" and "is_element e"
  shows "find_child e (kids[i := c']) as = Some (i, c')"
  using assms(1) matching_same_look [OF assms(2,3)] unfolding find_child_Some_iff by auto

lemma find_app: "find P (xs @ ys) = (case find P xs of None \<Rightarrow> find P ys | Some x \<Rightarrow> Some x)"
  by (induction xs) simp_all

lemma same_look_append:
  assumes "is_element c" and "is_element x" and "node_name x \<notin> key_names"
  shows "same_look c (set_children (children c @ [x]) c)"
  using assms
  by (cases c; cases x) (auto simp: same_look_def text_head_def first_child_def go2node_def find_app split: list.split option.split)

lemma find_list_update:
  "j < length xs \<Longrightarrow> \<not> P (xs ! j) \<Longrightarrow> \<not> P y \<Longrightarrow> find P (xs[j := y]) = find P xs"
  by (induction xs arbitrary: j) (auto split: nat.split)

lemma element_not_text: "is_element x \<Longrightarrow> \<not> is_text x"
  by (cases x) simp_all

lemma same_look_update:
  assumes "is_element c" and "j < length (children c)" and "is_element (children c ! j)" and "is_element y"
    and "node_name y = node_name (children c ! j)" and "node_name y \<notin> key_names"
  shows "same_look c (set_children ((children c)[j := y]) c)"
proof -
  let ?c = "set_children ((children c)[j := y]) c"
  have k: "children ?c = (children c)[j := y]" using assms(1) by simp
  have "go2node (Some ?c) k = go2node (Some c) k" if "k \<in> key_names" for k
    using that assms(2,5,6) k by (auto simp: go2node_def intro!: find_list_update)
  moreover have "text_head ?c = text_head c"
    using assms(2,3,4) k element_not_text
    by (cases "children c"; cases j) (auto simp: text_head_def first_child_def)
  ultimately show ?thesis by (simp add: same_look_def)
qed

lemma add_child_at_shape:
  assumes "node_at ks (j # q) = Some n"
  shows "\<exists>y. add_child_at (j # q) x ks = ks[j := y] \<and> node_name y = node_name (ks ! j) \<and> is_element y = is_element (ks ! j)"
  using assms by (cases q) (auto simp: add_child_at_def split: if_splits)

lemma find_equiv_app_Cons:
  "find_child e kids as = Some (i, c) \<Longrightarrow>
   find_equiv kids as (e # es) = map_option ((#) i) (find_equiv (children c) (c # as) es)"
  by simp

lemma find_equiv_cong:
  "map node_name as = map node_name bs \<Longrightarrow> find_equiv kids as es = find_equiv kids bs es"
proof (induction es arbitrary: kids as bs)
  case (Cons e es)
  have "find_equiv ks (c # as) es = find_equiv ks (c # bs) es" for ks c
    by (rule Cons.IH) (simp add: Cons.prems)
  then show ?case by (simp add: find_child_cong [OF Cons.prems] split: option.split)
qed simp

lemma find_equiv_single: "find_equiv kids as [e] = map_option (\<lambda>(i, c). [i]) (find_child e kids as)"
  by (simp split: option.split)

lemma find_equiv_add:
  assumes "find_equiv kids as es = Some q" and "es \<noteq> []" and "\<forall>e \<in> set es. is_element e \<and> node_name e \<notin> key_names"
    and x: "is_element x" "node_name x \<notin> key_names" and "map node_name as = map node_name das"
  shows "\<exists>n. node_at kids q = Some n \<and> is_element n
    \<and> (\<forall>e. find_equiv kids as (es @ [e]) = map_option (\<lambda>(i, c). q @ [i]) (find_child e (children n) (rev es @ das)))
    \<and> (\<forall>e. find_equiv (add_child_at q x kids) as (es @ [e])
             = map_option (\<lambda>(i, c). q @ [i]) (find_child e (children n @ [x]) (rev es @ das)))"
  using assms(1-3,6)
proof (induction es arbitrary: kids as q das)
  case (Cons e1 es)
  obtain i c q' where c: "find_child e1 kids as = Some (i, c)" and q: "q = i # q'"
    and q': "find_equiv (children c) (c # as) es = Some q'"
    using Cons.prems(1) unfolding find_equiv_Cons by blast
  have i: "i < length kids" "c = kids ! i" and "matching_elements (Some e1) (Some c) as \<noteq> 0"
    using c unfolding find_child_Some_iff by auto
  then have el: "is_element c" and name: "node_name c = node_name e1"
    using matching_names [of e1 c as] Cons.prems(3) by auto
  have names: "map node_name (c # as) = map node_name (e1 # das)" using name Cons.prems(4) by simp
  have up: "find_equiv (kids[i := c']) as (e1 # es @ [e]) = map_option ((#) i) (find_equiv (children c') (c' # as) (es @ [e]))"
    if "same_look c c'" for c' e
    using find_child_update [OF c that] Cons.prems(3) by (simp add: find_equiv_app_Cons)
  show ?case
  proof (cases es)
    case Nil
    then have q0: "q = [i]" using q q' by simp
    let ?c = "set_children (children c @ [x]) c"
    have add: "add_child_at q x kids = kids[i := ?c]" using i q0 x by (simp add: add_child_at_def element_not_text)
    have names': "map node_name (?c # as) = map node_name (e1 # das)" using names by simp
    have old: "find_equiv kids as (e1 # [e]) = map_option (\<lambda>(k, c). [i, k]) (find_child e (children c) (e1 # das))" for e
      unfolding find_equiv_app_Cons [OF c] find_equiv_single find_child_cong [OF names]
      by (simp add: option.map_comp comp_def case_prod_unfold)
    have "find_equiv (kids[i := ?c]) as (e1 # [e])
            = map_option (\<lambda>(k, c). [i, k]) (find_child e (children c @ [x]) (e1 # das))" for e
      using up [OF same_look_append [OF el x], of e] el
      unfolding Nil append_Nil find_equiv_single find_child_cong [OF names']
      by (simp only: set_children_simps option.map_comp comp_def case_prod_unfold)
    then show ?thesis
      using old i el unfolding q0 Nil add [unfolded q0] by (intro exI [where x = c]) simp
  next
    case es: (Cons e2 es2)
    then obtain j q2 where j: "q' = j # q2" "find_child e2 (children c) (c # as) = Some (j, children c ! j)"
      using q' unfolding es find_equiv_Cons find_child_Some_iff by blast
    then have e2: "j < length (children c)" "is_element (children c ! j)" "node_name (children c ! j) \<notin> key_names"
      using matching_names [of e2 "children c ! j" "c # as"] es Cons.prems(3) by (auto simp: find_child_Some_iff)
    have "es \<noteq> []" "\<forall>e\<in>set es. is_element e \<and> node_name e \<notin> key_names"
      using es Cons.prems(3) by auto
    from Cons.IH [OF q' this names]
    obtain n where n: "node_at (children c) q' = Some n" "is_element n"
      "\<And>e. find_equiv (children c) (c # as) (es @ [e]) = map_option (\<lambda>(i, c). q' @ [i]) (find_child e (children n) (rev es @ e1 # das))"
      "\<And>e. find_equiv (add_child_at q' x (children c)) (c # as) (es @ [e])
             = map_option (\<lambda>(i, c). q' @ [i]) (find_child e (children n @ [x]) (rev es @ e1 # das))"
      by blast
    obtain y where y: "add_child_at q' x (children c) = (children c)[j := y]"
      "node_name y = node_name (children c ! j)" "is_element y"
      using add_child_at_shape [of "children c" j q2 n x] n(1) e2(2) unfolding j by auto
    let ?c = "set_children ((children c)[j := y]) c"
    have look: "same_look c ?c" using same_look_update [OF el e2(1,2) y(3,2)] y(2) e2(3) by simp
    have add: "add_child_at q x kids = kids[i := ?c]"
      using i y(1) unfolding q j(1) by (simp add: add_child_at_def)
    have cong: "find_equiv ks (?c # as) fs = find_equiv ks (c # as) fs" for ks fs
      by (rule find_equiv_cong) simp
    have "find_equiv (kids[i := ?c]) as (e1 # es @ [e])
            = map_option (\<lambda>(k, c). i # q' @ [k]) (find_child e (children n @ [x]) (rev es @ e1 # das))" for e
      using n(4) [of e] el unfolding up [OF look] cong y(1)
      by (simp add: option.map_comp comp_def case_prod_unfold)
    moreover have "find_equiv kids as (e1 # es @ [e])
            = map_option (\<lambda>(k, c). i # q' @ [k]) (find_child e (children n) (rev es @ e1 # das))" for e
      unfolding find_equiv_app_Cons [OF c] n(3) by (simp add: option.map_comp comp_def case_prod_unfold)
    moreover have "node_at kids q = Some n" using n(1) i unfolding q j(1) by simp
    ultimately show ?thesis using n(2) add unfolding q by (intro exI [where x = n]) simp
  qed
qed simp

lemma find_element_equiv_add:
  assumes "find_element_equiv doc eas par = Some q"
    and "\<forall>e \<in> set (par # eas). is_element e \<and> node_name e \<notin> key_names"
    and "is_element x" and "node_name x \<notin> key_names"
  shows "\<exists>n. node_at doc q = Some n \<and> is_element n
    \<and> (\<forall>e. find_element_equiv doc (par # eas) e = map_option (\<lambda>(i, c). q @ [i]) (find_child e (children n) (par # eas)))
    \<and> (\<forall>e. find_element_equiv (add_child_at q x doc) (par # eas) e
             = map_option (\<lambda>(i, c). q @ [i]) (find_child e (children n @ [x]) (par # eas)))"
proof -
  have "\<forall>e \<in> set (rev (par # eas)). is_element e \<and> node_name e \<notin> key_names" using assms(2) by simp
  then show ?thesis
    using find_equiv_add [of doc "[]" "rev (par # eas)" q x "[]"] assms(1,3,4) by (simp add: find_element_equiv_def)
qed

lemma add_child_at_simps:
  "i < length ks \<Longrightarrow> add_child_at [i] x ks = ks[i := set_children (merge_text (children (ks ! i)) x) (ks ! i)]"
  "i < length ks \<Longrightarrow> add_child_at (i # j # p) x ks = ks[i := set_children (add_child_at (j # p) x (children (ks ! i))) (ks ! i)]"
  by (simp_all add: add_child_at_def)

lemma set_children_twice: "set_children ks (set_children ls x) = set_children ks x"
  by (cases x) simp_all

lemma add_element: "is_element x \<Longrightarrow> merge_text ks x = ks @ [x]"
  by (simp add: element_not_text)

lemma node_at_add:
  "node_at ks q = Some n \<Longrightarrow> is_element n \<Longrightarrow> is_element x \<Longrightarrow>
   node_at (add_child_at q x ks) (q @ [length (children n)]) = Some x"
proof (induction ks q rule: node_at.induct)
  case (2 ks i)
  then show ?case by (auto simp: add_child_at_simps add_element simp del: merge_text.simps split: if_splits)
next
  case (3 ks i j p)
  then have "i < length ks" "is_element (ks ! i)" using node_at_element by blast+
  then show ?case using 3 by (simp add: add_child_at_simps)
qed simp

lemma add_child_twice:
  "node_at ks q = Some n \<Longrightarrow> is_element n \<Longrightarrow> is_element y \<Longrightarrow>
   add_child_at (q @ [length (children n)]) x (add_child_at q y ks)
     = add_child_at q (set_children (merge_text (children y) x) y) ks"
proof (induction ks q rule: node_at.induct)
  case (2 ks i)
  then show ?case
    by (auto simp: add_child_at_simps add_element set_children_twice nth_append list_update_append
        simp del: merge_text.simps split: if_splits)
next
  case (3 ks i j p)
  then have "i < length ks" "is_element (ks ! i)" using node_at_element by blast+
  then show ?case using 3 by (simp add: add_child_at_simps set_children_twice del: merge_text.simps)
qed simp

lemma find_child_append:
  "find_child e (ks @ [x]) as =
     (case find_child e ks as of
        Some r \<Rightarrow> Some r
      | None \<Rightarrow> if matching_elements (Some e) (Some x) as = 0 then None else Some (length ks, x))"
  by (induction ks) (auto split: option.split)

lemma same_look_drop: "is_element x \<Longrightarrow> same_look x (drop_op_attr x)"
  by (cases x) (auto simp: same_look_def text_head_def first_child_def go2node_def)

lemma locate_in_elements:
  "locate_in a ks as = Some (n, bs) \<Longrightarrow> \<forall>x \<in> set as. is_element x \<Longrightarrow> \<forall>x \<in> set bs. is_element x"
proof (induction a ks as rule: locate_in.induct)
  case (2 a x xs as)
  then show ?case by (cases x) (auto split: if_splits option.splits)
qed simp

lemma edit_create_r_found: "find_element_equiv doc eas par = Some q \<Longrightarrow> edit_create_r doc par eas = (q, doc)"
  by (cases eas) simp_all

lemma find_equiv_prefix: "find_equiv ks as es = None \<Longrightarrow> find_equiv ks as (es @ fs) = None"
  by (induction ks as es rule: find_equiv.induct) (auto split: option.splits)


section \<open>Properties\<close>


definition demo_port :: "string list \<Rightarrow> xmldoc" where
  "demo_port names =
     [Element 1 ''capable-switch'' None [] []
       [Element 2 ''resources'' None [] []
         (map (\<lambda>n. Element 3 ''port'' None [] [] [Element 4 ''name'' None [] [] [TextNode 5 n]]) names)]]"


text \<open>
  C28: \<^verbatim>\<open>edit_remove\<close> of anything but the root of the running configuration returns. When it succeeds,
  the original document has no equivalent of the node any more and the node has left the edit
  document. On the other datastores it always succeeds.
\<close>

theorem remove_is_complete:
  assumes "locate_in a (edit_doc st) [] = Some (node, as)" and "\<not> running \<or> as \<noteq> []"
  shows "\<exists>r. edit_remove env running a st = Some r
            \<and> (\<forall>st'. r = Success st' \<longrightarrow> find_element_equiv (orig_doc st') as node = None
                                        \<and> locate_in a (edit_doc st') [] = None)
            \<and> (\<not> running \<longrightarrow> (\<exists>st'. r = Success st'))"
proof -
  obtain r where r: "delete_equivs env running a st = Some r"
    "\<And>st'. r = Success st' \<Longrightarrow> edit_doc st' = edit_doc st \<and> find_element_equiv (orig_doc st') as node = None"
    "\<not> running \<Longrightarrow> \<exists>st'. r = Success st'"
    using delete_equivs_returns [OF assms, of env] by blast
  then show ?thesis by (cases r) (auto simp: edit_remove_def)
qed

lemma demo_port_equiv: "find_element_equiv (demo_port [''eth0'']) [] (hd (demo_port [])) = Some [0]"
  by (simp add: find_element_equiv_def demo_port_def matching_elements.simps(1) is_leaf_list_name_def list_key_def
      nscmp_def anc_name_def first_child_def)

theorem remove_is_complete_witness:
  "\<exists>st'. edit_remove demo_env False 1 \<lparr>orig_doc = demo_port [''eth0''], edit_doc = demo_port [], sys = demo_ofc empty_db,
             pending = None\<rparr> = Some (Success st')
         \<and> find_element_equiv (orig_doc st') [] (hd (demo_port [])) = None"
  using remove_is_complete [of 1 "\<lparr>orig_doc = demo_port [''eth0''], edit_doc = demo_port [], sys = demo_ofc empty_db,
      pending = None\<rparr>" "hd (demo_port [])" "[]" False demo_env]
  by (auto simp: demo_port_def)

text \<open>
  C29: deleting the root of the running configuration does not return. \<^verbatim>\<open>edit_delete\<close> empties the database
  for the root but does not unlink it from the document, so that the loop finds it again.
\<close>

theorem running_root_removal_hangs:
  assumes "locate_in a (edit_doc st) [] = Some (node, [])" and "is_element node"
    and "find_element_equiv (orig_doc st) [] node \<noteq> None"
    and "commits env" and "\<forall>n. commit_wf env n" and "open_txn (sys st)"
  shows "edit_remove env True a st = None \<and> edit_delete_op env True a st = None"
proof -
  define I where "I st' \<longleftrightarrow> edit_doc st' = edit_doc st \<and> orig_doc st' = orig_doc st \<and> open_txn (sys st')" for st' :: "'a est"
  obtain p where p: "find_element_equiv (orig_doc st) [] node = Some p" using assms(3) by blast
  obtain n where n: "node_at (orig_doc st) p = Some n" "is_element n"
    using find_element_equiv_node_at [OF p] assms(2)
    by (auto simp: matching_elements.simps(1) split: if_splits) (cases node; simp)+
  have "\<exists>st2. delete_round env True a st1 = Again st2 \<and> I st2" if I: "I st1" for st1
  proof -
    obtain d where "store_wf (sys st1)" "txn (sys st1) = Some (TxnOpen d)"
      using I by (auto simp: I_def open_txn_def in_txn_def)
    then obtain s' d' where s': "txn_del_all env (sys st1) = Success s'" "store_wf s'" "txn s' = Some (TxnOpen d')"
      using del_all_tables [of "sys st1" d env] assms(4,5) by blast
    then have "edit_delete env True p st1 = Success (st1\<lparr>sys := s'\<rparr>)"
      using I n find_element_equiv_length [OF p] by (simp add: edit_delete_def I_def)
    moreover have "open_txn s'" using s' by (auto simp: open_txn_def in_txn_def)
    ultimately show ?thesis using I assms(1) p by (simp add: delete_round_def I_def)
  qed
  moreover have "I st" using assms(6) by (simp add: I_def)
  ultimately have "delete_equivs env True a st = None"
    unfolding delete_equivs_def using rounds_forever [of I] by blast
  then show ?thesis using assms(1) p by (simp add: edit_remove_def edit_delete_op_def)
qed

theorem running_root_removal_hangs_witness:
  "edit_remove demo_env True 1 \<lparr>orig_doc = demo_port [''eth0''], edit_doc = demo_port [], sys = demo_ofc empty_db,
     pending = None\<rparr> = None"
proof -
  have "open_txn (demo_ofc empty_db)" by (auto simp: open_txn_def in_txn_def store_wf_def)
  moreover have "locate_in 1 (demo_port []) [] = Some (hd (demo_port []), [])" "is_element (hd (demo_port []))"
    by (simp_all add: demo_port_def)
  ultimately show ?thesis
    using running_root_removal_hangs [of 1 "\<lparr>orig_doc = demo_port [''eth0''], edit_doc = demo_port [], sys = demo_ofc empty_db,
        pending = None\<rparr>" "hd (demo_port [])" demo_env] demo_env_commits demo_port_equiv by simp
qed

text \<open>
  C13: all operations of an edit of the running datastore, in whatever order and with whatever errors,
  leave the replica well-formed and a transaction open, so that the caller can commit or abort it.
\<close>

theorem running_edit_leaves_open_transaction:
  assumes "idl_places env" and "\<forall>n. commit_wf env n" and "open_txn s"
  shows "run_all (\<lambda>st. open_txn (sys st)) (edit_operations env True defop orig edit s)"
proof -
  have env: "edit_env env" using assms(1,2) by (simp add: edit_env_def)
  have "run_all (\<lambda>st. edit_env env \<longrightarrow> open_txn (sys st)) (edit_operations env True defop orig edit s)"
    using assms(3) by (intro switch.operations) (simp split: option.split)
  then show ?thesis using env by simp
qed

theorem running_edit_leaves_open_transaction_witness:
  "run_all (\<lambda>st. open_txn (sys st))
     (edit_operations demo_env True NC_EDIT_DEFOP_MERGE (Some []) [demo_switch] (demo_ofc empty_db))"
proof -
  have "open_txn (demo_ofc empty_db)" by (auto simp: open_txn_def in_txn_def store_wf_def)
  then show ?thesis
    using running_edit_leaves_open_transaction [of demo_env "demo_ofc empty_db"] demo_env_places demo_env_commits(2) by simp
qed

text \<open>
  C27: what is created in a document is found again. If the parent of a new element exists in the
  original document, the element does not, and the element matches itself (a list entry has its
  key), then \<^verbatim>\<open>edit_create\<close> succeeds, the search finds an equivalent, and that is the copy of the element
  without its operation attribute. The name of a key is excluded, since a key decides what its
  parent matches.
\<close>

theorem created_element_is_found:
  assumes "locate_in a (edit_doc st) [] = Some (edit, par # eas)" and "is_element edit"
    and "find_element_equiv (orig_doc st) eas par = Some q"
    and "find_element_equiv (orig_doc st) (par # eas) edit = None"
    and "matching_elements (Some edit) (Some edit) (par # eas) \<noteq> 0"
    and "\<forall>e \<in> set (edit # par # eas). node_name e \<notin> key_names"
  shows "\<exists>st' p. edit_create env False a st = Success st' \<and> locate_in a (edit_doc st') [] = None
                 \<and> find_element_equiv (orig_doc st') (par # eas) edit = Some p
                 \<and> node_at (orig_doc st') p = Some (drop_op_attr edit)"
proof -
  let ?x = "drop_op_attr edit" and ?doc = "orig_doc st"
  have el: "\<forall>e \<in> set (par # eas). is_element e \<and> node_name e \<notin> key_names"
    using locate_in_elements [OF assms(1)] assms(6) by simp
  have x: "is_element ?x" "node_name ?x \<notin> key_names" using assms(2,6) by simp_all
  obtain n where n: "node_at ?doc q = Some n" "is_element n"
    "find_element_equiv ?doc (par # eas) edit = map_option (\<lambda>(i, c). q @ [i]) (find_child edit (children n) (par # eas))"
    "find_element_equiv (add_child_at q ?x ?doc) (par # eas) edit
       = map_option (\<lambda>(i, c). q @ [i]) (find_child edit (children n @ [?x]) (par # eas))"
    using find_element_equiv_add [OF assms(3) el x] by blast
  have "find_child edit (children n @ [?x]) (par # eas) = Some (length (children n), ?x)"
    using n(3) assms(4,5) matching_same_look [OF same_look_drop [OF assms(2)] assms(2)] by (simp add: find_child_append)
  then show ?thesis
    using n(4) node_at_add [OF n(1,2) x(1)] edit_create_doc [OF assms(1), of env] edit_create_r_found [OF assms(3)]
    by (simp add: create_xml_def)
qed

definition demo_reply :: "xmlnode list \<Rightarrow> xmldoc" where
  "demo_reply ks = [Element 1 ''capable-switch'' None [] [] [Element 2 ''resources'' None [] [] ks]]"

definition demo_queue :: xmlnode where
  "demo_queue = Element 3 ''queue'' None [] [demo_op ''create'']
     [Element 4 ''resource-id'' None [] [] [TextNode 5 ''q1''], Element 6 ''port'' None [] [] [TextNode 7 ''eth0'']]"

lemmas search_simps = find_element_equiv_def matching_elements.simps(1) is_leaf_list_name_def list_key_def nscmp_def
  anc_name_def first_child_def go2node_def key_names_def

theorem created_element_is_found_witness:
  "\<exists>st' p. edit_create demo_env False 3 \<lparr>orig_doc = demo_reply [], edit_doc = demo_reply [demo_queue],
               sys = demo_ofc empty_db, pending = None\<rparr> = Success st'
           \<and> node_at (orig_doc st') p = Some (drop_op_attr demo_queue)"
proof -
  let ?st = "\<lparr>orig_doc = demo_reply [], edit_doc = demo_reply [demo_queue], sys = demo_ofc empty_db, pending = None\<rparr>"
  let ?par = "Element 2 ''resources'' None [] [] [demo_queue]"
  have "locate_in 3 (edit_doc ?st) [] = Some (demo_queue, ?par # demo_reply [demo_queue])" "is_element demo_queue"
    by (simp_all add: demo_reply_def demo_queue_def)
  moreover have "find_element_equiv (orig_doc ?st) (demo_reply [demo_queue]) ?par = Some [0, 0]"
    "find_element_equiv (orig_doc ?st) (?par # demo_reply [demo_queue]) demo_queue = None"
    "matching_elements (Some demo_queue) (Some demo_queue) (?par # demo_reply [demo_queue]) \<noteq> 0"
    "\<forall>e \<in> set (demo_queue # ?par # demo_reply [demo_queue]). node_name e \<notin> key_names"
    by (simp_all add: demo_reply_def demo_queue_def search_simps)
  ultimately show ?thesis using created_element_is_found [of 3 ?st demo_queue ?par _ _ demo_env] by blast
qed

text \<open>
  C30: creating an element below a list entry that does not exist yet loses the entry.
  \<^verbatim>\<open>edit_create_r\<close> copies the missing parent without its children, so without its key: after a successful
  \<^verbatim>\<open>edit_create\<close> neither the entry nor the new element is found in the document that now holds them.
\<close>

theorem created_entry_lacks_key:
  assumes "locate_in a (edit_doc st) [] = Some (edit, par # gp # eas)" and "is_element edit"
    and "find_element_equiv (orig_doc st) eas gp = Some q"
    and "find_element_equiv (orig_doc st) (gp # eas) par = None"
    and "list_key par (gp # eas) = Some k"
    and "\<forall>e \<in> set (edit # par # gp # eas). node_name e \<notin> key_names"
  shows "\<exists>st' p y. edit_create env False a st = Success st' \<and> node_at (orig_doc st') p = Some y
               \<and> node_name y = node_name par \<and> children y = [drop_op_attr edit]
               \<and> find_element_equiv (orig_doc st') (gp # eas) par = None
               \<and> find_element_equiv (orig_doc st') (par # gp # eas) edit = None"
proof -
  let ?x = "drop_op_attr edit" and ?doc = "orig_doc st"
  have el: "\<forall>e \<in> set (gp # eas). is_element e \<and> node_name e \<notin> key_names" and par: "is_element par"
    using locate_in_elements [OF assms(1)] assms(6) by simp_all
  have x: "is_element ?x" "node_name ?x \<notin> key_names" using assms(2,6) by simp_all
  obtain m where m: "node_at ?doc q = Some m" "is_element m"
    using find_element_equiv_add [OF assms(3) el x] by blast
  let ?y = "set_children [?x] (child_copy m par)"
  have copy: "is_element (child_copy m par)" "node_name (child_copy m par) = node_name par" "children (child_copy m par) = []"
    by (simp_all add: child_copy_def shallow_copy_def split: option.split)
  have y: "is_element ?y" "node_name ?y \<notin> key_names" using copy assms(6) by simp_all
  obtain n where n: "node_at ?doc q = Some n" "is_element n"
    "find_element_equiv ?doc (gp # eas) par = map_option (\<lambda>(i, c). q @ [i]) (find_child par (children n) (gp # eas))"
    "find_element_equiv (add_child_at q ?y ?doc) (gp # eas) par
       = map_option (\<lambda>(i, c). q @ [i]) (find_child par (children n @ [?y]) (gp # eas))"
    using find_element_equiv_add [OF assms(3) el y] by blast
  have "list_key ?y (gp # eas) = Some k" using assms(5) copy(2) by (simp add: list_key_def)
  moreover have "go2node (Some ?y) k = None"
    using x(2) list_key_names [OF assms(5)] copy(1) by (auto simp: go2node_def)
  moreover have "text_head ?y = None" using copy(1) x(1) by (simp add: text_head_def first_child_def element_not_text)
  ultimately have "matching_elements (Some par) (Some ?y) (gp # eas) = 0"
    unfolding matching_unfold [OF par] by (simp split: option.split)
  then have gone: "find_element_equiv (add_child_at q ?y ?doc) (gp # eas) par = None"
    using n(3,4) assms(4) by (simp add: find_child_append)
  have "edit_create_r ?doc par (gp # eas) = (q @ [length (children n)], add_child_at q (child_copy n par) ?doc)"
    using assms(4) edit_create_r_found [OF assms(3)] n(1) by simp
  then have "create_xml ?doc ?x (par # gp # eas) = add_child_at q ?y ?doc"
    using add_child_twice [OF n(1,2), of "child_copy m par" ?x] copy x(1) m(1) n(1)
    by (simp add: create_xml_def element_not_text)
  moreover have "node_at (add_child_at q ?y ?doc) (q @ [length (children n)]) = Some ?y" "node_name ?y = node_name par"
    "children ?y = [?x]"
    using node_at_add [OF n(1,2) y(1)] copy by simp_all
  moreover have "find_element_equiv (add_child_at q ?y ?doc) (par # gp # eas) edit = None"
    using gone find_equiv_prefix [of "add_child_at q ?y ?doc" "[]" "rev (par # gp # eas)" "[edit]"]
    by (simp add: find_element_equiv_def)
  ultimately show ?thesis
    using gone edit_create_doc [OF assms(1), of env]
    by (intro exI [where x = "forget a (st\<lparr>orig_doc := add_child_at q ?y ?doc\<rparr>)"] exI [where x = "q @ [length (children n)]"]
        exI [where x = ?y]) simp
qed

definition demo_entry :: xmlnode where
  "demo_entry = Element 3 ''queue'' None [] []
     [Element 4 ''resource-id'' None [] [] [TextNode 5 ''q1''],
      Element 6 ''port'' None [] [demo_op ''create''] [TextNode 7 ''eth0'']]"

theorem created_entry_lacks_key_witness:
  "\<exists>st' p y. edit_create demo_env False 6 \<lparr>orig_doc = demo_reply [], edit_doc = demo_reply [demo_entry],
               sys = demo_ofc empty_db, pending = None\<rparr> = Success st'
           \<and> node_at (orig_doc st') p = Some y \<and> node_name y = ''queue''"
proof -
  let ?st = "\<lparr>orig_doc = demo_reply [], edit_doc = demo_reply [demo_entry], sys = demo_ofc empty_db, pending = None\<rparr>"
  let ?gp = "Element 2 ''resources'' None [] [] [demo_entry]"
  let ?port = "Element 6 ''port'' None [] [demo_op ''create''] [TextNode 7 ''eth0'']"
  have "locate_in 6 (edit_doc ?st) [] = Some (?port, demo_entry # ?gp # demo_reply [demo_entry])" "is_element ?port"
    by (simp_all add: demo_reply_def demo_entry_def)
  moreover have "find_element_equiv (orig_doc ?st) (demo_reply [demo_entry]) ?gp = Some [0, 0]"
    "find_element_equiv (orig_doc ?st) (?gp # demo_reply [demo_entry]) demo_entry = None"
    "list_key demo_entry (?gp # demo_reply [demo_entry]) = Some ''resource-id''"
    "\<forall>e \<in> set (?port # demo_entry # ?gp # demo_reply [demo_entry]). node_name e \<notin> key_names"
    "node_name demo_entry = ''queue''"
    by (simp_all add: demo_reply_def demo_entry_def search_simps)
  ultimately show ?thesis using created_entry_lacks_key [of 6 ?st ?port demo_entry ?gp _ _ _ demo_env] by metis
qed

end
