(* ===== verification/Ovs_Get.thy ===== *)
theory Ovs_Get
  imports Ovs_OpenFlow
begin

text \<open>
  The configuration of the switch as XML text (\<^verbatim>\<open>ofc_get_config_data\<close> of \<^verbatim>\<open>ovs-data.c\<close> and the functions it
  calls). A string stands for the dynamic string a function builds; the functions that return NULL
  for an empty string return the empty string here, which their caller prints in the same way.
  \<open>None\<close> is a read through NULL or past a buffer. Printing a NULL string with \<^verbatim>\<open>%s\<close> counts as such a read.
\<close>

unbundle bit_operations_syntax

section \<open>Text\<close>

definition elem :: "string \<Rightarrow> string \<Rightarrow> string" where
  "elem n v = ''<'' @ n @ ''>'' @ v @ ''</'' @ n @ ''>''"

definition all_text :: "string option list \<Rightarrow> string option" where
  "all_text xs = map_option concat (all_some xs)"

definition find_and_append_smap_val :: "smap \<Rightarrow> string \<Rightarrow> string \<Rightarrow> string" where
  "find_and_append_smap_val s key n = (case smap_get s key of None \<Rightarrow> [] | Some v \<Rightarrow> elem n v)"

text \<open>The rows of a table in order, or what a list of references points to.\<close>

definition each_row :: "'r table \<Rightarrow> rowid list \<Rightarrow> (rowid \<Rightarrow> 'r \<Rightarrow> string option) \<Rightarrow> string option" where
  "each_row t rs f = all_text (map (\<lambda>r. case cells t r of None \<Rightarrow> None | Some x \<Rightarrow> f r x) rs)"

section \<open>Flow tables and queues\<close>

definition find_flowtable_id :: "rowid \<Rightarrow> 'k ofc \<Rightarrow> int option" where
  "find_flowtable_id ft s =
     map_option fst (find (\<lambda>(key, r). r = ft)
       (concat (map (\<lambda>b. case cells (tb_bridge (db s)) b of None \<Rightarrow> [] | Some x \<Rightarrow> br_flow_tables x)
                    (order (tb_bridge (db s))))))"

definition flow_table_config :: "'k ofc \<Rightarrow> rowid \<Rightarrow> ft_row \<Rightarrow> string option" where
  "flow_table_config s r row =
     (case find_flowtable_id r s of
        None \<Rightarrow> Some []
      | Some table_id \<Rightarrow>
          Some (elem ''flow-table''
            (elem ''table-id'' (show_int table_id)
             @ (case smap_get (ft_external_ids row) OFC_RESOURCE_ID of
                  None \<Rightarrow> [] | Some rid \<Rightarrow> if rid = [] then [] else elem ''resource-id'' rid)
             @ (case ft_name row of None \<Rightarrow> [] | Some n \<Rightarrow> elem ''name'' n))))"

definition get_flow_tables_config :: "'k ofc \<Rightarrow> string option" where
  "get_flow_tables_config s = each_row (tb_ft (db s)) (order (tb_ft (db s))) (flow_table_config s)"

definition queue_properties :: "queue_row \<Rightarrow> string" where
  "queue_properties row =
     concat (map (\<lambda>n. find_and_append_smap_val (q_other_config row) n n)
       [''min-rate'', ''max-rate'', ''experimenter-id'', ''experimenter-data''])"

definition queue_port_config :: "'k ofc \<Rightarrow> string \<Rightarrow> string option" where
  "queue_port_config s rid =
     (case find_queue_port rid s of
        None \<Rightarrow> None
      | Some None \<Rightarrow> Some []
      | Some (Some port) \<Rightarrow> map_option (elem ''port'') (port_name_of s port))"

definition queue_config :: "'k ofc \<Rightarrow> rowid \<Rightarrow> queue_row \<Rightarrow> string option" where
  "queue_config s r row =
     (case smap_get (q_external_ids row) OFC_RESOURCE_ID of
        None \<Rightarrow> Some []
      | Some rid \<Rightarrow>
          if rid = [] then Some []
          else map_option (\<lambda>port. elem ''queue''
                 (elem ''resource-id'' rid
                  @ find_and_append_smap_val (q_external_ids row) ''ofc_id'' ''id''
                  @ port
                  @ (if queue_properties row = [] then [] else elem ''properties'' (queue_properties row))))
                 (queue_port_config s rid))"

definition get_queues_config :: "'k ofc \<Rightarrow> string option" where
  "get_queues_config s = each_row (tb_queue (db s)) (order (tb_queue (db s))) (queue_config s)"

section \<open>Ports\<close>

definition dump_port_features :: "'k env \<Rightarrow> 32 word \<Rightarrow> string" where
  "dump_port_features env bits =
     (let on = (\<lambda>a. adv_bit env a AND bits \<noteq> 0) in
      concat (map (\<lambda>(a, str). if on a then elem ''rate'' str else []) rates)
      @ elem ''auto-negotiate'' (if on ADVERTISED_Autoneg then ''true'' else ''false'')
      @ concat (map (\<lambda>(a, str). if on a then elem ''medium'' str else []) medium)
      @ elem ''pause'' (if on ADVERTISED_Asym_Pause then ''asymmetric''
                        else if on ADVERTISED_Pause then ''symmetric'' else ''unsupported''))"

text \<open>The reply to the request for the ports; without a connection there is none.\<close>

datatype ports_reply = NoReply | BadReply | Reply string "(string \<times> nat) list"

definition ports_of_bridge :: "'k env \<Rightarrow> string \<Rightarrow> 'k ofc \<Rightarrow> ports_reply option" where
  "ports_of_bridge env name s =
     (case of_open_vconn env name of
        None \<Rightarrow> None
      | Some None \<Rightarrow> Some NoReply
      | Some (Some vconn) \<Rightarrow>
          (case of_port_desc env (kst s) vconn of
             OfLost \<Rightarrow> None
           | OfOther \<Rightarrow> Some BadReply
           | OfPorts ports \<Rightarrow> Some (Reply vconn ports)))"

definition of_get_port_byname :: "ports_reply \<Rightarrow> string \<Rightarrow> (string \<times> nat) option" where
  "of_get_port_byname reply name =
     (case reply of Reply vconn ports \<Rightarrow> find (\<lambda>(n, p). n = name) ports | _ \<Rightarrow> None)"

definition port_configuration :: "'k env \<Rightarrow> ports_reply \<Rightarrow> rowid \<Rightarrow> string \<Rightarrow> 'k ofc \<Rightarrow> string" where
  "port_configuration env reply r name s =
     (case (reply, of_get_port_byname reply name) of
        (Reply vconn ports, Some _) \<Rightarrow>
          (let c = of_port_config env (kst s) vconn name;
               flag = (\<lambda>b. if c b then ''true'' else ''false'')
           in elem ''configuration''
                (elem ''admin-state'' (if c OFPUTIL_PC_PORT_DOWN then ''down'' else ''up'')
                 @ elem ''no-receive'' (flag OFPUTIL_PC_NO_RECV)
                 @ elem ''no-forward'' (flag OFPUTIL_PC_NO_FWD)
                 @ elem ''no-packet-in'' (flag OFPUTIL_PC_NO_PACKET_IN)))
      | _ \<Rightarrow>
          (case iface_admin_state env (kst s) r of
             None \<Rightarrow> []
           | Some v \<Rightarrow> elem ''configuration'' (elem ''admin-state'' v)))"

definition tunnel_config :: "iface_row \<Rightarrow> string" where
  "tunnel_config row =
     (case smap_get (i_external_ids row) ''tunnel_type'' of
        None \<Rightarrow> []
      | Some t \<Rightarrow>
          elem t
            (find_and_append_smap_val (i_options row) ''local_ip'' ''local-endpoint-ipv4-adress''
             @ find_and_append_smap_val (i_options row) ''remote_ip'' ''remote-endpoint-ipv4-adress''
             @ (if t = ''ipgre-tunnel'' then
                  find_and_append_smap_val (i_options row) ''csum'' ''checksum-present''
                  @ find_and_append_smap_val (i_options row) ''key'' ''key''
                else if t = ''vxlan-tunnel'' then find_and_append_smap_val (i_options row) ''key'' ''vni''
                else [])))"

definition iface_config :: "'k env \<Rightarrow> ports_reply \<Rightarrow> 'k ofc \<Rightarrow> rowid \<Rightarrow> iface_row \<Rightarrow> string option" where
  "iface_config env reply s r row =
     (case i_name row of
        None \<Rightarrow> None
      | Some name \<Rightarrow>
          Some (elem ''port''
            (elem ''name'' name
             @ (case i_ofport_request row of
                  None \<Rightarrow> [] | Some n \<Rightarrow> elem ''requested-number'' (show_nat (nat (n mod 2 ^ 64))))
             @ port_configuration env reply r name s
             @ (if dev_is_system env s name
                then elem ''features'' (elem ''advertised'' (dump_port_features env (dev_get_ethtool env s name)))
                else [])
             @ tunnel_config row)))"

definition get_ports_config :: "'k env \<Rightarrow> 'k ofc \<Rightarrow> bridge_row \<Rightarrow> string option" where
  "get_ports_config env s bridge =
     (case br_name bridge of
        None \<Rightarrow> None
      | Some name \<Rightarrow>
          (case ports_of_bridge env name s of
             None \<Rightarrow> None
           | Some reply \<Rightarrow>
               each_row (tb_port (db s)) (br_ports bridge) (\<lambda>p port.
                 each_row (tb_iface (db s)) (p_interfaces port) (iface_config env reply s))))"

section \<open>Switches\<close>

text \<open>
  \<^verbatim>\<open>parse_target_to_addr\<close> cuts the target at the delimiters: protocol, address and port. Without a colon
  \<^verbatim>\<open>strchr(delim, '[')\<close> reads through NULL. With a bracket anywhere after the first colon the address is
  taken to be in brackets and its first character is dropped.
\<close>

definition cut_at :: "char \<Rightarrow> string \<Rightarrow> (string \<times> string) option" where
  "cut_at c s = (case strchr s c of None \<Rightarrow> None | Some i \<Rightarrow> Some (take i s, drop (Suc i) s))"

definition address_and_port :: "string \<Rightarrow> string \<times> string option" where
  "address_and_port rest =
     (if CHR ''['' \<in> set rest then
        (case cut_at (CHR '']'') (drop 1 rest) of
           None \<Rightarrow> (drop 1 rest, None)
         | Some (address, after) \<Rightarrow>
             (address, if after \<noteq> [] \<and> hd after = CHR '':'' then Some (tl after) else None))
      else
        (case cut_at (CHR '':'') rest of
           None \<Rightarrow> (rest, None)
         | Some (address, port) \<Rightarrow> (address, Some port)))"

definition parse_target_to_addr :: "string \<Rightarrow> (string \<times> string \<times> string option) option" where
  "parse_target_to_addr t =
     (case cut_at (CHR '':'') t of
        None \<Rightarrow> None
      | Some (protocol, rest) \<Rightarrow> Some (if protocol = ''ssl'' then ''tls'' else protocol, address_and_port rest))"

definition get_controller_config :: "contr_row \<Rightarrow> string option" where
  "get_controller_config row =
     (case (c_target row, smap_get (c_external_ids row) ''ofconfig-id'') of
        (Some target, Some cid) \<Rightarrow>
          (case parse_target_to_addr target of
             None \<Rightarrow> None
           | Some (protocol, address, port) \<Rightarrow>
               Some (elem ''controller''
                 (elem ''id'' cid
                  @ elem ''ip-address'' address
                  @ (case port of None \<Rightarrow> [] | Some p \<Rightarrow> elem ''port'' p)
                  @ (case c_local_ip row of None \<Rightarrow> [] | Some ip \<Rightarrow> elem ''local-ip-address'' ip)
                  @ elem ''protocol'' protocol)))
      | _ \<Rightarrow> None)"

text \<open>
  The loop that prints the datapath id into 23 characters: at every third one a colon. It reads
  \<^verbatim>\<open>datapath_id[i++]\<close>, at most up to the terminating NUL.
\<close>

fun dpid_loop :: "string \<Rightarrow> nat \<Rightarrow> nat \<Rightarrow> nat \<Rightarrow> string option" where
  "dpid_loop d i j 0 = Some []"
| "dpid_loop d i j (Suc n) =
     (if j mod 3 = 0 then map_option ((#) (CHR '':'')) (dpid_loop d i (Suc j) n)
      else if i \<le> length d then map_option ((#) ((d @ [NUL]) ! i)) (dpid_loop d (Suc i) (Suc j) n)
      else None)"

definition dpid_text :: "string \<Rightarrow> string option" where
  "dpid_text d = map_option (takeWhile (\<lambda>c. c \<noteq> NUL)) (dpid_loop d 0 1 23)"

definition failmode_config :: "bridge_row \<Rightarrow> string" where
  "failmode_config row =
     (case br_fail_mode row of
        None \<Rightarrow> []
      | Some m \<Rightarrow> elem ''lost-connection-behavior'' (if m = ''standalone'' then ''failStandaloneMode'' else ''failSecureMode''))"

text \<open>What a switch refers to; the certificate is the same for all.\<close>

definition port_queues :: "'k ofc \<Rightarrow> rowid \<Rightarrow> port_row \<Rightarrow> string option" where
  "port_queues s r port =
     (case p_qos port of
        None \<Rightarrow> Some []
      | Some q \<Rightarrow>
          (case cells (tb_qos (db s)) q of
             None \<Rightarrow> None
           | Some qos \<Rightarrow>
               each_row (tb_queue (db s)) (map snd (qos_queues qos))
                 (\<lambda>r row. Some (find_and_append_smap_val (q_external_ids row) OFC_RESOURCE_ID ''queue''))))"

definition bridge_resources :: "'k ofc \<Rightarrow> string option \<Rightarrow> bridge_row \<Rightarrow> string option" where
  "bridge_resources s cert row =
     all_text
       [each_row (tb_port (db s)) (br_ports row) (\<lambda>r port. map_option (elem ''port'') (p_name port)),
        Some (concat (map (\<lambda>(key, r). elem ''flow-table'' (show_int key)) (br_flow_tables row))),
        each_row (tb_port (db s)) (br_ports row) (port_queues s),
        Some (case cert of None \<Rightarrow> [] | Some c \<Rightarrow> elem ''certificate'' c)]"

definition bridge_config :: "'k ofc \<Rightarrow> string option \<Rightarrow> rowid \<Rightarrow> bridge_row \<Rightarrow> string option" where
  "bridge_config s cert r row =
     map_option (elem ''switch'')
       (all_text
         [map_option (elem ''id'') (br_name row),
          (case br_datapath_id row of None \<Rightarrow> Some [] | Some d \<Rightarrow> map_option (elem ''datapath-id'') (dpid_text d)),
          Some (failmode_config row),
          (if br_controller row = [] then Some []
           else map_option (elem ''controllers'')
                  (each_row (tb_contr (db s)) (br_controller row) (\<lambda>r. get_controller_config))),
          map_option (\<lambda>aux. if aux = [] then [] else elem ''resources'' aux) (bridge_resources s cert row)])"

definition certificate_resid :: "'k ofc \<Rightarrow> string option option" where
  "certificate_resid s =
     (case order (tb_ovs (db s)) of
        [] \<Rightarrow> Some None
      | r # rs \<Rightarrow>
          (case cells (tb_ovs (db s)) r of
             None \<Rightarrow> None
           | Some ovs \<Rightarrow>
               (case o_ssl ovs of
                  None \<Rightarrow> Some None
                | Some ssl \<Rightarrow> map_option (\<lambda>x. smap_get (ssl_external_ids x) OFC_RESID_OWN) (cells (tb_ssl (db s)) ssl))))"

definition get_bridges_config :: "'k ofc \<Rightarrow> string option" where
  "get_bridges_config s =
     (case certificate_resid s of
        None \<Rightarrow> None
      | Some cert \<Rightarrow> each_row (tb_bridge (db s)) (order (tb_bridge (db s))) (bridge_config s cert))"

section \<open>Certificates\<close>

text \<open>
  Reading a file: the text, or \<open>None\<close> when it cannot be opened or read. The text between the markers is
  cut out by writing a NUL; \<open>text_at\<close> is the C string at a position.
\<close>

definition read_pem :: "'k env \<Rightarrow> 'k ofc \<Rightarrow> string \<Rightarrow> string option" where
  "read_pem env s path =
     (case files s path of
        None \<Rightarrow> None
      | Some c \<Rightarrow>
          if \<not> os_open env path then None
          else (case os_read env path c of
                  None \<Rightarrow> None
                | Some n \<Rightarrow> if n < length c then None else Some (takeWhile (\<lambda>x. x \<noteq> NUL) c)))"

definition text_at :: "nat \<Rightarrow> string \<Rightarrow> string" where
  "text_at i s = takeWhile (\<lambda>c. c \<noteq> NUL) (drop i s)"

definition certificate_text :: "'k env \<Rightarrow> 'k ofc \<Rightarrow> string \<Rightarrow> string option" where
  "certificate_text env s path =
     (case read_pem env s path of
        None \<Rightarrow> None
      | Some pem \<Rightarrow>
          (case (strstr pem cert_begin, strstr pem cert_end) of
             (Some a, Some b) \<Rightarrow> Some (text_at (a + 28) (pem[b := NUL]))
           | _ \<Rightarrow> None))"

definition key_text :: "'k env \<Rightarrow> 'k ofc \<Rightarrow> string \<Rightarrow> (string \<times> string) option" where
  "key_text env s path =
     (case read_pem env s path of
        None \<Rightarrow> None
      | Some pem \<Rightarrow>
          (case pem_markers pem of
             None \<Rightarrow> None
           | Some (a, b) \<Rightarrow>
               (let cut_pem = pem[b := NUL, b + 13 := NUL]
                in Some (text_at (b + 10) cut_pem, text_at (a + 32) cut_pem))))"

text \<open>The first SSL record; an error or a missing value gives no text at all.\<close>

definition first_ssl :: "'k ofc \<Rightarrow> ssl_row option" where
  "first_ssl s = (case order (tb_ssl (db s)) of [] \<Rightarrow> None | r # rs \<Rightarrow> cells (tb_ssl (db s)) r)"

definition get_owned_certificates_config :: "'k env \<Rightarrow> 'k ofc \<Rightarrow> string" where
  "get_owned_certificates_config env s =
     (case first_ssl s of
        None \<Rightarrow> []
      | Some ssl \<Rightarrow>
          (case (ssl_certificate ssl, ssl_private_key ssl, smap_get (ssl_external_ids ssl) OFC_RESID_OWN) of
             (Some cert, Some key, Some resid) \<Rightarrow>
               (case (certificate_text env s cert, key_text env s key) of
                  (Some c, Some (t, d)) \<Rightarrow>
                    elem ''owned-certificate''
                      (elem ''resource-id'' resid @ elem ''certificate'' c
                       @ elem ''private-key'' (elem ''key-type'' t @ elem ''key-data'' d))
                | _ \<Rightarrow> [])
           | _ \<Rightarrow> []))"

definition get_external_certificates_config :: "'k env \<Rightarrow> 'k ofc \<Rightarrow> string" where
  "get_external_certificates_config env s =
     (case first_ssl s of
        None \<Rightarrow> []
      | Some ssl \<Rightarrow>
          (case (ssl_ca_cert ssl, smap_get (ssl_external_ids ssl) OFC_RESID_EXT) of
             (Some ca, Some resid) \<Rightarrow>
               (case certificate_text env s ca of
                  Some c \<Rightarrow> elem ''external-certificate'' (elem ''resource-id'' resid @ elem ''certificate'' c)
                | None \<Rightarrow> [])
           | _ \<Rightarrow> []))"

section \<open>The whole configuration\<close>

definition config_resources :: "'k env \<Rightarrow> 'k ofc \<Rightarrow> string option" where
  "config_resources env s =
     all_text
       [each_row (tb_bridge (db s)) (order (tb_bridge (db s))) (\<lambda>r. get_ports_config env s),
        get_queues_config s,
        Some (get_owned_certificates_config env s),
        Some (get_external_certificates_config env s),
        get_flow_tables_config s]"

definition config_head :: string where
  "config_head = ''<?xml version='' @ [CHR 0x22] @ ''1.0'' @ [CHR 0x22] @ ''?><capable-switch xmlns='' @ [CHR 0x22]
     @ ''urn:onf:config:yang'' @ [CHR 0x22] @ ''>''"

definition ofc_get_config_data :: "'k env \<Rightarrow> 'k ofc \<Rightarrow> (string \<times> 'k ofc) option" where
  "ofc_get_config_data env s0 =
     (let s = s0\<lparr>db := idl_run env (kst s0) (db s0)\<rparr> in
      case cs_id s of
        None \<Rightarrow> Some ([], s)
      | Some switchid \<Rightarrow>
          (case (config_resources env s, get_bridges_config s) of
             (Some resources, Some bridges) \<Rightarrow>
               Some (config_head @ elem ''id'' switchid
                 @ (if resources = [] then [] else elem ''resources'' resources)
                 @ (if bridges = [] then [] else elem ''logical-switches'' bridges)
                 @ ''</capable-switch>'', s)
           | _ \<Rightarrow> None))"

section \<open>Reading back what was stored\<close>

lemma cut_at_append: "c \<notin> set a \<Longrightarrow> cut_at c (a @ c # b) = Some (a, b)"
  by (simp add: cut_at_def)

lemma cut_at_None: "c \<notin> set a \<Longrightarrow> cut_at c a = None"
  by (simp add: cut_at_def split: option.split)

lemma parse_contr_target:
  assumes "CHR '':'' \<notin> set proto" and "CHR '':'' \<notin> set ip" and "CHR ''['' \<notin> set ip"
    and "\<forall>p. port = Some p \<longrightarrow> CHR ''['' \<notin> set p"
  shows "parse_target_to_addr (contr_target proto ip port) = Some (if proto = ''ssl'' then ''tls'' else proto, ip, port)"
proof -
  let ?rest = "ip @ (case port of None \<Rightarrow> [] | Some p \<Rightarrow> '':'' @ p)"
  have "address_and_port ?rest = (ip, port)"
    using assms cut_at_append [of "CHR '':''" ip] cut_at_None [of "CHR '':''" ip]
    by (auto simp: address_and_port_def split: option.split)
  then show ?thesis
    using cut_at_append [OF assms(1), of ?rest] by (simp add: parse_target_to_addr_def contr_target_def)
qed

lemma text_at_NUL: "length a = n \<Longrightarrow> NUL \<notin> set b \<Longrightarrow> text_at n (a @ b @ NUL # c) = b"
  by (simp add: text_at_def takeWhile_append)

lemma read_pem_ok:
  "disk_ok env \<Longrightarrow> files s f = Some c \<Longrightarrow> NUL \<notin> set c \<Longrightarrow> read_pem env s f = Some c"
  by (auto simp: read_pem_def disk_ok_simps takeWhile_eq_all_conv)

lemma cert_end_found:
  assumes "CHR ''-'' \<notin> set cert"
  shows "strstr (cert_begin @ cert @ cert_end) cert_end = Some (length (cert_begin @ cert))"
proof -
  let ?B = "''-----BEGIN CERTIFICATE-----''" and ?q = "''----END CERTIFICATE-----''"
  have e: "cert_end = LF # CHR ''-'' # ?q" by (simp add: cert_end_def)
  have "strstr ((LF # cert) @ cert_end) cert_end = Some (length (LF # cert))"
    using strstr_lines [of "LF # cert" ?q ?q] strstr_prefix [of cert_end "[]"] assms by (simp add: e)
  moreover have "cert_begin @ cert @ cert_end = ?B @ (LF # cert) @ cert_end" by (simp add: cert_begin_def)
  ultimately show ?thesis using strstr_skip [of cert_end ?B] by (simp add: cert_begin_def e)
qed

lemma certificate_text_ok:
  assumes "disk_ok env" and "files s f = Some (cert_begin @ cert @ cert_end)"
    and "CHR ''-'' \<notin> set cert" and "NUL \<notin> set cert"
  shows "certificate_text env s f = Some cert"
proof -
  let ?pem = "cert_begin @ cert @ cert_end"
  have nul: "NUL \<notin> set ?pem" using assms(4) by (simp add: cert_begin_def cert_end_def)
  have "?pem[length (cert_begin @ cert) := NUL] = cert_begin @ cert @ NUL # tl cert_end"
    by (simp add: list_update_append cert_end_def)
  moreover have "length cert_begin = 28" by (simp add: cert_begin_def)
  ultimately show ?thesis
    using read_pem_ok [OF assms(1,2) nul] strstr_prefix [of cert_begin "cert @ cert_end"] cert_end_found [OF assms(3)]
      text_at_NUL [of cert_begin 28 cert "tl cert_end"] assms(4)
    by (simp add: certificate_text_def)
qed

lemma key_text_ok:
  assumes "disk_ok env" and "files s f = Some (pem_text t d)" and t: "t = ''RSA'' \<or> t = ''DSA''"
    and "CHR ''-'' \<notin> set d" and "NUL \<notin> set d"
  shows "key_text env s f = Some (t, d)"
proof -
  let ?pem = "pem_text t d" and ?b = "length (pem_begin t @ d)" and ?e = "''-----END ''" and ?r = "''PRIVATE KEY-----''"
  have nul: "NUL \<notin> set ?pem" using t assms(5) no_NUL_markers by (auto simp: pem_text_def)
  have "?pem = pem_begin t @ d @ [LF] @ ?e @ t @ [CHR '' ''] @ ?r" by (simp add: pem_text_def pem_end_def)
  then have cut: "?pem[?b := NUL, ?b + 13 := NUL] = pem_begin t @ d @ NUL # ?e @ t @ NUL # ?r"
    using t by (auto simp: list_update_append)
  have "text_at 32 (?pem[?b := NUL, ?b + 13 := NUL]) = d"
    unfolding cut using marker_lengths [OF t] assms(5) by (intro text_at_NUL) simp_all
  moreover have "text_at (?b + 10) (?pem[?b := NUL, ?b + 13 := NUL]) = t"
    using text_at_NUL [of "pem_begin t @ d @ NUL # ?e" "?b + 10" t ?r] t unfolding cut by auto
  ultimately show ?thesis
    using read_pem_ok [OF assms(1,2) nul] pem_markers_text [OF t assms(4)] by (simp add: key_text_def)
qed

lemma length_16: "length d = 16 \<Longrightarrow> \<exists>a b c e f g h i j k l m n p q r. d = [a, b, c, e, f, g, h, i, j, k, l, m, n, p, q, r]"
  by (auto simp: length_Suc_conv eval_nat_numeral)

lemma dpid_loop_step:
  "dpid_loop d i j (numeral n) =
     (if j mod 3 = 0 then map_option ((#) (CHR '':'')) (dpid_loop d i (Suc j) (pred_numeral n))
      else if i \<le> length d then map_option ((#) ((d @ [NUL]) ! i)) (dpid_loop d (Suc i) (Suc j) (pred_numeral n))
      else None)"
  unfolding numeral_eq_Suc [of n] by (rule dpid_loop.simps(2))

lemma dpid_text_ok:
  assumes "length d = 16" and "CHR '':'' \<notin> set d" and "NUL \<notin> set d"
  shows "\<exists>t. dpid_text d = Some t \<and> length t = 23 \<and> no_colons t = d \<and> NUL \<notin> set t"
proof -
  obtain a b c e f g h i j k l m n p q r where d: "d = [a, b, c, e, f, g, h, i, j, k, l, m, n, p, q, r]"
    using length_16 [OF assms(1)] by blast
  let ?t = "[a, b, CHR '':'', c, e, CHR '':'', f, g, CHR '':'', h, i, CHR '':'', j, k, CHR '':'', l, m, CHR '':'',
      n, p, CHR '':'', q, r]"
  have "dpid_loop d 0 1 23 = Some ?t"
    unfolding d by (simp add: dpid_loop_step)
  moreover have nul: "NUL \<notin> set ?t" using assms(3) d by simp
  then have "takeWhile (\<lambda>c. c \<noteq> NUL) ?t = ?t" unfolding takeWhile_eq_all_conv by blast
  moreover have "no_colons ?t = d"
  proof -
    have "a \<noteq> CHR '':''" "b \<noteq> CHR '':''" "c \<noteq> CHR '':''" "e \<noteq> CHR '':''" "f \<noteq> CHR '':''" "g \<noteq> CHR '':''" "h \<noteq> CHR '':''"
      "i \<noteq> CHR '':''" "j \<noteq> CHR '':''" "k \<noteq> CHR '':''" "l \<noteq> CHR '':''" "m \<noteq> CHR '':''" "n \<noteq> CHR '':''" "p \<noteq> CHR '':''"
      "q \<noteq> CHR '':''" "r \<noteq> CHR '':''"
      using assms(2) unfolding d by auto
    then show ?thesis unfolding d no_colons_def by simp
  qed
  ultimately show ?thesis using nul by (simp add: dpid_text_def)
qed

section \<open>Properties\<close>

text \<open>
  C35: the text of a datapath id is the inverse of its parsing. For an id of 16 characters the loop of
  \<^verbatim>\<open>get_bridges_config\<close> stays in its buffers, prints 23 characters, and \<^verbatim>\<open>txn_mod_bridge_datapath\<close> reads the
  same id back from them.
\<close>

theorem datapath_id_printed_and_parsed:
  assumes "length d = 16" and "CHR '':'' \<notin> set d" and "NUL \<notin> set d"
  shows "\<exists>t. dpid_text d = Some t \<and> length t = 23 \<and> datapath_bytes t = Some d"
  using dpid_text_ok [OF assms] assms(1) by (auto simp: datapath_bytes_eq)

theorem datapath_id_printed_and_parsed_witness:
  "\<exists>t. dpid_text ''0000001b213c4d5e'' = Some t \<and> datapath_bytes t = Some ''0000001b213c4d5e''"
  using datapath_id_printed_and_parsed [of "''0000001b213c4d5e''"] by auto

text \<open>
  The configuration shows a controller as it was created. From the target that \<^verbatim>\<open>txn_add_contr\<close> builds out
  of a protocol, an address without colons and brackets and an optional port, \<^verbatim>\<open>get_controller_config\<close>
  prints that address and port, and the protocol with \<^verbatim>\<open>ssl\<close> written as \<^verbatim>\<open>tls\<close>.
\<close>

lemma controller_shown_as_created:
  assumes "c_target x = Some (contr_target proto ip port)" and "smap_get (c_external_ids x) ''ofconfig-id'' = Some cid"
    and "CHR '':'' \<notin> set proto" and "CHR '':'' \<notin> set ip" and "CHR ''['' \<notin> set ip"
    and "\<forall>p. port = Some p \<longrightarrow> CHR ''['' \<notin> set p"
  shows "get_controller_config x = Some (elem ''controller''
           (elem ''id'' cid @ elem ''ip-address'' ip @ (case port of None \<Rightarrow> [] | Some p \<Rightarrow> elem ''port'' p)
            @ (case c_local_ip x of None \<Rightarrow> [] | Some l \<Rightarrow> elem ''local-ip-address'' l)
            @ elem ''protocol'' (if proto = ''ssl'' then ''tls'' else proto)))"
  using assms(1,2) parse_contr_target [OF assms(3-6)] by (simp add: get_controller_config_def)

lemma controller_shown_as_created_example:
  "get_controller_config \<lparr>c_target = Some (contr_target ''ssl'' ''10.0.0.1'' (Some ''6633'')), c_local_ip = None,
     c_connection_mode = None, c_external_ids = [(''ofconfig-id'', ''c1'')]\<rparr>
   = Some ''<controller><id>c1</id><ip-address>10.0.0.1</ip-address><port>6633</port><protocol>tls</protocol></controller>''"
  using controller_shown_as_created [of "\<lparr>c_target = Some (contr_target ''ssl'' ''10.0.0.1'' (Some ''6633'')),
      c_local_ip = None, c_connection_mode = None, c_external_ids = [(''ofconfig-id'', ''c1'')]\<rparr>"
      "''ssl''" "''10.0.0.1''" "Some ''6633''" "''c1''"]
  by (simp add: smap_get_def elem_def)

text \<open>
  C36: the certificate and the key that \<^verbatim>\<open>txn_add_owned_certificate\<close> has written are read back unchanged. If the
  files of the first SSL record hold what \<^verbatim>\<open>write_cert\<close> and the code for the key write, for an RSA or DSA
  key and data without dashes, the configuration shows the certificate, the type and the data.
\<close>

theorem owned_certificate_shown_as_stored:
  assumes "disk_ok env" and "first_ssl s = Some x" and "ssl_certificate x = Some f" and "ssl_private_key x = Some g"
    and "smap_get (ssl_external_ids x) OFC_RESID_OWN = Some rid"
    and "files s f = Some (cert_begin @ cert @ cert_end)" and "files s g = Some (pem_text t d)"
    and "t = ''RSA'' \<or> t = ''DSA''"
    and "CHR ''-'' \<notin> set cert \<union> set d" and "NUL \<notin> set cert \<union> set d"
  shows "get_owned_certificates_config env s =
           elem ''owned-certificate'' (elem ''resource-id'' rid @ elem ''certificate'' cert
             @ elem ''private-key'' (elem ''key-type'' t @ elem ''key-data'' d))"
  using assms certificate_text_ok [OF assms(1,6)] key_text_ok [OF assms(1,7,8)]
  by (simp add: get_owned_certificates_config_def)

definition shown_ssl :: ssl_row where
  "shown_ssl = \<lparr>ssl_certificate = Some ''/c'', ssl_private_key = Some ''/k'', ssl_ca_cert = None,
     ssl_external_ids = [(OFC_RESID_OWN, ''own'')]\<rparr>"

theorem owned_certificate_shown_as_stored_witness:
  "get_owned_certificates_config demo_env
     (put_file ''/k'' (pem_text ''DSA'' ''wxyz'') (put_file ''/c'' (cert_begin @ ''abcd'' @ cert_end)
        (demo_ofc (empty_db\<lparr>tb_ssl := one_row 1 shown_ssl\<rparr>))))
   = elem ''owned-certificate'' (elem ''resource-id'' ''own'' @ elem ''certificate'' ''abcd''
       @ elem ''private-key'' (elem ''key-type'' ''DSA'' @ elem ''key-data'' ''wxyz''))"
  using owned_certificate_shown_as_stored [OF demo_disk_ok, of
      "put_file ''/k'' (pem_text ''DSA'' ''wxyz'') (put_file ''/c'' (cert_begin @ ''abcd'' @ cert_end)
        (demo_ofc (empty_db\<lparr>tb_ssl := one_row 1 shown_ssl\<rparr>)))" shown_ssl "''/c''" "''/k''" "''own''" "''abcd''" "''DSA''" "''wxyz''"]
  by (simp add: shown_ssl_def first_ssl_def one_row_def smap_get_def)

end
