(* ===== verification/Datastore.thy ===== *)
theory Datastore
  imports Edit_Ops Ovs_Get
begin

text \<open>
  The datastore callbacks of \<^verbatim>\<open>ofconfig-datastore.c\<close> that libnetconf calls. Startup and candidate are
  documents kept by the server; running is the switch itself, printed to a document by
  \<^const>\<open>ofc_get_config_data\<close> and changed through a transaction.

  libxml2 and libnetconf come in as \<open>lib\<close>: parsing and printing of documents, the mode of the
  with-defaults capability, and the value of the enumeration type of operations that a default
  operation is cast to.
\<close>

section \<open>State\<close>

datatype nc_datastore =
    NC_DATASTORE_ERROR | NC_DATASTORE_CONFIG | NC_DATASTORE_URL
  | NC_DATASTORE_RUNNING | NC_DATASTORE_STARTUP | NC_DATASTORE_CANDIDATE

record ds_lock =
  locked :: bool
  sid :: "string option"

record 'k dstore =
  gds_startup :: "xmldoc option"
  gds_cand :: "xmldoc option"
  rollback_doc :: "xmldoc option"
  rollback_type :: nc_datastore
  rollbacking :: bool
  lock_running :: ds_lock
  lock_startup :: ds_lock
  lock_cand :: ds_lock
  switch :: "'k ofc"

record xml_lib =
  xmlReadMemory :: "string \<Rightarrow> xmldoc option"
  xmlDocDumpMemory :: "xmldoc \<Rightarrow> string"
  ncdflt_mode :: ncwd_mode
  op_of_defop :: "defop \<Rightarrow> edit_op"

definition store_rollback :: "xmldoc option \<Rightarrow> nc_datastore \<Rightarrow> 'k dstore \<Rightarrow> 'k dstore" where
  "store_rollback doc type ds = ds\<lparr>rollback_doc := doc, rollback_type := type\<rparr>"

section \<open>The startup file\<close>

text \<open>
  \<^verbatim>\<open>ofcds_init\<close> reads startup from the file, an empty document counting as none; \<^verbatim>\<open>ofcds_free\<close> writes it back
  with \<open>save\<close>, or empties the file if there is one.
\<close>

definition load_startup :: "xml_lib \<Rightarrow> string option \<Rightarrow> xmldoc option" where
  "load_startup lib file =
     (case file of
        None \<Rightarrow> None
      | Some s \<Rightarrow>
          (case xmlReadMemory lib s of
             None \<Rightarrow> None
           | Some d \<Rightarrow> if root_element d = None then None else Some d))"

definition save_startup :: "(xmldoc \<Rightarrow> string) \<Rightarrow> xmldoc option \<Rightarrow> string option \<Rightarrow> string option" where
  "save_startup save startup file =
     (case startup of
        Some d \<Rightarrow> Some (save d)
      | None \<Rightarrow> (case file of None \<Rightarrow> None | Some _ \<Rightarrow> Some []))"

lemma startup_survives_restart:
  assumes "xmlReadMemory lib [] = None"
    and "\<forall>d. startup = Some d \<longrightarrow> root_element d \<noteq> None \<and> xmlReadMemory lib (save d) = Some d"
  shows "load_startup lib (save_startup save startup file) = startup"
  using assms by (auto simp: load_startup_def save_startup_def split: option.split)

section \<open>Locks\<close>

text \<open>The lock a target selects and what replaces it; the other targets are left to libnetconf.\<close>

definition lock_of :: "nc_datastore \<Rightarrow> 'k dstore \<Rightarrow> ds_lock option" where
  "lock_of target ds =
     (case target of
        NC_DATASTORE_RUNNING \<Rightarrow> Some (lock_running ds)
      | NC_DATASTORE_STARTUP \<Rightarrow> Some (lock_startup ds)
      | NC_DATASTORE_CANDIDATE \<Rightarrow> Some (lock_cand ds)
      | _ \<Rightarrow> None)"

definition set_lock :: "nc_datastore \<Rightarrow> ds_lock \<Rightarrow> 'k dstore \<Rightarrow> 'k dstore" where
  "set_lock target l ds =
     (case target of
        NC_DATASTORE_RUNNING \<Rightarrow> ds\<lparr>lock_running := l\<rparr>
      | NC_DATASTORE_STARTUP \<Rightarrow> ds\<lparr>lock_startup := l\<rparr>
      | NC_DATASTORE_CANDIDATE \<Rightarrow> ds\<lparr>lock_cand := l\<rparr>
      | _ \<Rightarrow> ds)"

definition lock_denied :: "string option \<Rightarrow> nc_err" where
  "lock_denied owner = (nc_err_new NC_ERR_LOCK_DENIED)\<lparr>err_sid := owner\<rparr>"

definition ofcds_lock :: "nc_datastore \<Rightarrow> string \<Rightarrow> 'k dstore \<Rightarrow> 'k dstore outcome" where
  "ofcds_lock target session_id ds =
     (case lock_of target ds of
        None \<Rightarrow> Failure None ds
      | Some l \<Rightarrow>
          if locked l then fail (lock_denied (sid l)) ds
          else Success (set_lock target \<lparr>locked = True, sid = Some session_id\<rparr> ds))"

definition ofcds_unlock :: "nc_datastore \<Rightarrow> string \<Rightarrow> 'k dstore \<Rightarrow> 'k dstore outcome" where
  "ofcds_unlock target session_id ds =
     (case lock_of target ds of
        None \<Rightarrow> Failure None ds
      | Some l \<Rightarrow>
          if \<not> locked l then fail (err_text NC_ERR_OP_FAILED ''Target datastore is not locked.'') ds
          else (case sid l of
                  None \<Rightarrow> Undef
                | Some owner \<Rightarrow>
                    if owner = session_id then Success (set_lock target \<lparr>locked = False, sid = None\<rparr> ds)
                    else fail ((lock_denied (Some owner))\<lparr>err_msg := Some ''Target datastore is locked by another session.''\<rparr>) ds))"

section \<open>Reading and deleting\<close>

definition dump_doc :: "xml_lib \<Rightarrow> xmldoc option \<Rightarrow> string" where
  "dump_doc lib doc = (case doc of None \<Rightarrow> [] | Some d \<Rightarrow> xmlDocDumpMemory lib d)"

definition ofcds_getconfig :: "'k env \<Rightarrow> xml_lib \<Rightarrow> nc_datastore \<Rightarrow> 'k dstore \<Rightarrow> (string option \<times> 'k dstore) outcome" where
  "ofcds_getconfig env lib target ds =
     (case target of
        NC_DATASTORE_RUNNING \<Rightarrow>
          (case ofc_get_config_data env (switch ds) of
             None \<Rightarrow> Undef
           | Some (data, s) \<Rightarrow> Success (Some data, ds\<lparr>switch := s\<rparr>))
      | NC_DATASTORE_STARTUP \<Rightarrow> Success (Some (dump_doc lib (gds_startup ds)), ds)
      | NC_DATASTORE_CANDIDATE \<Rightarrow> Success (Some (dump_doc lib (gds_cand ds)), ds)
      | _ \<Rightarrow> fail (err_elem NC_ERR_BAD_ELEM ''source'') (None, ds))"

definition ofcds_deleteconfig :: "nc_datastore \<Rightarrow> 'k dstore \<Rightarrow> 'k dstore outcome" where
  "ofcds_deleteconfig target ds =
     (case target of
        NC_DATASTORE_RUNNING \<Rightarrow> fail (err_text NC_ERR_OP_FAILED ''Cannot delete a running datastore.'') ds
      | NC_DATASTORE_STARTUP \<Rightarrow>
          Success ((store_rollback (gds_startup ds) NC_DATASTORE_STARTUP ds)\<lparr>gds_startup := None\<rparr>)
      | NC_DATASTORE_CANDIDATE \<Rightarrow>
          Success ((store_rollback (gds_cand ds) NC_DATASTORE_CANDIDATE ds)\<lparr>gds_cand := None\<rparr>)
      | _ \<Rightarrow> fail (err_elem NC_ERR_BAD_ELEM ''target'') ds)"

section \<open>edit-config\<close>

text \<open>The checks before anything is changed.\<close>

definition check_edit :: "xml_lib \<Rightarrow> defop \<Rightarrow> xmldoc option \<Rightarrow> xmldoc \<Rightarrow> unit outcome" where
  "check_edit lib defop cfgds cfg =
     andthen (case check_keys cfg of None \<Rightarrow> Success () | Some e \<Rightarrow> fail e ()) (\<lambda>_.
       andthen (check_edit_ops NC_EDIT_OP_DELETE defop (ncdflt_mode lib) cfgds cfg) (\<lambda>_.
         check_edit_ops NC_EDIT_OP_CREATE defop (ncdflt_mode lib) cfgds cfg))"

definition is_config :: "xmldoc \<Rightarrow> bool" where
  "is_config cfg = (case root_element cfg of None \<Rightarrow> True | Some root \<Rightarrow> node_name root = ''capable-switch'')"

definition bad_config :: nc_err where
  "bad_config = err_elem NC_ERR_BAD_ELEM ''config''"

text \<open>
  The running datastore: after the checks a transaction is opened, the operations are performed, and
  the transaction is committed or, on any failure, aborted.
\<close>

definition abort_running :: "'k env \<Rightarrow> nc_err option \<Rightarrow> 'k dstore \<Rightarrow> 'k dstore outcome" where
  "abort_running env e ds = Failure e (ds\<lparr>switch := txn_abort env (switch ds)\<rparr>)"

definition commit_running :: "'k env \<Rightarrow> xmldoc \<Rightarrow> 'k dstore \<Rightarrow> 'k dstore outcome" where
  "commit_running env cfg_clone ds =
     map_outcome (\<lambda>s. ds\<lparr>switch := s\<rparr>)
       (andthen (txn_commit env True (switch ds))
         (of_post_ports env (if root_element cfg_clone = None then None else Some cfg_clone)))"

definition edit_running :: "'k env \<Rightarrow> xml_lib \<Rightarrow> defop \<Rightarrow> xmldoc \<Rightarrow> 'k dstore \<Rightarrow> 'k dstore outcome option" where
  "edit_running env lib defop cfg ds0 =
     (case ofc_get_config_data env (switch ds0) of
        None \<Rightarrow> Some Undef
      | Some (aux, s) \<Rightarrow>
          (let cfgds = xmlReadMemory lib aux;
               ds = store_rollback cfgds NC_DATASTORE_RUNNING (ds0\<lparr>switch := s\<rparr>)
           in case check_edit lib defop cfgds cfg of
                Undef \<Rightarrow> Some Undef
              | Failure e _ \<Rightarrow> Some (abort_running env e ds)
              | Success _ \<Rightarrow>
                  (case compact_edit_operations (op_of_defop lib) cfg defop of
                     None \<Rightarrow> Some Undef
                   | Some cfg' \<Rightarrow>
                       (case edit_operations env True defop (Some (case cfgds of None \<Rightarrow> [] | Some d \<Rightarrow> d)) cfg'
                               (txn_init (switch ds)) of
                          None \<Rightarrow> None
                        | Some Undef \<Rightarrow> Some Undef
                        | Some (Failure e st) \<Rightarrow> Some (abort_running env e (ds\<lparr>switch := sys st\<rparr>))
                        | Some (Success st) \<Rightarrow> Some (commit_running env cfg (ds\<lparr>switch := sys st\<rparr>))))))"

text \<open>
  The other datastores: the document itself is edited, so a failure in the middle leaves it half edited.
  An empty datastore is replaced only by a document that has got a node.
\<close>

definition edit_document ::
  "'k env \<Rightarrow> xml_lib \<Rightarrow> defop \<Rightarrow> xmldoc \<Rightarrow> xmldoc option \<Rightarrow> 'k ofc \<Rightarrow> (xmldoc option) outcome option" where
  "edit_document env lib defop cfg cfgds s =
     (case check_edit lib defop cfgds cfg of
        Undef \<Rightarrow> Some Undef
      | Failure e _ \<Rightarrow> Some (Failure e cfgds)
      | Success _ \<Rightarrow>
          (case compact_edit_operations (op_of_defop lib) cfg defop of
             None \<Rightarrow> Some Undef
           | Some cfg' \<Rightarrow>
               (case edit_operations env False defop (Some (case cfgds of None \<Rightarrow> [] | Some d \<Rightarrow> d)) cfg' s of
                  None \<Rightarrow> None
                | Some Undef \<Rightarrow> Some Undef
                | Some (Failure e st) \<Rightarrow> Some (Failure e (if cfgds = None then None else Some (orig_doc st)))
                | Some (Success st) \<Rightarrow>
                    Some (Success (if cfgds = None \<and> orig_doc st = [] then None else Some (orig_doc st))))))"

definition ofcds_editconfig ::
  "'k env \<Rightarrow> xml_lib \<Rightarrow> nc_datastore \<Rightarrow> string \<Rightarrow> defop \<Rightarrow> 'k dstore \<Rightarrow> 'k dstore outcome option" where
  "ofcds_editconfig env lib target config defop0 ds =
     (let defop = (if defop0 = NC_EDIT_DEFOP_NOTSET then NC_EDIT_DEFOP_MERGE else defop0) in
      case xmlReadMemory lib config of
        None \<Rightarrow> Some (fail bad_config ds)
      | Some cfg \<Rightarrow>
          if \<not> is_config cfg then Some (fail bad_config ds)
          else (case target of
                  NC_DATASTORE_RUNNING \<Rightarrow> edit_running env lib defop cfg ds
                | NC_DATASTORE_STARTUP \<Rightarrow>
                    map_option (map_outcome (\<lambda>d. (store_rollback (gds_startup ds) target ds)\<lparr>gds_startup := d\<rparr>))
                      (edit_document env lib defop cfg (gds_startup ds) (switch ds))
                | NC_DATASTORE_CANDIDATE \<Rightarrow>
                    map_option (map_outcome (\<lambda>d. (store_rollback (gds_cand ds) target ds)\<lparr>gds_cand := d\<rparr>))
                      (edit_document env lib defop cfg (gds_cand ds) (switch ds))
                | _ \<Rightarrow> Some (fail (err_elem NC_ERR_BAD_ELEM ''target'') ds)))"


section \<open>copy-config and rollback\<close>







section \<open>Ownership of locks\<close>

text \<open>
  The contract of a lock service: who owns which datastore, and that a lock is given only when there is
  no owner and released only by the owner. Every client of such a service can rely on a lock staying
  with its owner, whatever the other sessions ask for.
\<close>

datatype 't lock_request = Lock 't string | Unlock 't string

locale lock_service =
  fixes acquire :: "'t \<Rightarrow> string \<Rightarrow> 's \<Rightarrow> 's outcome" and release :: "'t \<Rightarrow> string \<Rightarrow> 's \<Rightarrow> 's outcome"
    and owner :: "'s \<Rightarrow> 't \<Rightarrow> string option" and lockable :: "'t \<Rightarrow> bool" and inv :: "'s \<Rightarrow> bool"
  assumes acquire: "inv s \<Longrightarrow>
      (\<exists>s'. acquire t me s = Success s' \<and> owner s t = None \<and> lockable t \<and> owner s' = (owner s)(t := Some me) \<and> inv s')
      \<or> (\<exists>e. acquire t me s = Failure e s \<and> (owner s t \<noteq> None \<or> \<not> lockable t))"
    and release: "inv s \<Longrightarrow>
      (\<exists>s'. release t me s = Success s' \<and> owner s t = Some me \<and> owner s' = (owner s)(t := None) \<and> inv s')
      \<or> (\<exists>e. release t me s = Failure e s \<and> owner s t \<noteq> Some me)"
begin

lemma acquire_inv: "inv s \<Longrightarrow> \<exists>s'. (acquire t me s = Success s' \<or> (\<exists>e. acquire t me s = Failure e s')) \<and> inv s'"
  using acquire by fastforce

lemma release_inv: "inv s \<Longrightarrow> \<exists>s'. (release t me s = Success s' \<or> (\<exists>e. release t me s = Failure e s')) \<and> inv s'"
  using release by fastforce

lemma acquire_keeps:
  "inv s \<Longrightarrow> owner s t = Some me \<Longrightarrow> outcome_all (\<lambda>s'. inv s' \<and> owner s' t = Some me) (acquire u a s)"
  using acquire [of s u a] by auto

lemma release_keeps:
  "inv s \<Longrightarrow> owner s t = Some me \<Longrightarrow> (u, a) \<noteq> (t, me) \<Longrightarrow>
   outcome_all (\<lambda>s'. inv s' \<and> owner s' t = Some me) (release u a s)"
  using release [of s u a] by auto

end

definition lock_owner :: "'k dstore \<Rightarrow> nc_datastore \<Rightarrow> string option" where
  "lock_owner ds t = (case lock_of t ds of None \<Rightarrow> None | Some l \<Rightarrow> if locked l then sid l else None)"

definition lockable_ds :: "nc_datastore \<Rightarrow> bool" where
  "lockable_ds t \<longleftrightarrow> t \<in> {NC_DATASTORE_RUNNING, NC_DATASTORE_STARTUP, NC_DATASTORE_CANDIDATE}"

definition lock_wf :: "ds_lock \<Rightarrow> bool" where
  "lock_wf l \<longleftrightarrow> (locked l \<longleftrightarrow> sid l \<noteq> None)"

definition locks_wf :: "'k dstore \<Rightarrow> bool" where
  "locks_wf ds \<longleftrightarrow> lock_wf (lock_running ds) \<and> lock_wf (lock_startup ds) \<and> lock_wf (lock_cand ds)"

lemma set_lock_owner:
  assumes "lock_of t ds = Some l" and "lock_wf l'"
  shows "lock_owner (set_lock t l' ds) = (lock_owner ds)(t := sid l') \<and> (locks_wf ds \<longrightarrow> locks_wf (set_lock t l' ds))"
  using assms
  by (cases t) (auto simp: fun_eq_iff lock_owner_def set_lock_def lock_of_def locks_wf_def lock_wf_def split: nc_datastore.split)

lemma lock_of_wf: "locks_wf ds \<Longrightarrow> lock_of t ds = Some l \<Longrightarrow> lock_wf l \<and> lock_owner ds t = sid l \<and> lockable_ds t"
  by (cases t) (auto simp: locks_wf_def lock_of_def lock_wf_def lock_owner_def lockable_ds_def)

interpretation ds_locks: lock_service ofcds_lock ofcds_unlock lock_owner lockable_ds locks_wf
proof unfold_locales
  fix t me and ds :: "'a dstore"
  assume wf: "locks_wf ds"
  show "(\<exists>ds'. ofcds_lock t me ds = Success ds' \<and> lock_owner ds t = None \<and> lockable_ds t
               \<and> lock_owner ds' = (lock_owner ds)(t := Some me) \<and> locks_wf ds')
    \<or> (\<exists>e. ofcds_lock t me ds = Failure e ds \<and> (lock_owner ds t \<noteq> None \<or> \<not> lockable_ds t))"
  proof (cases "lock_of t ds")
    case None
    then show ?thesis by (cases t) (auto simp: ofcds_lock_def lock_of_def lockable_ds_def)
  next
    case (Some l)
    show ?thesis
      using lock_of_wf [OF wf Some] set_lock_owner [OF Some, of "\<lparr>locked = True, sid = Some me\<rparr>"] wf Some
      by (auto simp: ofcds_lock_def lock_wf_def)
  qed
  show "(\<exists>ds'. ofcds_unlock t me ds = Success ds' \<and> lock_owner ds t = Some me
               \<and> lock_owner ds' = (lock_owner ds)(t := None) \<and> locks_wf ds')
    \<or> (\<exists>e. ofcds_unlock t me ds = Failure e ds \<and> lock_owner ds t \<noteq> Some me)"
  proof (cases "lock_of t ds")
    case None
    then show ?thesis by (auto simp: ofcds_unlock_def lock_owner_def)
  next
    case (Some l)
    show ?thesis
      using lock_of_wf [OF wf Some] set_lock_owner [OF Some, of "\<lparr>locked = False, sid = None\<rparr>"] wf Some
      by (auto simp: ofcds_unlock_def lock_wf_def split: option.split)
  qed
qed

text \<open>Sequences of requests to the datastore, with the refused ones answered by an error.\<close>

fun ds_serve :: "nc_datastore lock_request \<Rightarrow> 'k dstore \<Rightarrow> 'k dstore outcome" where
  "ds_serve (Lock t me) ds = ofcds_lock t me ds"
| "ds_serve (Unlock t me) ds = ofcds_unlock t me ds"

lemma ds_serve_inv:
  "locks_wf ds \<Longrightarrow> \<exists>ds'. (ds_serve r ds = Success ds' \<or> (\<exists>e. ds_serve r ds = Failure e ds')) \<and> locks_wf ds'"
  using ds_locks.acquire_inv ds_locks.release_inv by (cases r) simp_all

lemma ds_serve_keeps:
  "locks_wf ds \<Longrightarrow> lock_owner ds t = Some me \<Longrightarrow> r \<noteq> Unlock t me \<Longrightarrow>
   outcome_all (\<lambda>ds'. locks_wf ds' \<and> lock_owner ds' t = Some me) (ds_serve r ds)"
  using ds_locks.acquire_keeps [of ds t me] ds_locks.release_keeps [of ds t me] by (cases r) simp_all

text \<open>The answers to the requests, true for success, and the state they leave.\<close>

inductive lock_steps :: "'k dstore \<Rightarrow> nc_datastore lock_request list \<Rightarrow> bool list \<Rightarrow> 'k dstore \<Rightarrow> bool" where
  lock_done: "lock_steps ds [] [] ds"
| lock_served: "ds_serve r ds = Success ds1 \<Longrightarrow> lock_steps ds1 rs bs ds2 \<Longrightarrow> lock_steps ds (r # rs) (True # bs) ds2"
| lock_refused: "ds_serve r ds = Failure e ds1 \<Longrightarrow> lock_steps ds1 rs bs ds2 \<Longrightarrow> lock_steps ds (r # rs) (False # bs) ds2"

lemma lock_steps_total:
  "locks_wf ds \<Longrightarrow> \<exists>bs ds'. lock_steps ds rs bs ds'"
proof (induction rs arbitrary: ds)
  case (Cons r rs)
  obtain ds1 where "ds_serve r ds = Success ds1 \<or> (\<exists>e. ds_serve r ds = Failure e ds1)" "locks_wf ds1"
    using ds_serve_inv [OF Cons.prems, of r] by blast
  moreover obtain bs ds2 where "lock_steps ds1 rs bs ds2"
    using Cons.IH [OF \<open>locks_wf ds1\<close>] by blast
  ultimately show ?case by (blast intro: lock_served lock_refused)
qed (blast intro: lock_done)

lemma lock_stays_with_owner:
  "lock_steps ds rs bs ds' \<Longrightarrow> locks_wf ds \<Longrightarrow> lock_owner ds t = Some me \<Longrightarrow> Unlock t me \<notin> set rs \<Longrightarrow>
   locks_wf ds' \<and> lock_owner ds' t = Some me"
proof (induction rule: lock_steps.induct)
  case (lock_served r ds ds1 rs bs ds2)
  then show ?case using ds_serve_keeps [of ds t me r] by auto
next
  case (lock_refused r ds e ds1 rs bs ds2)
  then show ?case using ds_serve_keeps [of ds t me r] by auto
qed simp

text \<open>The specification: a map from datastores to the session that owns them.\<close>

fun owner_serve :: "nc_datastore lock_request \<Rightarrow> (nc_datastore \<Rightarrow> string option) \<Rightarrow> bool \<times> (nc_datastore \<Rightarrow> string option)" where
  "owner_serve (Lock t me) ow = (if lockable_ds t \<and> ow t = None then (True, ow(t := Some me)) else (False, ow))"
| "owner_serve (Unlock t me) ow = (if ow t = Some me then (True, ow(t := None)) else (False, ow))"

fun owner_run :: "nc_datastore lock_request list \<Rightarrow> (nc_datastore \<Rightarrow> string option) \<Rightarrow> bool list \<times> (nc_datastore \<Rightarrow> string option)" where
  "owner_run [] ow = ([], ow)"
| "owner_run (r # rs) ow =
     (let (b, ow1) = owner_serve r ow; (bs, ow2) = owner_run rs ow1 in (b # bs, ow2))"

lemma ds_serve_refines:
  assumes "locks_wf ds"
  shows "ds_serve r ds = Success ds' \<Longrightarrow> owner_serve r (lock_owner ds) = (True, lock_owner ds') \<and> locks_wf ds'"
    and "ds_serve r ds = Failure e ds' \<Longrightarrow> owner_serve r (lock_owner ds) = (False, lock_owner ds') \<and> locks_wf ds'"
proof -
  have "(\<forall>ds'. ds_serve r ds = Success ds' \<longrightarrow> owner_serve r (lock_owner ds) = (True, lock_owner ds') \<and> locks_wf ds')
    \<and> (\<forall>e ds'. ds_serve r ds = Failure e ds' \<longrightarrow> owner_serve r (lock_owner ds) = (False, lock_owner ds') \<and> locks_wf ds')"
  proof (cases r)
    case (Lock t me)
    then show ?thesis using ds_locks.acquire [OF assms, of t me] assms by auto
  next
    case (Unlock t me)
    then show ?thesis using ds_locks.release [OF assms, of t me] assms by auto
  qed
  then show "ds_serve r ds = Success ds' \<Longrightarrow> owner_serve r (lock_owner ds) = (True, lock_owner ds') \<and> locks_wf ds'"
    and "ds_serve r ds = Failure e ds' \<Longrightarrow> owner_serve r (lock_owner ds) = (False, lock_owner ds') \<and> locks_wf ds'"
    by blast+
qed

text \<open>
  C3: the locks of the datastores refine the map of owners. Every sequence of lock and unlock requests
  of any sessions is answered, with success exactly where the specification grants the request, and
  the three lock records stay well-formed and denote the map of owners that the specification reaches.
\<close>

theorem locks_refine_ownership:
  assumes "locks_wf ds"
  shows "(\<exists>bs ds'. lock_steps ds rs bs ds')
    \<and> (\<forall>bs ds'. lock_steps ds rs bs ds' \<longrightarrow> locks_wf ds' \<and> owner_run rs (lock_owner ds) = (bs, lock_owner ds'))"
proof -
  have "locks_wf ds' \<and> owner_run rs (lock_owner ds) = (bs, lock_owner ds')" if "lock_steps ds rs bs ds'" for bs ds'
    using that assms by induction (auto dest: ds_serve_refines)
  then show ?thesis using lock_steps_total [OF assms] by blast
qed

definition demo_ds :: "db \<Rightarrow> xmldoc option \<Rightarrow> (16 word \<times> 32 word) dstore" where
  "demo_ds d startup =
     \<lparr>gds_startup = startup, gds_cand = None, rollback_doc = None, rollback_type = NC_DATASTORE_ERROR,
      rollbacking = False, lock_running = \<lparr>locked = False, sid = None\<rparr>,
      lock_startup = \<lparr>locked = False, sid = None\<rparr>, lock_cand = \<lparr>locked = False, sid = None\<rparr>,
      switch = (demo_ofc d)\<lparr>txn := None\<rparr>\<rparr>"

theorem locks_refine_ownership_witness:
  "\<exists>ds'. lock_steps (demo_ds empty_db None)
          [Lock NC_DATASTORE_RUNNING ''1'', Lock NC_DATASTORE_RUNNING ''2'', Unlock NC_DATASTORE_RUNNING ''2'',
           Unlock NC_DATASTORE_RUNNING ''1'', Lock NC_DATASTORE_URL ''1''] [True, False, False, True, False] ds'
    \<and> lock_owner ds' NC_DATASTORE_RUNNING = None"
proof -
  have wf: "locks_wf (demo_ds empty_db None)"
    by (simp add: demo_ds_def locks_wf_def lock_wf_def)
  have "lock_owner (demo_ds empty_db None) NC_DATASTORE_RUNNING = None"
    by (simp add: demo_ds_def lock_owner_def lock_of_def)
  moreover let ?rs = "[Lock NC_DATASTORE_RUNNING ''1'', Lock NC_DATASTORE_RUNNING ''2'',
      Unlock NC_DATASTORE_RUNNING ''2'', Unlock NC_DATASTORE_RUNNING ''1'', Lock NC_DATASTORE_URL ''1'']"
  obtain bs ds' where steps: "lock_steps (demo_ds empty_db None) ?rs bs ds'"
    and "(bs, lock_owner ds') = owner_run ?rs (lock_owner (demo_ds empty_db None))"
    using locks_refine_ownership [OF wf, of ?rs] by metis
  ultimately have "bs = [True, False, False, True, False]" "lock_owner ds' NC_DATASTORE_RUNNING = None"
    by (auto simp: lockable_ds_def)
  then show ?thesis using steps by blast
qed


section \<open>Transactions are closed\<close>

definition closed :: "'k ofc \<Rightarrow> bool" where
  "closed s \<longleftrightarrow> store_wf s \<and> txn s = None"

definition idl_run_wf :: "'k env \<Rightarrow> bool" where
  "idl_run_wf env \<longleftrightarrow> (\<forall>k n d. db_wf n d \<longrightarrow> db_wf n (idl_run env k d))"

lemma closed_kst [simp]: "closed (s\<lparr>kst := k\<rparr>) = closed s" "closed (dev_set_flags env i f s) = closed s"
  by (simp_all add: closed_def store_wf_def dev_set_flags_def)

lemma admin_state_closed: "closed s \<Longrightarrow> outcome_all closed (txn_mod_port_admin_state env p v s)"
  by (auto simp: txn_mod_port_admin_state_def check_admin_state_def Let_def split: option.split)

lemma of_mod_port_cfg_closed: "closed s \<Longrightarrow> outcome_all closed (of_mod_port_cfg env p n v s)"
  by (auto simp: of_mod_port_cfg_def of_mod_port_cfg_internal_def Let_def
      split: option.split of_reply.split prod.split intro!: admin_state_closed)

lemma of_post_ports_closed: "closed s \<Longrightarrow> outcome_all closed (of_post_ports env doc s)"
  by (auto simp: of_post_ports_def post_port_def split: option.split
      intro!: outcome_all_for_each of_mod_port_cfg_closed)

lemma txn_abort_closes [simp]: "txn (txn_abort env s) = None"
  by (auto simp: txn_abort_def split: option.split txn_handle.split)

lemma txn_commit_closes:
  assumes "edit_env env" and "open_txn s"
  shows "outcome_all closed (txn_commit env e s)"
proof -
  obtain d where d: "store_wf s" "txn s = Some (TxnOpen d)" using assms(2) by (auto simp: open_txn_def in_txn_def)
  obtain status d' where c: "idl_commit env (db s) d = (status, d')" by (cases "idl_commit env (db s) d")
  have "db_wf (next_row s) d'"
    using d(1) assms(1) c unfolding edit_env_def commit_wf_def store_wf_def by (metis snd_conv)
  then show ?thesis
    using d(2) c by (auto simp: txn_commit_def txn_abort_def closed_def store_wf_def Let_def split: option.split)
qed

lemma commit_running_closes:
  assumes "edit_env env" and "open_txn (switch ds)"
  shows "outcome_all (\<lambda>ds. closed (switch ds)) (commit_running env cfg ds)"
  using outcome_all_andthen [OF txn_commit_closes [OF assms] of_post_ports_closed]
  by (simp add: commit_running_def)

lemma closes_all: "outcome_all (\<lambda>ds. closed (switch ds)) m \<Longrightarrow> outcome_all (\<lambda>ds. txn (switch ds) = None) m"
  by (cases m) (simp_all add: closed_def)

lemma edit_running_closes:
  assumes "edit_env env" and "idl_run_wf env" and "closed (switch ds)" and "edit_running env lib defop cfg ds = Some r"
  shows "outcome_all (\<lambda>ds'. txn (switch ds') = None) r \<and> (\<forall>ds'. r = Success ds' \<longrightarrow> closed (switch ds'))"
proof (cases "ofc_get_config_data env (switch ds)")
  case None
  then show ?thesis using assms(4) by (simp add: edit_running_def)
next
  case (Some p)
  then obtain aux s where g: "ofc_get_config_data env (switch ds) = Some (aux, s)" by (cases p) auto
  have "s = (switch ds)\<lparr>db := idl_run env (kst (switch ds)) (db (switch ds))\<rparr>"
    using g by (auto simp: ofc_get_config_data_def Let_def split: option.splits)
  then have init: "open_txn (txn_init s)"
    using assms(2,3) by (simp add: open_txn_def in_txn_def store_wf_def txn_init_def closed_def idl_run_wf_def)
  have ops: "outcome_all (\<lambda>st. open_txn (sys st)) m"
    if "edit_operations env True defop orig cfg' (txn_init s) = Some m" for orig cfg' m
  proof -
    have "run_all (\<lambda>st. edit_env env \<longrightarrow> open_txn (sys st)) (edit_operations env True defop orig cfg' (txn_init s))"
      using init by (intro switch.operations) (simp split: option.split)
    then show ?thesis using that assms(1) by simp
  qed
  have commits: "outcome_all (\<lambda>ds. closed (switch ds)) (commit_running env cfg (ds'\<lparr>switch := sys st\<rparr>))"
    if "edit_operations env True defop orig cfg' (txn_init s) = Some (Success st)" for orig cfg' st and ds' :: "'a dstore"
    using ops [OF that] by (intro commit_running_closes [OF assms(1)]) simp
  have closes: "closed (switch ds'')"
    if "edit_operations env True defop orig cfg' (txn_init s) = Some (Success st)"
      and "commit_running env cfg (ds'\<lparr>switch := sys st\<rparr>) = Success ds''" for orig cfg' st ds' ds''
    using commits [OF that(1), of ds'] that(2) by simp
  show ?thesis
  proof (cases "check_edit lib defop (xmlReadMemory lib aux) cfg")
    case (Success u)
    show ?thesis
    proof (cases "compact_edit_operations (op_of_defop lib) cfg defop")
      case None
      then show ?thesis using assms(4) g Success by (simp add: edit_running_def Let_def)
    next
      case (Some cfg')
      show ?thesis
        using assms(4) g Success Some commits
        by (auto simp: edit_running_def Let_def store_rollback_def abort_running_def
            split: option.splits outcome.splits intro: closes_all closes)
    qed
  qed (use assms(4) g in \<open>auto simp: edit_running_def Let_def abort_running_def store_rollback_def\<close>)
qed


section \<open>Properties of the callbacks\<close>

text \<open>
  C2: an edit of the running datastore never leaves a transaction behind. Whatever the request asks for and
  however it fails, when \<^verbatim>\<open>ofcds_editconfig\<close> returns there is no open transaction, and after a success the
  replica is well-formed again: unique rows with all references between tables going to allocated rows.
\<close>

theorem running_edit_closes_transaction:
  assumes "edit_env env" and "idl_run_wf env" and "closed (switch ds)"
    and "ofcds_editconfig env lib NC_DATASTORE_RUNNING config defop ds = Some r"
  shows "outcome_all (\<lambda>ds'. txn (switch ds') = None) r \<and> (\<forall>ds'. r = Success ds' \<longrightarrow> closed (switch ds'))"
  using assms(3,4) edit_running_closes [OF assms(1-3)]
  by (auto simp: ofcds_editconfig_def Let_def closed_def split: option.splits if_splits)








text \<open>An edit that creates a port, and a library that reads and prints the documents of the witnesses.\<close>

definition new_port_edit :: xmldoc where
  "new_port_edit =
     [Element 10 ''capable-switch'' None [] []
       [Element 11 ''resources'' None [] []
         [Element 12 ''port'' None [] [demo_op ''create''] [Element 13 ''name'' None [] [] [TextNode 14 ''eth0'']]]]]"

definition demo_lib :: xml_lib where
  "demo_lib =
     \<lparr>xmlReadMemory =
        (\<lambda>s. if s = ''eth0'' then Some new_port_edit else if s = ''eth1'' then Some (demo_port [''eth1'']) else None),
      xmlDocDumpMemory = (\<lambda>x. if x = demo_port [''eth1''] then ''eth1'' else ''eth0''), ncdflt_mode = NCWD_MODE_ALL,
      op_of_defop = (\<lambda>_. NC_EDIT_OP_MERGE)\<rparr>"

definition committed :: "'k dstore outcome option \<Rightarrow> bool" where
  "committed m = (case m of Some (Success ds) \<Rightarrow> True | _ \<Rightarrow> False)"

lemma demo_edits:
  "committed (ofcds_editconfig demo_env demo_lib NC_DATASTORE_RUNNING ''eth0'' NC_EDIT_DEFOP_NONE (demo_ds empty_db None))"
  "committed (ofcds_editconfig demo_env demo_lib NC_DATASTORE_STARTUP ''eth0'' NC_EDIT_DEFOP_NONE
     (demo_ds empty_db (Some (demo_port [''eth1'']))))"
  "is_config new_port_edit" "xmlReadMemory demo_lib ''eth0'' = Some new_port_edit"
  "xmlDocDumpMemory demo_lib (demo_port [''eth1'']) = ''eth1''" "xmlReadMemory demo_lib ''eth1'' = Some (demo_port [''eth1''])"
  by code_simp+

lemma committedD: "committed m \<Longrightarrow> \<exists>ds. m = Some (Success ds)"
  by (auto simp: committed_def split: option.splits outcome.splits)

theorem running_edit_closes_transaction_witness:
  "\<exists>ds'. ofcds_editconfig demo_env demo_lib NC_DATASTORE_RUNNING ''eth0'' NC_EDIT_DEFOP_NONE (demo_ds empty_db None)
          = Some (Success ds') \<and> closed (switch ds')"
proof -
  obtain ds' where r: "ofcds_editconfig demo_env demo_lib NC_DATASTORE_RUNNING ''eth0'' NC_EDIT_DEFOP_NONE (demo_ds empty_db None)
      = Some (Success ds')"
    using committedD [OF demo_edits(1)] by blast
  have env: "edit_env demo_env" "idl_run_wf demo_env" "closed (switch (demo_ds empty_db None))"
    using demo_env_places demo_env_commits
    by (simp_all add: edit_env_def idl_run_wf_def closed_def demo_ds_def store_wf_def db_wf_def demo_ofc_def empty_db_def)
  then show ?thesis using running_edit_closes_transaction [OF env r] r by blast
qed


end
