(* ===== verification/Ovs_State.thy ===== *)
theory Ovs_State
  imports Ovs_Get
begin

text \<open>
  The state of the switch as XML text (\<^verbatim>\<open>ofc_get_state_data\<close> of \<^verbatim>\<open>ovs-data.c\<close> and the functions it calls), and
  the form of the two documents the switch prints.

  What the state shows is read from columns that this program never writes, from the OpenFlow reply and from the
  Ethernet driver. These values, and the constants of the driver interface, come in as \<open>st\<close>.
\<close>

unbundle bit_operations_syntax

section \<open>Status values\<close>

record ethtool_cmd =
  ec_speed :: "16 word"
  ec_speed_hi :: "16 word"
  ec_duplex :: "8 word"
  ec_autoneg :: "8 word"
  ec_port :: "8 word"
  ec_advertising :: "32 word"
  ec_supported :: "32 word"
  ec_lp_advertising :: "32 word"

record 'k status =
  ft_flow_limit :: "rowid \<Rightarrow> int list"
  i_ofport :: "rowid \<Rightarrow> int list"
  i_link_state :: "rowid \<Rightarrow> string option"
  i_other_config :: "rowid \<Rightarrow> smap"
  c_is_connected :: "rowid \<Rightarrow> bool"
  phy_live :: "'k \<Rightarrow> string \<Rightarrow> string \<Rightarrow> bool"
  phy_curr_speed :: "'k \<Rightarrow> string \<Rightarrow> string \<Rightarrow> 32 word"
  phy_max_speed :: "'k \<Rightarrow> string \<Rightarrow> string \<Rightarrow> 32 word"
  ethtool_gset :: "'k \<Rightarrow> string \<Rightarrow> ethtool_cmd"
  DUPLEX_HALF :: "8 word"
  DUPLEX_FULL :: "8 word"
  PORT_TP :: "8 word"
  PORT_FIBRE :: "8 word"

section \<open>Flow tables and controllers\<close>

definition flow_table_state :: "'k status \<Rightarrow> rowid \<Rightarrow> ft_row \<Rightarrow> string option" where
  "flow_table_state st r row =
     Some (case (ft_flow_limit st r, smap_get (ft_external_ids row) ''table_id'') of
             (limit # _, Some tid) \<Rightarrow>
               elem ''flow-table'' (elem ''table-id'' tid @ elem ''max-entries'' (show_int limit))
           | _ \<Rightarrow> [])"

definition get_flow_tables_state :: "'k status \<Rightarrow> 'k ofc \<Rightarrow> string option" where
  "get_flow_tables_state st s = each_row (tb_ft (db s)) (order (tb_ft (db s))) (flow_table_state st)"

definition get_controller_state :: "'k status \<Rightarrow> rowid \<Rightarrow> contr_row \<Rightarrow> string option" where
  "get_controller_state st r row =
     Some (case smap_get (c_external_ids row) ''ofconfig-id'' of
             None \<Rightarrow> []
           | Some cid \<Rightarrow>
               elem ''controller''
                 (elem ''id'' cid
                  @ elem ''state'' (elem ''connection-state'' (if c_is_connected st r then ''up'' else ''down''))))"

section \<open>Ports\<close>

text \<open>
  The rate by speed: the start of its text and the value the duplex field has afterwards, which keeps the suffix from
  being printed for the faster rates and marks a rate that is not in the list.
\<close>

definition norate :: "8 word" where
  "norate = 0xff"

definition current_rate :: "'k status \<Rightarrow> ethtool_cmd \<Rightarrow> string \<times> 8 word" where
  "current_rate st ecmd =
     (let sp = unat (ec_speed_hi ecmd) * 2 ^ 16 + unat (ec_speed ecmd) in
      if sp = 10 then (''10Mb'', ec_duplex ecmd)
      else if sp = 100 then (''100Mb'', ec_duplex ecmd)
      else if sp = 1000 then (''1Gb'', ec_duplex ecmd)
      else if sp = 10000 then (''10Gb'', DUPLEX_FULL st + 1)
      else if sp = 40000 then (''40Gb'', DUPLEX_FULL st + 1)
      else (''other'', norate))"

definition duplex_suffix :: "'k status \<Rightarrow> 8 word \<Rightarrow> string" where
  "duplex_suffix st d = (if d = DUPLEX_HALF st then ''-HD'' else if d = DUPLEX_FULL st then ''-FD'' else [])"

definition current_features :: "'k env \<Rightarrow> 'k status \<Rightarrow> ethtool_cmd \<Rightarrow> string" where
  "current_features env st ecmd =
     (let (rate, d) = current_rate st ecmd; on = (\<lambda>a. adv_bit env a AND ec_advertising ecmd \<noteq> 0) in
      elem ''rate'' (rate @ duplex_suffix st d)
      @ elem ''auto-negotiate'' (if ec_autoneg ecmd \<noteq> 0 then ''true'' else ''false'')
      @ (if ec_port ecmd = PORT_TP st then elem ''medium'' ''copper''
         else if ec_port ecmd = PORT_FIBRE st then elem ''medium'' ''fiber'' else [])
      @ elem ''pause'' (if on ADVERTISED_Asym_Pause then ''asymmetric''
                        else if on ADVERTISED_Pause then ''symmetric'' else ''unsupported''))"

definition no_ecmd :: ethtool_cmd where
  "no_ecmd = \<lparr>ec_speed = 0, ec_speed_hi = 0, ec_duplex = 0, ec_autoneg = 0, ec_port = 0, ec_advertising = 0, ec_supported = 0, ec_lp_advertising = 0\<rparr>"

definition of_speeds :: "'k status \<Rightarrow> 'k ofc \<Rightarrow> ports_reply \<Rightarrow> string \<Rightarrow> string" where
  "of_speeds st s reply name =
     (case (reply, of_get_port_byname reply name) of
        (Reply vconn ports, Some _) \<Rightarrow>
          elem ''current-rate'' (show_nat (unat (phy_curr_speed st (kst s) vconn name)))
          @ elem ''max-rate'' (show_nat (unat (phy_max_speed st (kst s) vconn name)))
      | _ \<Rightarrow> [])"

definition port_live :: "'k status \<Rightarrow> 'k ofc \<Rightarrow> ports_reply \<Rightarrow> string \<Rightarrow> string" where
  "port_live st s reply name =
     (case (reply, of_get_port_byname reply name) of
        (Reply vconn ports, Some _) \<Rightarrow> elem ''live'' (if phy_live st (kst s) vconn name then ''true'' else ''false'')
      | _ \<Rightarrow> [])"

definition port_state :: "'k status \<Rightarrow> 'k ofc \<Rightarrow> ports_reply \<Rightarrow> rowid \<Rightarrow> string \<Rightarrow> string" where
  "port_state st s reply r name =
     (let aux = (case i_link_state st r of None \<Rightarrow> [] | Some v \<Rightarrow> elem ''oper-state'' v)
                @ find_and_append_smap_val (i_other_config st r) ''stp_state'' ''blocked''
                @ port_live st s reply name
      in if aux = [] then [] else elem ''state'' aux)"

definition iface_state :: "'k env \<Rightarrow> 'k status \<Rightarrow> ports_reply \<Rightarrow> 'k ofc \<Rightarrow> rowid \<Rightarrow> iface_row \<Rightarrow> string option" where
  "iface_state env st reply s r row =
     (case i_name row of
        None \<Rightarrow> None
      | Some name \<Rightarrow>
          (let ecmd = (if dev_is_system env s name then ethtool_gset st (kst s) name else no_ecmd) in
           Some (elem ''port''
             (elem ''name'' name
              @ (case i_ofport st r of [] \<Rightarrow> [] | n # _ \<Rightarrow> elem ''number'' (show_nat (nat (n mod 2 ^ 64))))
              @ port_state st s reply r name
              @ elem ''features''
                  (elem ''current'' (current_features env st ecmd)
                   @ elem ''supported'' (dump_port_features env (ec_supported ecmd))
                   @ elem ''advertised-peer'' (dump_port_features env (ec_lp_advertising ecmd)))
              @ (if snd (current_rate st ecmd) = norate then of_speeds st s reply name else [])))))"

definition get_ports_state :: "'k env \<Rightarrow> 'k status \<Rightarrow> 'k ofc \<Rightarrow> bridge_row \<Rightarrow> string option" where
  "get_ports_state env st s bridge =
     (case br_name bridge of
        None \<Rightarrow> None
      | Some name \<Rightarrow>
          (case ports_of_bridge env name s of
             None \<Rightarrow> None
           | Some reply \<Rightarrow>
               each_row (tb_port (db s)) (br_ports bridge) (\<lambda>p port.
                 each_row (tb_iface (db s)) (p_interfaces port) (iface_state env st reply s))))"

section \<open>Switches\<close>

definition elems :: "string \<Rightarrow> string list \<Rightarrow> string" where
  "elems n vs = concat (map (elem n) vs)"

definition capabilities :: string where
  "capabilities =
     elem ''capabilities''
       (elem ''max-buffered-packets'' ''256'' @ elem ''max-tables'' ''255'' @ elem ''max-ports'' ''255''
        @ elem ''flow-statistics'' ''true'' @ elem ''table-statistics'' ''true'' @ elem ''port-statistics'' ''true''
        @ elem ''group-statistics'' ''true'' @ elem ''queue-statistics'' ''true''
        @ elem ''reassemble-ip-fragments'' ''true'' @ elem ''block-looping-ports'' ''true''
        @ elem ''reserved-port-types''
            (elems ''type'' [''all'', ''controller'', ''table'', ''inport'', ''any'', ''normal'', ''flood''])
        @ elem ''group-types'' (elems ''type'' [''all'', ''select'', ''indirect'', ''fast-failover''])
        @ elem ''group-capabilities'' (elems ''capability'' [''select-weight'', ''select-liveness'', ''chaining-check''])
        @ elem ''action-types''
            (elems ''type'' [''set-mpls-ttl'', ''dec-mpls-ttl'', ''push-vlan'', ''pop-vlan'', ''push-mpls'', ''pop-mpls'',
              ''set-queue'', ''group'', ''set-nw-ttl'', ''dec-nw-ttl'', ''set-field''])
        @ elem ''instruction-types''
            (elems ''type'' [''apply-actions'', ''clear-actions'', ''write-actions'', ''write-metadata'', ''goto-table'']))"

definition bridge_state :: "'k status \<Rightarrow> 'k ofc \<Rightarrow> rowid \<Rightarrow> bridge_row \<Rightarrow> string option" where
  "bridge_state st s r row =
     map_option (elem ''switch'')
       (all_text
         [map_option (elem ''id'') (br_name row),
          Some capabilities,
          (if br_controller row = [] then Some []
           else map_option (elem ''controllers'')
                  (each_row (tb_contr (db s)) (br_controller row) (get_controller_state st)))])"

definition get_bridges_state :: "'k status \<Rightarrow> 'k ofc \<Rightarrow> string option" where
  "get_bridges_state st s = each_row (tb_bridge (db s)) (order (tb_bridge (db s))) (bridge_state st s)"

definition state_resources :: "'k env \<Rightarrow> 'k status \<Rightarrow> 'k ofc \<Rightarrow> string option" where
  "state_resources env st s =
     all_text
       [each_row (tb_bridge (db s)) (order (tb_bridge (db s))) (\<lambda>r. get_ports_state env st s),
        get_flow_tables_state st s]"

definition ofc_get_state_data :: "'k env \<Rightarrow> 'k status \<Rightarrow> 'k ofc \<Rightarrow> (string \<times> 'k ofc) option" where
  "ofc_get_state_data env st s0 =
     (let s = s0\<lparr>db := idl_run env (kst s0) (db s0)\<rparr> in
      case cs_id s of
        None \<Rightarrow> Some ([], s)
      | Some switchid \<Rightarrow>
          (case (state_resources env st s, get_bridges_state st s) of
             (Some resources, Some bridges) \<Rightarrow>
               Some (config_head @ elem ''config-version'' ''1.2''
                 @ (if resources = [] then [] else elem ''resources'' resources)
                 @ (if bridges = [] then [] else elem ''logical-switches'' bridges)
                 @ ''</capable-switch>'', s)
           | _ \<Rightarrow> None))"

text \<open>The state callback of the OF-CONFIG module of libnetconf (\<^verbatim>\<open>ofconfig-transapi.c\<close>); \<open>parse\<close> is \<^verbatim>\<open>xmlReadMemory\<close>.\<close>

definition ofc_status_clb :: "(string \<Rightarrow> 'd option) \<Rightarrow> 'k env \<Rightarrow> 'k status \<Rightarrow> 'k ofc \<Rightarrow> ('d option \<times> 'k ofc) option" where
  "ofc_status_clb parse env st s = map_option (\<lambda>(state_data, s1). (parse state_data, s1)) (ofc_get_state_data env st s)"

section \<open>Well-formed text\<close>

text \<open>
  XML content: plain characters, and elements with a name around content. Values are printed without escaping, so
  content comes out well-formed only when no value has a character of markup.
\<close>

definition plain :: "string \<Rightarrow> bool" where
  "plain v \<longleftrightarrow> set v \<inter> {CHR ''<'', CHR ''>'', CHR ''&''} = {}"

definition xml_name :: "string \<Rightarrow> bool" where
  "xml_name n \<longleftrightarrow> n \<noteq> [] \<and> list_all (\<lambda>c. c \<notin> {CHR ''<'', CHR ''>'', CHR ''&'', CHR ''/'', CHR '' ''}) n"

inductive xml_content :: "string \<Rightarrow> bool" where
  content_plain: "plain v \<Longrightarrow> xml_content v"
| content_elem: "xml_name n \<Longrightarrow> xml_content v \<Longrightarrow> xml_content (elem n v)"
| content_append: "xml_content v \<Longrightarrow> xml_content w \<Longrightarrow> xml_content (v @ w)"

named_theorems content_simps

lemma plain_simps [simp]: "plain []" "plain (c # v) \<longleftrightarrow> c \<notin> {CHR ''<'', CHR ''>'', CHR ''&''} \<and> plain v"
  "plain (v @ w) \<longleftrightarrow> plain v \<and> plain w"
  by (auto simp: plain_def)

declare content_plain [content_simps] content_elem [content_simps] content_append [content_simps] xml_name_def [content_simps]

lemma content_concat [content_simps]: "\<forall>v \<in> set vs. xml_content v \<Longrightarrow> xml_content (concat vs)"
  by (induction vs) (auto intro: xml_content.intros)

lemma plain_digits [simp]: "plain (show_nat n)"
proof -
  have "\<not> digit_in 10 (CHR ''<'')" "\<not> digit_in 10 (CHR ''>'')" "\<not> digit_in 10 (CHR ''&'')" by code_simp+
  then show ?thesis using digits_of_show_nat [of _ n] by (auto simp: plain_def)
qed

lemma plain_show_int [simp]: "plain (show_int n)"
  using plain_digits by (auto simp: plain_def show_int_def)

text \<open>Functions that build text, and the values they take it from.\<close>

definition all_content :: "string option \<Rightarrow> bool" where
  "all_content m \<longleftrightarrow> (\<forall>v. m = Some v \<longrightarrow> xml_content v)"

definition plain_opt :: "string option \<Rightarrow> bool" where
  "plain_opt m \<longleftrightarrow> (\<forall>v. m = Some v \<longrightarrow> plain v)"

definition plain_smap :: "smap \<Rightarrow> bool" where
  "plain_smap m \<longleftrightarrow> (\<forall>k. plain_opt (smap_get m k))"

lemma plain_opt_simps [simp]: "plain_opt None" "plain_opt (Some v) \<longleftrightarrow> plain v"
  by (auto simp: plain_opt_def)

lemma all_content_simps [simp]: "all_content None" "all_content (Some v) \<longleftrightarrow> xml_content v"
  by (auto simp: all_content_def)

lemma all_content_elem [content_simps]: "xml_name n \<Longrightarrow> all_content m \<Longrightarrow> all_content (map_option (elem n) m)"
  by (auto simp: all_content_def intro: content_elem)

lemma all_text_content [content_simps]: "\<forall>m \<in> set ms. all_content m \<Longrightarrow> all_content (all_text ms)"
  by (fastforce simp: all_content_def all_text_def all_some_Some_iff intro: content_concat)

lemma each_row_content:
  "(\<And>r x. r \<in> set rs \<Longrightarrow> cells t r = Some x \<Longrightarrow> all_content (f r x)) \<Longrightarrow> all_content (each_row t rs f)"
  by (auto simp: each_row_def intro!: all_text_content split: option.split)

lemma smap_val_content [content_simps]:
  "plain_smap m \<Longrightarrow> xml_name n \<Longrightarrow> xml_content (find_and_append_smap_val m key n)"
  by (auto simp: find_and_append_smap_val_def plain_smap_def plain_opt_def content_plain content_elem split: option.split)

lemma smap_get_plain [content_simps]: "plain_smap m \<Longrightarrow> plain_opt (smap_get m k)"
  by (simp add: plain_smap_def)

lemma case_any [content_simps]:
  "xml_content g \<Longrightarrow> \<forall>v. xml_content (f v) \<Longrightarrow> xml_content (case m of None \<Rightarrow> g | Some v \<Rightarrow> f v)"
  "all_content h \<Longrightarrow> \<forall>v. all_content (k v) \<Longrightarrow> all_content (case m of None \<Rightarrow> h | Some v \<Rightarrow> k v)"
  by (simp_all split: option.split)

lemma case_plain [content_simps]:
  "plain_opt w \<Longrightarrow> xml_content g \<Longrightarrow> \<forall>v. plain v \<longrightarrow> xml_content (f v) \<Longrightarrow> xml_content (case w of None \<Rightarrow> g | Some v \<Rightarrow> f v)"
  "plain_opt w \<Longrightarrow> all_content h \<Longrightarrow> \<forall>v. plain v \<longrightarrow> all_content (k v) \<Longrightarrow> all_content (case w of None \<Rightarrow> h | Some v \<Rightarrow> k v)"
  by (cases w; simp)+

lemma map_content [content_simps]:
  "all_content m \<Longrightarrow> \<forall>v. xml_content v \<longrightarrow> xml_content (f v) \<Longrightarrow> all_content (map_option f m)"
  by (auto simp: all_content_def)

lemma content_if [content_simps]:
  "xml_content v \<Longrightarrow> xml_content w \<Longrightarrow> xml_content (if b then v else w)"
  "plain v \<Longrightarrow> plain w \<Longrightarrow> plain (if b then v else w)"
  "all_content m \<Longrightarrow> all_content n \<Longrightarrow> all_content (if b then m else n)"
  by simp_all

definition all_cells :: "('r \<Rightarrow> bool) \<Rightarrow> 'r table \<Rightarrow> bool" where
  "all_cells P t \<longleftrightarrow> (\<forall>r x. cells t r = Some x \<longrightarrow> P x)"

definition plain_iface :: "iface_row \<Rightarrow> bool" where
  "plain_iface x \<longleftrightarrow> plain_opt (i_name x) \<and> plain_smap (i_options x)
     \<and> (\<forall>t. smap_get (i_external_ids x) ''tunnel_type'' = Some t \<longrightarrow> xml_name t)"

definition plain_contr :: "contr_row \<Rightarrow> bool" where
  "plain_contr x \<longleftrightarrow> plain_opt (c_target x) \<and> plain_opt (c_local_ip x) \<and> plain_smap (c_external_ids x)"

definition plain_db :: "db \<Rightarrow> bool" where
  "plain_db d \<longleftrightarrow>
     all_cells (\<lambda>x. plain_opt (ft_name x) \<and> plain_smap (ft_external_ids x)) (tb_ft d)
     \<and> all_cells (\<lambda>x. plain_smap (q_external_ids x) \<and> plain_smap (q_other_config x)) (tb_queue d)
     \<and> all_cells plain_iface (tb_iface d)
     \<and> all_cells (\<lambda>x. plain_opt (p_name x)) (tb_port d)
     \<and> all_cells (\<lambda>x. plain_opt (br_name x) \<and> plain_opt (br_datapath_id x)) (tb_bridge d)
     \<and> all_cells plain_contr (tb_contr d)
     \<and> all_cells (\<lambda>x. plain_smap (ssl_external_ids x)) (tb_ssl d)"

text \<open>The other values: the id of the switch, the files of the certificates, and the column for the administrative state.\<close>

definition plain_switch :: "'k env \<Rightarrow> 'k ofc \<Rightarrow> bool" where
  "plain_switch env s \<longleftrightarrow>
     plain_db (db s) \<and> plain_opt (cs_id s) \<and> (\<forall>f. plain_opt (files s f)) \<and> (\<forall>r. plain_opt (iface_admin_state env (kst s) r))"

definition plain_status :: "'k status \<Rightarrow> bool" where
  "plain_status st \<longleftrightarrow> (\<forall>r. plain_opt (i_link_state st r) \<and> plain_smap (i_other_config st r))"

lemma plain_cells:
  assumes "plain_switch env s"
  shows "cells (tb_ft (db s)) r = Some ft \<Longrightarrow> plain_opt (ft_name ft) \<and> plain_smap (ft_external_ids ft)"
    and "cells (tb_queue (db s)) r = Some q \<Longrightarrow> plain_smap (q_external_ids q) \<and> plain_smap (q_other_config q)"
    and "cells (tb_iface (db s)) r = Some i \<Longrightarrow> plain_iface i"
    and "cells (tb_port (db s)) r = Some p \<Longrightarrow> plain_opt (p_name p)"
    and "cells (tb_bridge (db s)) r = Some b \<Longrightarrow> plain_opt (br_name b) \<and> plain_opt (br_datapath_id b)"
    and "cells (tb_contr (db s)) r = Some c \<Longrightarrow> plain_contr c"
    and "cells (tb_ssl (db s)) r = Some x \<Longrightarrow> plain_smap (ssl_external_ids x)"
  using assms unfolding plain_switch_def plain_db_def all_cells_def by blast+

lemma elem_plain_opt [content_simps]: "xml_name n \<Longrightarrow> plain_opt m \<Longrightarrow> all_content (map_option (elem n) m)"
  by (auto simp: all_content_def plain_opt_def intro: xml_content.intros)

lemma flow_tables_config_content:
  assumes "plain_switch env s"
  shows "all_content (get_flow_tables_config s)"
  unfolding get_flow_tables_config_def
proof (rule each_row_content)
  fix r x assume "cells (tb_ft (db s)) r = Some x"
  then show "all_content (flow_table_config s r x)"
    using plain_cells(1) [OF assms] by (simp add: flow_table_config_def content_simps)
qed

lemma port_name_content: "plain_switch env s \<Longrightarrow> plain_opt (port_name_of s p)"
  by (auto simp: plain_opt_def port_name_of_def dest: plain_cells(4) split: option.splits)

lemma queues_config_content:
  assumes "plain_switch env s"
  shows "all_content (get_queues_config s)"
  unfolding get_queues_config_def
proof (rule each_row_content)
  fix r x assume x: "cells (tb_queue (db s)) r = Some x"
  have "all_content (queue_port_config s rid)" for rid
    using port_name_content [OF assms] by (simp add: queue_port_config_def content_simps)
  then show "all_content (queue_config s r x)"
    using plain_cells(2) [OF assms x] by (simp add: queue_config_def queue_properties_def content_simps)
qed

lemma features_content [content_simps]: "xml_content (dump_port_features env b)"
proof -
  have "xml_content (concat (map (\<lambda>(a, str). if f a then elem n str else []) xs))"
    if "xml_name n" "\<forall>x \<in> set xs. plain (snd x)" for f :: "advert \<Rightarrow> bool" and n and xs :: "(advert \<times> string) list"
    using that by (induction xs) (auto simp: content_simps split del: if_split)
  moreover have "\<forall>x \<in> set rates. plain (snd x)" "\<forall>x \<in> set medium. plain (snd x)"
    by (simp_all add: rates_def medium_def)
  ultimately show ?thesis
    unfolding dump_port_features_def Let_def by (simp add: content_simps split del: if_split)
qed

lemma iface_config_content:
  assumes "plain_switch env s" and "plain_iface x"
  shows "all_content (iface_config env reply s r x)"
proof -
  have "plain_opt (iface_admin_state env (kst s) r)" using assms(1) by (simp add: plain_switch_def)
  then have "xml_content (port_configuration env reply r name s)" for name
    by (cases reply; cases "of_get_port_byname reply name") (simp_all add: port_configuration_def Let_def content_simps)
  moreover have "xml_content (tunnel_config x)"
    using assms(2) by (auto simp: tunnel_config_def plain_iface_def content_simps split: option.split)
  ultimately show ?thesis
    using assms(2) by (simp add: iface_config_def plain_iface_def content_simps)
qed

lemma ports_config_content:
  assumes "plain_switch env s"
  shows "all_content (get_ports_config env s b)"
proof -
  have "all_content (each_row (tb_port (db s)) (br_ports b)
     (\<lambda>p port. each_row (tb_iface (db s)) (p_interfaces port) (iface_config env reply s)))" for reply
    by (intro each_row_content iface_config_content [OF assms] plain_cells(3) [OF assms])
  then show ?thesis by (simp add: get_ports_config_def content_simps)
qed

lemma plain_take: "plain v \<Longrightarrow> plain (take n v)" "plain v \<Longrightarrow> plain (drop n v)"
  by (auto simp: plain_def dest: in_set_takeD in_set_dropD)

lemma cut_at_plain: "plain t \<Longrightarrow> cut_at c t = Some (a, b) \<Longrightarrow> plain a \<and> plain b"
  by (auto simp: cut_at_def plain_take split: option.splits)

lemma address_plain:
  assumes "plain t"
  shows "plain (fst (address_and_port t)) \<and> plain_opt (snd (address_and_port t))"
proof (cases "CHR ''['' \<in> set t")
  case True
  show ?thesis
  proof (cases "cut_at (CHR '']'') (drop 1 t)")
    case None
    then show ?thesis using True plain_take(2) [OF assms, of 1] by (simp add: address_and_port_def)
  next
    case (Some p)
    then obtain a b where p: "cut_at (CHR '']'') (drop 1 t) = Some (a, b)" by (cases p) simp
    then show ?thesis
      using True cut_at_plain [OF plain_take(2) [OF assms, of 1] p] plain_take(2) [of b 1]
      by (simp add: address_and_port_def drop_Suc)
  qed
next
  case False
  then show ?thesis
    using assms cut_at_plain [OF assms] by (auto simp: address_and_port_def split: option.split)
qed

lemma controller_config_content:
  assumes "plain_contr x"
  shows "all_content (get_controller_config x)"
proof (cases "c_target x")
  case (Some t)
  then have t: "plain t" using assms by (simp add: plain_contr_def)
  have "all_content (case parse_target_to_addr t of None \<Rightarrow> None
     | Some (protocol, address, port) \<Rightarrow>
         Some (elem ''controller'' (elem ''id'' cid @ elem ''ip-address'' address
           @ (case port of None \<Rightarrow> [] | Some p \<Rightarrow> elem ''port'' p)
           @ (case c_local_ip x of None \<Rightarrow> [] | Some ip \<Rightarrow> elem ''local-ip-address'' ip) @ elem ''protocol'' protocol)))"
    if "plain cid" for cid
  proof (cases "cut_at (CHR '':'') t")
    case (Some p)
    then obtain a b where p: "cut_at (CHR '':'') t = Some (a, b)" by (cases p) simp
    obtain ad po where ap: "address_and_port b = (ad, po)" by (cases "address_and_port b")
    show ?thesis
      using cut_at_plain [OF t p] address_plain [of b] p ap assms that
      by (simp add: parse_target_to_addr_def plain_contr_def content_simps)
  qed (simp add: parse_target_to_addr_def)
  moreover have "plain_opt (smap_get (c_external_ids x) ''ofconfig-id'')"
    using assms by (simp add: plain_contr_def content_simps)
  ultimately show ?thesis
    using Some by (cases "smap_get (c_external_ids x) ''ofconfig-id''") (simp_all add: get_controller_config_def)
qed (simp add: get_controller_config_def)

lemma dpid_loop_plain: "plain d \<Longrightarrow> dpid_loop d i j n = Some t \<Longrightarrow> plain t"
proof (induction d i j n arbitrary: t rule: dpid_loop.induct)
  case (2 d i j n)
  have "plain (d @ [NUL])" using 2(3) by simp
  then have "i \<le> length d \<Longrightarrow> (d @ [NUL]) ! i \<notin> {CHR ''<'', CHR ''>'', CHR ''&''}"
    using nth_mem [of i "d @ [NUL]"] by (auto simp: plain_def)
  then show ?case using 2 by (auto split: if_splits)
qed simp

lemma plain_takeWhile: "plain v \<Longrightarrow> plain (takeWhile P v)"
  by (auto simp: plain_def dest: set_takeWhileD)

lemma dpid_plain: "plain d \<Longrightarrow> plain_opt (dpid_text d)"
  using dpid_loop_plain plain_takeWhile by (fastforce simp: dpid_text_def plain_opt_def)

lemma bridges_config_content:
  assumes "plain_switch env s"
  shows "all_content (get_bridges_config s)"
proof -
  have contr: "all_content (each_row (tb_contr (db s)) rs (\<lambda>r. get_controller_config))" for rs
    by (intro each_row_content controller_config_content plain_cells(6) [OF assms])
  have ports: "all_content (each_row (tb_port (db s)) rs (\<lambda>r port. map_option (elem ''port'') (p_name port)))" for rs
    using plain_cells(4) [OF assms] by (intro each_row_content) (simp add: content_simps)
  have "all_content (each_row (tb_queue (db s)) rs
      (\<lambda>r row. Some (find_and_append_smap_val (q_external_ids row) OFC_RESOURCE_ID ''queue'')))" for rs
    using plain_cells(2) [OF assms] by (intro each_row_content) (simp add: content_simps)
  then have queues: "all_content (each_row (tb_port (db s)) rs (port_queues s))" for rs
    by (intro each_row_content) (simp add: port_queues_def content_simps)
  have "all_content (bridge_resources s cert row)" if "plain_opt cert" for cert row
  proof -
    have "xml_content (concat (map (\<lambda>(key, r). elem ''flow-table'' (show_int key)) fts))" for fts :: "(int \<times> rowid) list"
      by (induction fts) (auto simp: content_simps)
    then show ?thesis using ports queues that by (simp add: bridge_resources_def content_simps)
  qed
  then have "all_content (bridge_config s cert r row)"
    if "plain_opt cert" "plain_opt (br_name row) \<and> plain_opt (br_datapath_id row)" for cert r row
    using that contr dpid_plain
    by (simp add: bridge_config_def failmode_config_def content_simps split del: if_split)
  moreover have "plain_opt cert" if "certificate_resid s = Some cert" for cert
    using that plain_cells(7) [OF assms]
    by (auto simp: certificate_resid_def plain_smap_def split: option.splits list.splits)
  ultimately show ?thesis
    using plain_cells(5) [OF assms]
    by (auto simp: get_bridges_config_def intro!: each_row_content split: option.split)
qed

lemma plain_update: "plain v \<Longrightarrow> plain (v[i := NUL])"
  using set_update_subset_insert [of v i NUL] by (auto simp: plain_def)

lemma read_pem_plain: "plain_switch env s \<Longrightarrow> read_pem env s f = Some pem \<Longrightarrow> plain pem"
  using plain_takeWhile
  by (fastforce simp: read_pem_def plain_switch_def plain_opt_def split: option.splits if_splits)

lemma certificate_text_plain: "plain_switch env s \<Longrightarrow> plain_opt (certificate_text env s f)"
  by (auto simp: plain_opt_def certificate_text_def text_at_def split: option.splits
      intro!: plain_takeWhile plain_take plain_update dest!: read_pem_plain)

lemma key_text_plain: "plain_switch env s \<Longrightarrow> key_text env s f = Some (t, d) \<Longrightarrow> plain t \<and> plain d"
  by (auto simp: key_text_def text_at_def Let_def split: option.splits
      intro!: plain_takeWhile plain_take plain_update dest!: read_pem_plain)

lemma first_ssl_plain: "plain_switch env s \<Longrightarrow> first_ssl s = Some ssl \<Longrightarrow> plain_smap (ssl_external_ids ssl)"
  using plain_cells(7) by (auto simp: first_ssl_def split: list.splits)

lemma owned_config_content:
  assumes "plain_switch env s"
  shows "xml_content (get_owned_certificates_config env s)"
proof -
  have "xml_content (elem ''owned-certificate'' (elem ''resource-id'' resid @ elem ''certificate'' c
      @ elem ''private-key'' (elem ''key-type'' t @ elem ''key-data'' d)))"
    if "first_ssl s = Some ssl" "smap_get (ssl_external_ids ssl) OFC_RESID_OWN = Some resid"
      "certificate_text env s cf = Some c" "key_text env s kf = Some (t, d)" for ssl resid cf c kf t d
    using first_ssl_plain [OF assms that(1)] that certificate_text_plain [OF assms, of cf] key_text_plain [OF assms that(4)]
    by (auto simp: plain_smap_def plain_opt_def content_simps)
  then show ?thesis
    by (auto simp: get_owned_certificates_config_def content_plain split: option.split prod.split)
qed

lemma external_config_content:
  assumes "plain_switch env s"
  shows "xml_content (get_external_certificates_config env s)"
proof -
  have "xml_content (elem ''external-certificate'' (elem ''resource-id'' resid @ elem ''certificate'' c))"
    if "first_ssl s = Some ssl" "smap_get (ssl_external_ids ssl) OFC_RESID_EXT = Some resid"
      "certificate_text env s cf = Some c" for ssl resid cf c
    using first_ssl_plain [OF assms that(1)] that certificate_text_plain [OF assms, of cf]
    by (auto simp: plain_smap_def plain_opt_def content_simps)
  then show ?thesis
    by (auto simp: get_external_certificates_config_def content_plain split: option.split)
qed

lemma config_resources_content:
  assumes "plain_switch env s"
  shows "all_content (config_resources env s)"
proof -
  have "all_content (each_row (tb_bridge (db s)) (order (tb_bridge (db s))) (\<lambda>r. get_ports_config env s))"
    by (intro each_row_content ports_config_content [OF assms])
  then show ?thesis
    using queues_config_content [OF assms] owned_config_content [OF assms] external_config_content [OF assms]
      flow_tables_config_content [OF assms]
    by (simp add: config_resources_def content_simps)
qed

lemma rate_plain: "plain (fst (current_rate st ecmd))" "plain (duplex_suffix st d)"
  by (simp_all add: current_rate_def duplex_suffix_def Let_def)

lemma iface_state_content:
  assumes "plain_iface x" and "plain_status st"
  shows "all_content (iface_state env st reply s r x)"
proof -
  have "xml_content (current_features env st ecmd)" for ecmd
    using rate_plain(1) [of st ecmd] rate_plain(2) [of st]
    by (cases "current_rate st ecmd") (simp add: current_features_def Let_def content_simps split del: if_split)
  moreover have "xml_content (of_speeds st s reply name)" "xml_content (port_live st s reply name)" for name
    by (cases reply; cases "of_get_port_byname reply name"; simp add: of_speeds_def port_live_def content_simps)+
  moreover have "plain_opt (i_link_state st r)" "plain_smap (i_other_config st r)"
    using assms(2) by (simp_all add: plain_status_def)
  moreover have "xml_content (case i_ofport st r of [] \<Rightarrow> [] | n # ns \<Rightarrow> elem ''number'' (show_nat (nat (n mod 2 ^ 64))))"
    by (simp add: content_simps split: list.split)
  ultimately show ?thesis
    using assms(1) by (simp add: iface_state_def port_state_def plain_iface_def Let_def content_simps split del: if_split)
qed

lemma flow_table_state_content:
  "plain_smap (ft_external_ids x) \<Longrightarrow> all_content (flow_table_state st r x)"
  by (auto simp: flow_table_state_def plain_smap_def plain_opt_def content_simps split: list.split option.split)

lemma state_resources_content:
  assumes "plain_switch env s" and "plain_status st"
  shows "all_content (state_resources env st s)"
proof -
  have "all_content (each_row (tb_port (db s)) rs
     (\<lambda>p port. each_row (tb_iface (db s)) (p_interfaces port) (iface_state env st reply s)))" for rs reply
    by (intro each_row_content iface_state_content [OF _ assms(2)] plain_cells(3) [OF assms(1)])
  then have "all_content (get_ports_state env st s b)" for b
    by (simp add: get_ports_state_def content_simps)
  then have "all_content (each_row (tb_bridge (db s)) (order (tb_bridge (db s))) (\<lambda>r. get_ports_state env st s))"
    by (intro each_row_content) simp
  moreover have "all_content (get_flow_tables_state st s)"
    unfolding get_flow_tables_state_def
    using plain_cells(1) [OF assms(1)] by (intro each_row_content flow_table_state_content) simp
  ultimately show ?thesis by (simp add: state_resources_def content_simps)
qed

lemma elems_content [content_simps]: "xml_name n \<Longrightarrow> \<forall>v \<in> set vs. plain v \<Longrightarrow> xml_content (elems n vs)"
  by (auto simp: elems_def content_plain intro!: content_concat content_elem)

lemma bridges_state_content:
  assumes "plain_switch env s"
  shows "all_content (get_bridges_state st s)"
proof -
  have "all_content (get_controller_state st r x)" if "plain_contr x" for r x
    using that by (simp add: get_controller_state_def plain_contr_def content_simps split del: if_split)
  then have "all_content (each_row (tb_contr (db s)) rs (get_controller_state st))" for rs
    using plain_cells(6) [OF assms] by (intro each_row_content) simp
  moreover have "xml_content capabilities"
    unfolding capabilities_def by (simp add: content_simps)
  ultimately show ?thesis
    unfolding get_bridges_state_def using plain_cells(5) [OF assms]
    by (intro each_row_content) (simp add: bridge_state_def content_simps)
qed

section \<open>The documents\<close>

definition refreshed :: "'k env \<Rightarrow> 'k ofc \<Rightarrow> 'k ofc" where
  "refreshed env s = s\<lparr>db := idl_run env (kst s) (db s)\<rparr>"

definition well_formed_switch :: "string \<Rightarrow> bool" where
  "well_formed_switch text \<longleftrightarrow> (\<exists>body. text = config_head @ body @ ''</capable-switch>'' \<and> xml_content body)"

lemma well_formed_switchI:
  assumes "xml_content first" and "xml_content resources" and "xml_content bridges"
  shows "well_formed_switch (config_head @ first @ (if resources = [] then [] else elem ''resources'' resources)
     @ (if bridges = [] then [] else elem ''logical-switches'' bridges) @ ''</capable-switch>'')"
  unfolding well_formed_switch_def
  by (rule exI [of _ "first @ (if resources = [] then [] else elem ''resources'' resources)
        @ (if bridges = [] then [] else elem ''logical-switches'' bridges)"])
    (use assms in \<open>simp add: content_simps\<close>)

lemma config_parts:
  assumes "ofc_get_config_data env s = Some (text, s')" and "cs_id s = Some switchid"
  shows "\<exists>resources bridges. config_resources env (refreshed env s) = Some resources
    \<and> get_bridges_config (refreshed env s) = Some bridges
    \<and> text = config_head @ elem ''id'' switchid @ (if resources = [] then [] else elem ''resources'' resources)
        @ (if bridges = [] then [] else elem ''logical-switches'' bridges) @ ''</capable-switch>''"
  using assms by (cases "config_resources env (refreshed env s)"; cases "get_bridges_config (refreshed env s)")
    (auto simp: ofc_get_config_data_def Let_def refreshed_def simp del: append_Cons append.simps split del: if_split)

lemma state_parts:
  assumes "ofc_get_state_data env st s = Some (text, s')" and "cs_id s = Some switchid"
  shows "\<exists>resources bridges. state_resources env st (refreshed env s) = Some resources
    \<and> get_bridges_state st (refreshed env s) = Some bridges
    \<and> text = config_head @ elem ''config-version'' ''1.2'' @ (if resources = [] then [] else elem ''resources'' resources)
        @ (if bridges = [] then [] else elem ''logical-switches'' bridges) @ ''</capable-switch>''"
  using assms by (cases "state_resources env st (refreshed env s)"; cases "get_bridges_state st (refreshed env s)")
    (auto simp: ofc_get_state_data_def Let_def refreshed_def simp del: append_Cons append.simps split del: if_split)

lemma config_well_formed:
  assumes "plain_switch env (refreshed env s)" and "ofc_get_config_data env s = Some (text, s')" and "cs_id s = Some switchid"
  shows "well_formed_switch text"
proof -
  have "plain switchid" using assms(1,3) by (simp add: plain_switch_def refreshed_def)
  then have "xml_content (elem ''id'' switchid)" by (simp add: content_simps)
  then show ?thesis
    using config_parts [OF assms(2,3)] config_resources_content [OF assms(1)] bridges_config_content [OF assms(1)]
    by (metis all_content_simps(2) well_formed_switchI)
qed

lemma state_well_formed:
  assumes "plain_switch env (refreshed env s)" and "plain_status st" and "ofc_get_state_data env st s = Some (text, s')"
    and "cs_id s = Some switchid"
  shows "well_formed_switch text"
proof -
  have "xml_content (elem ''config-version'' ''1.2'')" by (simp add: content_simps)
  then show ?thesis
    using state_parts [OF assms(3,4)] state_resources_content [OF assms(1,2)] bridges_state_content [OF assms(1), of st]
    by (metis all_content_simps(2) well_formed_switchI)
qed

text \<open>
  C16: the documents the switch prints are well-formed. If no value in the tables, the files and the status columns
  has a character of markup, the configuration and the state, whenever they are printed, are one \<^verbatim>\<open>capable-switch\<close> element whose content has
  matching start and end tags throughout; without an id of the switch both are empty.
\<close>

theorem printed_documents_well_formed:
  assumes "plain_switch env (refreshed env s)" and "plain_status st"
  shows "(\<forall>text s'. ofc_get_config_data env s = Some (text, s') \<longrightarrow> (if cs_id s = None then text = [] else well_formed_switch text))
    \<and> (\<forall>text s'. ofc_get_state_data env st s = Some (text, s') \<longrightarrow> (if cs_id s = None then text = [] else well_formed_switch text))"
  using config_well_formed [OF assms(1)] state_well_formed [OF assms]
  by (cases "cs_id s") (auto simp: ofc_get_config_data_def [of env s] ofc_get_state_data_def [of env st s] Let_def)

definition show_status :: "(16 word \<times> 32 word) status" where
  "show_status =
     \<lparr>ft_flow_limit = (\<lambda>r. []), i_ofport = (\<lambda>r. [1]), i_link_state = (\<lambda>r. Some ''up''), i_other_config = (\<lambda>r. []),
      c_is_connected = (\<lambda>r. True), phy_live = (\<lambda>k n p. True), phy_curr_speed = (\<lambda>k n p. 0), phy_max_speed = (\<lambda>k n p. 0),
      ethtool_gset = (\<lambda>k n. no_ecmd\<lparr>ec_speed := 1000, ec_duplex := 1\<rparr>), DUPLEX_HALF = 0, DUPLEX_FULL = 1,
      PORT_TP = 0, PORT_FIBRE = 3\<rparr>"

definition show_db :: db where
  "show_db = empty_db\<lparr>tb_bridge := one_row 1 ((new_bridge demo_env)\<lparr>br_name := Some ''br0'', br_ports := [2]\<rparr>),
     tb_port := one_row 2 ((new_port demo_env)\<lparr>p_name := Some ''eth0'', p_interfaces := [3]\<rparr>),
     tb_iface := one_row 3 ((new_iface demo_env)\<lparr>i_name := Some ''eth0''\<rparr>)\<rparr>"

lemma is_pair: "\<not> Option.is_none m \<Longrightarrow> \<exists>a b. m = Some (a, b)"
  by (cases m) auto

lemma demo_admin_state [simp]: "iface_admin_state demo_env k r = None"
  by (simp add: demo_env_def)

theorem printed_documents_well_formed_witness:
  "\<exists>text s'. ofc_get_config_data demo_env ((demo_ofc show_db)\<lparr>cs_id := Some ''sw''\<rparr>) = Some (text, s')
    \<and> well_formed_switch text"
proof -
  let ?s = "(demo_ofc show_db)\<lparr>cs_id := Some ''sw''\<rparr>"
  have "\<not> Option.is_none (ofc_get_config_data demo_env ?s)" by code_simp
  then obtain doc s' where t: "ofc_get_config_data demo_env ?s = Some (doc, s')"
    using is_pair by blast
  have p: "plain_switch demo_env (refreshed demo_env ?s)"
    by (simp add: plain_switch_def refreshed_def demo_ofc_def show_db_def plain_db_def all_cells_def plain_iface_def
        one_row_def empty_db_def no_rows_def plain_smap_def)
  have q: "plain_status show_status"
    by (simp add: plain_status_def show_status_def plain_smap_def)
  have "if cs_id ?s = None then doc = [] else well_formed_switch doc"
    using printed_documents_well_formed [OF p q] t by blast
  then show ?thesis using t by simp
qed

end
