(* ===== verification/Netconf_Server.thy ===== *)
theory Netconf_Server
  imports Xml_Tree
begin

text \<open>
  The callbacks of \<^verbatim>\<open>netconf-server-transapi.c\<close>: how the server starts, reconfigures and stops the SSH daemon that clients
  connect to. What the operating system answers comes in as \<open>os\<close>: the text of the configuration template or a failure
  to open it, the other file calls, and the result of \<^verbatim>\<open>fork\<close> in the parent. The program that the child executes is not part of the
  model, and \<^verbatim>\<open>asprintf\<close> does not fail.
\<close>

section \<open>State\<close>

datatype diff_op = XMLDIFF_NONE | XMLDIFF_ADD | XMLDIFF_REM | XMLDIFF_MOD | XMLDIFF_CHAIN

datatype sshd_signal = SigTerm | SigHup

record sshd =
  sshd_pid :: "16 word"
  sshd_listen :: "string option"
  SSHD_PID_env :: "string option"
  running_cfg :: "string option"
  sshd_signals :: "(16 word \<times> sshd_signal) list"

record sshd_os =
  template :: "string option"
  open_running :: bool
  fstat_ok :: bool
  sendfile_ok :: bool
  fork_result :: int

abbreviation newline :: char where
  "newline \<equiv> CHR 0x0A"

section \<open>Callbacks\<close>

definition kill_sshd :: "sshd \<Rightarrow> sshd" where
  "kill_sshd s =
     (if sshd_pid s \<noteq> 0
      then s\<lparr>sshd_signals := sshd_signals s @ [(sshd_pid s, SigTerm)], sshd_pid := 0, SSHD_PID_env := None\<rparr>
      else s)"

definition listen_oneport :: "diff_op \<Rightarrow> xmlnode \<Rightarrow> sshd \<Rightarrow> sshd" where
  "listen_oneport op new s =
     (if op \<noteq> XMLDIFF_REM
      then s\<lparr>sshd_listen := Some (''Port '' @ text_content new @ newline # ''ListenAddress 0.0.0.0'' @ newline # ''ListenAddress ::'')\<rparr>
      else s)"

text \<open>The first address and the first port among the children; without one of them NULL is printed.\<close>

definition child_text :: "string \<Rightarrow> xmlnode \<Rightarrow> string option" where
  "child_text name n = map_option text_content (find (\<lambda>c. is_element c \<and> node_name c = name) (children n))"

definition listen_manyports :: "diff_op \<Rightarrow> xmlnode \<Rightarrow> sshd \<Rightarrow> sshd outcome" where
  "listen_manyports op new s =
     (if op \<noteq> XMLDIFF_REM then
        (case (child_text ''address'' new, child_text ''port'' new) of
           (Some addr, Some port) \<Rightarrow>
             Success (s\<lparr>sshd_listen := Some ((case sshd_listen s of None \<Rightarrow> [] | Some l \<Rightarrow> l)
                         @ ''ListenAddress '' @ addr @ '':'' @ port @ [newline])\<rparr>)
         | _ \<Rightarrow> Undef)
      else Success s)"

definition sshd_error :: nc_err where
  "sshd_error = err_text NC_ERR_OP_FAILED ''ietf-netconf-server module internal error - unable to start SSH server.''"

definition start_sshd :: "sshd_os \<Rightarrow> sshd \<Rightarrow> sshd outcome" where
  "start_sshd os s =
     (if fork_result os < 0 then fail sshd_error s
      else Success (s\<lparr>sshd_pid := word_of_int (fork_result os),
             SSHD_PID_env := Some (take 9 (show_nat (unat (word_of_int (fork_result os) :: 16 word))))\<rparr>))"

definition netconf_listen :: "sshd_os \<Rightarrow> diff_op \<Rightarrow> sshd \<Rightarrow> sshd outcome" where
  "netconf_listen os op s =
     (if op = XMLDIFF_REM then Success (kill_sshd s)
      else (case template os of
              None \<Rightarrow> fail sshd_error s
            | Some text \<Rightarrow>
                if \<not> open_running os then fail sshd_error s
                else if \<not> fstat_ok os \<or> \<not> sendfile_ok os then fail sshd_error (s\<lparr>running_cfg := Some []\<rparr>)
                else (case sshd_listen s of
                        None \<Rightarrow> Undef
                      | Some l \<Rightarrow>
                          (let s1 = s\<lparr>running_cfg := Some (text @ newline # ''# NETCONF listening settings'' @ newline # l), sshd_listen := None\<rparr>
                           in if sshd_pid s1 \<noteq> 0
                              then Success (s1\<lparr>sshd_signals := sshd_signals s1 @ [(sshd_pid s1, SigHup)]\<rparr>)
                              else start_sshd os s1))))"

text \<open>The document of the defaults, of which the node of the port is used.\<close>

definition default_port :: xmlnode where
  "default_port = Element 0 ''port'' None [] [] [TextNode 1 ''830'']"

definition server_transapi_init :: "sshd_os \<Rightarrow> bool \<Rightarrow> sshd \<Rightarrow> sshd outcome" where
  "server_transapi_init os ssh_enabled s =
     (if ssh_enabled
      then (case netconf_listen os XMLDIFF_ADD (listen_oneport XMLDIFF_ADD default_port s) of
              Success s1 \<Rightarrow> Success s1
            | Failure e s1 \<Rightarrow> Failure None s1
            | Undef \<Rightarrow> Undef)
      else Success s)"

definition server_transapi_close :: "sshd \<Rightarrow> sshd" where
  "server_transapi_close s = kill_sshd s"

section \<open>Properties\<close>

definition default_listen :: string where
  "default_listen = ''Port 830'' @ newline # ''ListenAddress 0.0.0.0'' @ newline # ''ListenAddress ::''"

definition os_works :: "sshd_os \<Rightarrow> bool" where
  "os_works os \<longleftrightarrow> template os \<noteq> None \<and> open_running os \<and> fstat_ok os \<and> sendfile_ok os"

lemma default_listen_set:
  "listen_oneport XMLDIFF_ADD default_port s = s\<lparr>sshd_listen := Some default_listen\<rparr>"
  by (simp add: listen_oneport_def default_port_def default_listen_def)

text \<open>
  C40: the life of the SSH daemon. Starting the module with no daemon running writes the template followed by the default
  listening settings and starts one; a change of the settings after that rewrites the file and sends the same daemon a
  hangup; closing the module terminates it and forgets it. The process that gets the signals is the one that was started
  exactly when its id fits into 16 bits, since that is what is kept of it.
\<close>

theorem sshd_started_and_stopped:
  assumes "os_works os" and "template os = Some text" and "0 < fork_result os" and "sshd_pid s = 0"
    and "fork_result os mod 2 ^ 16 \<noteq> 0"
  shows "\<exists>s1 s2. server_transapi_init os True s = Success s1
    \<and> running_cfg s1 = Some (text @ newline # ''# NETCONF listening settings'' @ newline # default_listen)
    \<and> netconf_listen os XMLDIFF_MOD (s1\<lparr>sshd_listen := Some settings\<rparr>) = Success s2
    \<and> running_cfg s2 = Some (text @ newline # ''# NETCONF listening settings'' @ newline # settings)
    \<and> sshd_pid (server_transapi_close s2) = 0 \<and> SSHD_PID_env (server_transapi_close s2) = None
    \<and> (\<exists>pid. sshd_signals (server_transapi_close s2) = sshd_signals s @ [(pid, SigHup), (pid, SigTerm)]
            \<and> (uint pid = fork_result os \<longleftrightarrow> fork_result os < 2 ^ 16))"
proof -
  let ?pid = "word_of_int (fork_result os) :: 16 word"
  have u: "uint ?pid = fork_result os mod 2 ^ 16" by (simp add: uint_word_of_int)
  then have nz: "?pid \<noteq> 0" using assms(5) by auto
  have "uint ?pid = fork_result os \<longleftrightarrow> fork_result os < 2 ^ 16"
    unfolding u using assms(3) by (metis mod_pos_pos_trivial less_imp_le pos_mod_bound zero_less_numeral zero_less_power)
  moreover have "server_transapi_init os True s = start_sshd os
      (s\<lparr>running_cfg := Some (text @ newline # ''# NETCONF listening settings'' @ newline # default_listen), sshd_listen := None\<rparr>)"
    using assms by (simp add: server_transapi_init_def default_listen_set netconf_listen_def os_works_def start_sshd_def)
  ultimately show ?thesis
    using assms nz
    by (auto simp: start_sshd_def netconf_listen_def os_works_def server_transapi_close_def kill_sshd_def Let_def)
qed

theorem sshd_started_and_stopped_witness:
  "\<exists>s1. server_transapi_init \<lparr>template = Some ''UsePAM yes'', open_running = True, fstat_ok = True, sendfile_ok = True, fork_result = 4711\<rparr>
        True \<lparr>sshd_pid = 0, sshd_listen = None, SSHD_PID_env = None, running_cfg = None, sshd_signals = []\<rparr> = Success s1
    \<and> running_cfg s1 = Some (''UsePAM yes'' @ newline # ''# NETCONF listening settings'' @ newline # default_listen)"
  using sshd_started_and_stopped [of "\<lparr>template = Some ''UsePAM yes'', open_running = True, fstat_ok = True, sendfile_ok = True, fork_result = 4711\<rparr>"
      "''UsePAM yes''" "\<lparr>sshd_pid = 0, sshd_listen = None, SSHD_PID_env = None, running_cfg = None, sshd_signals = []\<rparr>"]
  by (auto simp: os_works_def)

end
