(* ===== verification/Agents.thy ===== *)
theory Agents
  imports Prelude "HOL-Library.Monad_Syntax"
begin

text \<open>
  The registry of agents in the server (\<^verbatim>\<open>server_ops.c\<close>): a doubly linked list of agent records in the heap, one for
  every NETCONF session. It is shown to behave as a list of sessions; the two transports, sockets and D-Bus, rely on
  that contract only.

  \<open>heap\<close> maps the addresses of allocated records to their contents and \<open>brk\<close> is the address that the next \<^verbatim>\<open>calloc\<close>
  returns. \<open>None\<close> stands for a call that goes wrong: a dereference of an address that is not allocated, a NULL string
  given to \<^verbatim>\<open>strcmp\<close>, or a walk along the links that never ends. libnetconf's dummy sessions and the application of an
  RPC to the datastores are parameters.
\<close>

section \<open>State\<close>

type_synonym addr = nat

record nc_session =
  s_id :: string
  s_user :: string
  s_cpblts :: "string list"

record agent_info =
  a_id :: string
  a_pid :: int
  a_session :: "nc_session option"
  a_next :: "addr option"
  a_prev :: "addr option"

type_synonym agent_heap = "addr \<Rightarrow> agent_info option"

record agent_list =
  agents :: "addr option"
  heap :: agent_heap
  brk :: addr
  signals :: "int list"

section \<open>Operations\<close>

partial_function (option) find_agent ::
  "(agent_info \<Rightarrow> bool option) \<Rightarrow> agent_heap \<Rightarrow> addr option \<Rightarrow> addr option option" where
  "find_agent matches h p =
     (case p of
        None \<Rightarrow> Some None
      | Some a \<Rightarrow>
          do { ag \<leftarrow> h a; b \<leftarrow> matches ag; if b then Some (Some a) else find_agent matches h (a_next ag) })"

text \<open>\<^verbatim>\<open>nc_session_get_id\<close> of no session is NULL, which \<^verbatim>\<open>strcmp\<close> must not get.\<close>

definition srv_get_agent_by_ncsid :: "string \<Rightarrow> agent_list \<Rightarrow> addr option option" where
  "srv_get_agent_by_ncsid ncsid l = find_agent (\<lambda>ag. map_option (\<lambda>s. ncsid = s_id s) (a_session ag)) (heap l) (agents l)"

definition srv_get_agent_by_agentid :: "string \<Rightarrow> agent_list \<Rightarrow> addr option option" where
  "srv_get_agent_by_agentid agentid l = find_agent (\<lambda>ag. Some (agentid = a_id ag)) (heap l) (agents l)"

partial_function (option) last_agent :: "agent_heap \<Rightarrow> addr \<Rightarrow> addr option" where
  "last_agent h a = do { ag \<leftarrow> h a; case a_next ag of None \<Rightarrow> Some a | Some b \<Rightarrow> last_agent h b }"

definition set_next :: "addr \<Rightarrow> addr option \<Rightarrow> agent_heap \<Rightarrow> agent_heap option" where
  "set_next a v h = do { ag \<leftarrow> h a; Some (h(a \<mapsto> ag\<lparr>a_next := v\<rparr>)) }"

definition set_prev :: "addr \<Rightarrow> addr option \<Rightarrow> agent_heap \<Rightarrow> agent_heap option" where
  "set_prev a v h = do { ag \<leftarrow> h a; Some (h(a \<mapsto> ag\<lparr>a_prev := v\<rparr>)) }"

text \<open>A new record goes to the end of the list.\<close>

definition append_agent :: "string \<Rightarrow> int \<Rightarrow> nc_session option \<Rightarrow> agent_list \<Rightarrow> agent_list option" where
  "append_agent agentid pid session l =
     (let a = brk l;
          h = (heap l)(a \<mapsto> \<lparr>a_id = agentid, a_pid = pid, a_session = session, a_next = None, a_prev = None\<rparr>)
      in case agents l of
           None \<Rightarrow> Some (l\<lparr>agents := Some a, heap := h, brk := Suc a\<rparr>)
         | Some first \<Rightarrow>
             do { b \<leftarrow> last_agent h first;
                  h1 \<leftarrow> set_next b (Some a) h;
                  h2 \<leftarrow> set_prev a (Some b) h1;
                  Some (l\<lparr>heap := h2, brk := Suc a\<rparr>) })"

definition srv_agent_new ::
  "(string \<Rightarrow> string \<Rightarrow> string list \<Rightarrow> nc_session option) \<Rightarrow> string \<Rightarrow> string \<Rightarrow> string list \<Rightarrow> string \<Rightarrow> 16 word
   \<Rightarrow> agent_list \<Rightarrow> agent_list option" where
  "srv_agent_new nc_session_dummy ncsid username cpblts agentid pid l =
     append_agent agentid (uint pid) (nc_session_dummy ncsid username cpblts) l"

definition srv_agent_stop :: "addr \<Rightarrow> agent_list \<Rightarrow> agent_list option" where
  "srv_agent_stop a l =
     do { ag \<leftarrow> heap l a;
          l1 \<leftarrow> (case a_prev ag of
                  Some p \<Rightarrow> do { h \<leftarrow> set_next p (a_next ag) (heap l); Some (l\<lparr>heap := h\<rparr>) }
                | None \<Rightarrow> Some (l\<lparr>agents := a_next ag\<rparr>));
          l2 \<leftarrow> (case a_next ag of
                  Some n \<Rightarrow> do { h \<leftarrow> set_prev n (a_prev ag) (heap l1); Some (l1\<lparr>heap := h\<rparr>) }
                | None \<Rightarrow> Some l1);
          Some (l2\<lparr>heap := (heap l2)(a := None)\<rparr>) }"

definition srv_agent_kill :: "addr \<Rightarrow> agent_list \<Rightarrow> agent_list option" where
  "srv_agent_kill a l =
     do { ag \<leftarrow> heap l a;
          srv_agent_stop a (l\<lparr>signals := signals l @ [a_pid ag]\<rparr>) }"

text \<open>
  What applying an RPC to all datastores gives: no reply, the special value for a request that no datastore handles,
  or a reply.
\<close>

datatype nc_reply = ReplyOk | ReplyError nc_err | ReplyData string

datatype rpc_result = RpcNull | RpcNotApplicable | RpcReply nc_reply

definition srv_process_rpc :: "(nc_session option \<Rightarrow> string \<Rightarrow> rpc_result) \<Rightarrow> nc_session option \<Rightarrow> string \<Rightarrow> nc_reply" where
  "srv_process_rpc ncds_apply_rpc2all session rpc =
     (case ncds_apply_rpc2all session rpc of
        RpcNull \<Rightarrow> ReplyError op_failed
      | RpcNotApplicable \<Rightarrow>
          ReplyError (err_text NC_ERR_OP_FAILED ''Request is not applicable to the data managed by the server'')
      | RpcReply reply \<Rightarrow> reply)"

section \<open>The list in the heap\<close>

text \<open>
  \<open>lseg h p f as k\<close>: from \<open>f\<close> the next-links lead through the records \<open>as\<close> to \<open>k\<close>, and the prev-links lead back from
  each of them, from the first one to \<open>p\<close>.
\<close>

fun lseg :: "agent_heap \<Rightarrow> addr option \<Rightarrow> addr option \<Rightarrow> addr list \<Rightarrow> addr option \<Rightarrow> bool" where
  "lseg h p f [] k \<longleftrightarrow> f = k"
| "lseg h p f (a # as) k \<longleftrightarrow>
     f = Some a \<and> (\<exists>ag. h a = Some ag \<and> a_prev ag = p \<and> lseg h (Some a) (a_next ag) as k)"

type_synonym agent_data = "string \<times> int \<times> nc_session"

definition agent_data :: "agent_info \<Rightarrow> agent_data" where
  "agent_data ag = (a_id ag, a_pid ag, the (a_session ag))"

definition holds :: "agent_heap \<Rightarrow> addr \<times> agent_data \<Rightarrow> bool" where
  "holds h x \<longleftrightarrow> (\<exists>ag. h (fst x) = Some ag \<and> a_session ag \<noteq> None \<and> agent_data ag = snd x)"

definition represents :: "agent_list \<Rightarrow> (addr \<times> agent_data) list \<Rightarrow> bool" where
  "represents l xs \<longleftrightarrow> lseg (heap l) None (agents l) (map fst xs) None \<and> distinct (map fst xs)
     \<and> (\<forall>x \<in> set xs. holds (heap l) x \<and> fst x < brk l)"

definition last_of :: "addr option \<Rightarrow> addr list \<Rightarrow> addr option" where
  "last_of p as = (if as = [] then p else Some (last as))"

lemma last_of_simps [simp]: "last_of p [] = p" "last_of p (a # as) = last_of (Some a) as" "last_of p (as @ [a]) = Some a"
  by (simp_all add: last_of_def)

lemma lseg_append: "lseg h p f (as @ bs) k \<longleftrightarrow> (\<exists>m. lseg h p f as m \<and> lseg h (last_of p as) m bs k)"
  by (induction as arbitrary: p f) auto

lemma lseg_upd [simp]: "a \<notin> set as \<Longrightarrow> lseg (h(a := v)) p f as k = lseg h p f as k"
  by (induction as arbitrary: p f) auto

lemma lseg_allocated: "lseg h p f as k \<Longrightarrow> a \<in> set as \<Longrightarrow> h a \<noteq> None"
  by (induction as arbitrary: p f) auto

lemma lseg_set_next:
  "lseg h p f (as @ [b]) m \<Longrightarrow> distinct (as @ [b]) \<Longrightarrow> h b = Some ag \<Longrightarrow>
   lseg (h(b \<mapsto> ag\<lparr>a_next := k\<rparr>)) p f (as @ [b]) k"
  by (auto simp: lseg_append)

lemma lseg_set_prev:
  "lseg h p (Some n) (n # bs) k \<Longrightarrow> n \<notin> set bs \<Longrightarrow> h n = Some ag \<Longrightarrow>
   lseg (h(n \<mapsto> ag\<lparr>a_prev := q\<rparr>)) q (Some n) (n # bs) k"
  by simp

lemma holds_upd [simp]: "a \<noteq> fst x \<Longrightarrow> holds (h(a := v)) x = holds h x"
  by (simp add: holds_def)

lemma holds_links:
  "h a = Some ag \<Longrightarrow> holds (h(a \<mapsto> ag\<lparr>a_next := v\<rparr>)) x = holds h x"
  "h a = Some ag \<Longrightarrow> holds (h(a \<mapsto> ag\<lparr>a_prev := v\<rparr>)) x = holds h x"
  by (auto simp: holds_def agent_data_def)

text \<open>Walking along the list.\<close>

lemma find_agent_lseg:
  assumes "lseg h p f (map fst xs) None" and "\<forall>x \<in> set xs. holds h x"
    and "\<And>ag. a_session ag \<noteq> None \<Longrightarrow> matches ag = Some (P (agent_data ag))"
  shows "find_agent matches h f = Some (map_option fst (find (\<lambda>x. P (snd x)) xs))"
  using assms(1,2)
proof (induction xs arbitrary: p f)
  case Nil
  then show ?case by (simp add: find_agent.simps)
next
  case (Cons x xs)
  obtain ag where ag: "h (fst x) = Some ag" "a_session ag \<noteq> None" "agent_data ag = snd x"
    using Cons.prems(2) by (auto simp: holds_def)
  then show ?case
    using Cons assms(3) [OF ag(2)] by (subst find_agent.simps) auto
qed

lemma last_agent_lseg:
  "lseg h p (Some a) (a # as) None \<Longrightarrow> last_agent h a = Some (last (a # as))"
proof (induction as arbitrary: p a)
  case Nil
  then show ?case by (subst last_agent.simps) auto
next
  case (Cons b bs)
  then obtain ag where "h a = Some ag" "a_next ag = Some b" "lseg h (Some a) (Some b) (b # bs) None" by auto
  then show ?case using Cons.IH [of "Some a" b] by (subst last_agent.simps) simp
qed

section \<open>Refinement\<close>

lemma append_agent_represents:
  assumes "represents l xs"
  shows "\<exists>l'. append_agent i pid (Some s) l = Some l' \<and> represents l' (xs @ [(brk l, i, pid, s)]) \<and> signals l' = signals l"
proof -
  let ?a = "brk l" and ?as = "map fst xs"
  let ?ag = "\<lparr>a_id = i, a_pid = pid, a_session = Some s, a_next = None, a_prev = None\<rparr>"
  let ?h = "(heap l)(?a \<mapsto> ?ag)"
  have seg: "lseg (heap l) None (agents l) ?as None" "distinct ?as" "\<forall>x \<in> set xs. holds (heap l) x \<and> fst x < brk l"
    using assms by (auto simp: represents_def)
  then have a: "?a \<notin> set ?as" by auto
  show ?thesis
  proof (cases xs rule: rev_cases)
    case Nil
    then show ?thesis
      using seg by (simp add: append_agent_def represents_def holds_def agent_data_def Let_def)
  next
    case (snoc ys y)
    let ?b = "fst y"
    have h: "lseg ?h None (agents l) ?as None" using seg(1) a by simp
    obtain first rest where as: "?as = first # rest" using snoc by (cases ?as) auto
    have "last ?as = ?b" using snoc by simp
    then have f: "agents l = Some first" "last_agent ?h first = Some ?b"
      using h last_agent_lseg [of ?h None first rest] unfolding as by auto
    obtain bg where bg: "?h ?b = Some bg" using lseg_allocated [OF h, of ?b] snoc by auto
    have ne: "?b \<noteq> ?a" using a snoc by auto
    let ?h1 = "?h(?b \<mapsto> bg\<lparr>a_next := Some ?a\<rparr>)" and ?h2 = "?h(?b \<mapsto> bg\<lparr>a_next := Some ?a\<rparr>, ?a \<mapsto> ?ag\<lparr>a_prev := Some ?b\<rparr>)"
    have "lseg ?h1 None (agents l) (map fst ys @ [?b]) (Some ?a)"
      using h seg(2) snoc bg by (intro lseg_set_next) auto
    then have "lseg ?h2 None (agents l) (?as @ [?a]) None"
      using a snoc ne seg(2) by (simp add: lseg_append)
    moreover have "holds ?h2 x" if "x \<in> set xs" for x
    proof -
      have "?a \<noteq> fst x" using a that by auto
      then have "holds ?h2 x = holds ?h1 x" "holds ?h x = holds (heap l) x" by (simp_all add: holds_def)
      moreover have "holds ?h1 x = holds ?h x" using bg by (rule holds_links)
      ultimately show ?thesis using seg(3) that by blast
    qed
    moreover have "holds ?h2 (?a, i, pid, s)" by (simp add: holds_def agent_data_def)
    ultimately show ?thesis
      using seg a f bg ne by (auto simp: append_agent_def represents_def set_next_def set_prev_def Let_def)
  qed
qed

lemma lookups_represent:
  assumes "represents l xs"
  shows "srv_get_agent_by_ncsid ncsid l = Some (map_option fst (find (\<lambda>(a, i, pid, s). ncsid = s_id s) xs))"
    and "srv_get_agent_by_agentid agentid l = Some (map_option fst (find (\<lambda>(a, i, pid, s). agentid = i) xs))"
proof -
  have "lseg (heap l) None (agents l) (map fst xs) None" "\<forall>x \<in> set xs. holds (heap l) x"
    using assms by (auto simp: represents_def)
  note find = find_agent_lseg [OF this]
  show "srv_get_agent_by_ncsid ncsid l = Some (map_option fst (find (\<lambda>(a, i, pid, s). ncsid = s_id s) xs))"
    unfolding srv_get_agent_by_ncsid_def
    by (subst find [of _ "\<lambda>(i, pid, s). ncsid = s_id s"]) (auto simp: agent_data_def split_def)
  show "srv_get_agent_by_agentid agentid l = Some (map_option fst (find (\<lambda>(a, i, pid, s). agentid = i) xs))"
    unfolding srv_get_agent_by_agentid_def
    by (subst find [of _ "\<lambda>(i, pid, s). agentid = i"]) (auto simp: agent_data_def split_def)
qed

lemma represents_split:
  assumes "represents l (ys @ (a, d) # zs)"
  obtains ag where "heap l a = Some ag" "a_prev ag = last_of None (map fst ys)" "agent_data ag = d"
    "lseg (heap l) None (agents l) (map fst ys) (Some a)" "lseg (heap l) (Some a) (a_next ag) (map fst zs) None"
    "a \<notin> set (map fst ys)" "a \<notin> set (map fst zs)" "distinct (map fst ys @ map fst zs)"
  using assms by (auto simp: represents_def lseg_append holds_def)

text \<open>Taking a record out: first the link from the record before it, then the link from the record behind it.\<close>

lemma unlink_prev:
  assumes "lseg h None f as (Some a)" and "distinct as" and "h a = Some ag" and "a_prev ag = last_of None as" and "a \<notin> set as"
  shows "\<exists>h' f'. (case a_prev ag of
            Some p \<Rightarrow> do { h' \<leftarrow> set_next p k h; Some (f, h') } | None \<Rightarrow> Some (k, h)) = Some (f', h')
     \<and> lseg h' None f' as k \<and> (\<forall>b. b \<notin> set as \<longrightarrow> h' b = h b) \<and> (\<forall>x. holds h' x = holds h x)"
proof (cases as rule: rev_cases)
  case Nil
  then show ?thesis using assms by auto
next
  case (snoc bs b)
  then obtain bg where "h b = Some bg" using lseg_allocated [OF assms(1), of b] by auto
  then show ?thesis
    using assms snoc lseg_set_next [of h None f bs b "Some a" bg k] holds_links(1) [of h b bg]
    by (auto simp: set_next_def)
qed

lemma unlink_next:
  assumes "lseg h (Some a) k bs None" and "distinct bs"
  shows "\<exists>h'. (case k of Some n \<Rightarrow> set_prev n p h | None \<Rightarrow> Some h) = Some h'
     \<and> lseg h' p k bs None \<and> (\<forall>b. b \<notin> set bs \<longrightarrow> h' b = h b) \<and> (\<forall>x. holds h' x = holds h x)"
proof (cases bs)
  case (Cons b cs)
  then obtain bg where "h b = Some bg" "k = Some b" using assms(1) by auto
  then show ?thesis
    using assms Cons lseg_set_prev [of h "Some a" b cs None bg p] holds_links(2) [of h b bg]
    by (auto simp: set_prev_def)
qed (use assms in auto)

lemma lseg_agree: "lseg h p f as k \<Longrightarrow> \<forall>a \<in> set as. h' a = h a \<Longrightarrow> lseg h' p f as k"
  by (induction as arbitrary: p f) auto

lemma stop_represents:
  assumes "represents l (ys @ (a, d) # zs)"
  shows "\<exists>l'. srv_agent_stop a l = Some l' \<and> represents l' (ys @ zs) \<and> signals l' = signals l"
proof -
  obtain ag where ag: "heap l a = Some ag" "a_prev ag = last_of None (map fst ys)"
    "lseg (heap l) None (agents l) (map fst ys) (Some a)" "lseg (heap l) (Some a) (a_next ag) (map fst zs) None"
    "a \<notin> set (map fst ys)" "a \<notin> set (map fst zs)" and dist: "distinct (map fst ys @ map fst zs)"
    using represents_split [OF assms] by blast
  obtain h1 f1 where p: "(case a_prev ag of Some p \<Rightarrow> do { h' \<leftarrow> set_next p (a_next ag) (heap l); Some (agents l, h') }
       | None \<Rightarrow> Some (a_next ag, heap l)) = Some (f1, h1)"
    and h1: "lseg h1 None f1 (map fst ys) (a_next ag)" "\<forall>b. b \<notin> set (map fst ys) \<longrightarrow> h1 b = heap l b" "\<forall>x. holds h1 x = holds (heap l) x"
    using unlink_prev [OF ag(3) _ ag(1,2,5), of "a_next ag"] dist by auto
  have "lseg h1 (Some a) (a_next ag) (map fst zs) None"
    using ag(4) h1(2) dist by (intro lseg_agree [OF ag(4)]) auto
  then obtain h2 where n: "(case a_next ag of Some n \<Rightarrow> set_prev n (a_prev ag) h1 | None \<Rightarrow> Some h1) = Some h2"
    and h2: "lseg h2 (a_prev ag) (a_next ag) (map fst zs) None" "\<forall>b. b \<notin> set (map fst zs) \<longrightarrow> h2 b = h1 b" "\<forall>x. holds h2 x = holds h1 x"
    using unlink_next [of h1 a "a_next ag" "map fst zs" "a_prev ag"] dist by auto
  let ?l = "l\<lparr>agents := f1, heap := h2(a := None)\<rparr>"
  have "srv_agent_stop a l = Some ?l"
    using ag(1) p n by (auto simp: srv_agent_stop_def Option.bind_eq_Some_conv split: option.splits)
  moreover have "lseg h2 None f1 (map fst ys) (a_next ag)"
    using dist h2(2) by (intro lseg_agree [OF h1(1)]) auto
  then have "lseg (h2(a := None)) None f1 (map fst (ys @ zs)) None"
    using h2(1) ag(2,5,6) by (auto simp: lseg_append)
  moreover have "holds (h2(a := None)) x \<and> fst x < brk l" if "x \<in> set (ys @ zs)" for x
  proof -
    have "a \<noteq> fst x" using that ag(5,6) by auto
    then have "holds (h2(a := None)) x = holds (heap l) x" using h1(3) h2(3) by (metis holds_upd)
    then show ?thesis using assms that by (auto simp: represents_def)
  qed
  ultimately show ?thesis using dist by (simp add: represents_def)
qed

lemma kill_represents:
  assumes "represents l (ys @ (a, i, pid, s) # zs)"
  shows "\<exists>l'. srv_agent_kill a l = Some l' \<and> represents l' (ys @ zs) \<and> signals l' = signals l @ [pid]"
proof -
  obtain ag where "heap l a = Some ag" "agent_data ag = (i, pid, s)" using represents_split [OF assms] by metis
  moreover have "represents (l\<lparr>signals := signals l @ [pid]\<rparr>) (ys @ (a, i, pid, s) # zs)"
    using assms by (simp add: represents_def)
  ultimately show ?thesis using stop_represents by (fastforce simp: srv_agent_kill_def agent_data_def)
qed

section \<open>Requests to end a session\<close>

text \<open>
  What the handlers do to an entry they have found, in terms of the list: the entry is taken out, and with
  \<^verbatim>\<open>srv_agent_kill\<close> its process gets a signal.
\<close>

definition session_id_of :: "addr \<Rightarrow> agent_list \<Rightarrow> string option" where
  "session_id_of a l = do { ag \<leftarrow> heap l a; s \<leftarrow> a_session ag; Some (s_id s) }"

definition without :: "addr \<Rightarrow> (addr \<times> agent_data) list \<Rightarrow> (addr \<times> agent_data) list" where
  "without a xs = filter (\<lambda>x. fst x \<noteq> a) xs"

lemma entry_split:
  assumes "represents l xs" and "(a, d) \<in> set xs"
  shows "\<exists>ys zs. xs = ys @ (a, d) # zs \<and> without a xs = ys @ zs"
proof -
  obtain ys zs where xs: "xs = ys @ (a, d) # zs" using assms(2) by (meson split_list)
  have "a \<notin> fst ` set ys" "a \<notin> fst ` set zs" using assms(1) by (auto simp: represents_def xs)
  then have "filter (\<lambda>x. fst x \<noteq> a) ys = ys" "filter (\<lambda>x. fst x \<noteq> a) zs = zs"
    unfolding filter_id_conv by (metis imageI)+
  then show ?thesis using xs by (auto simp: without_def)
qed

lemma entry_removed:
  assumes "represents l xs" and "(a, i, p, s) \<in> set xs"
  shows "\<exists>l'. srv_agent_stop a l = Some l' \<and> represents l' (without a xs) \<and> signals l' = signals l"
    and "\<exists>l'. srv_agent_kill a l = Some l' \<and> represents l' (without a xs) \<and> signals l' = signals l @ [p]"
  using entry_split [OF assms] stop_represents kill_represents assms(1) by metis+

lemma entry_session:
  assumes "represents l xs" and "(a, i, p, s) \<in> set xs"
  shows "session_id_of a l = Some (s_id s)" and "\<exists>ag. heap l a = Some ag \<and> a_session ag = Some s"
proof -
  have "holds (heap l) (a, i, p, s)" using assms by (auto simp: represents_def)
  then show "session_id_of a l = Some (s_id s)" and "\<exists>ag. heap l a = Some ag \<and> a_session ag = Some s"
    by (auto simp: holds_def agent_data_def session_id_of_def)
qed

lemma find_entry: "find P xs = Some x \<Longrightarrow> x \<in> set xs \<and> P x"
  by (auto simp: find_Some_iff)

text \<open>
  The decision on a request of the agent \<open>j\<close> to kill the session \<open>victim\<close>: the message of a refusal, or the entry to
  remove. \<open>own\<close> is the test by which the request is taken to be for the session of the agent itself.
\<close>

definition kill_decision ::
  "(nc_session \<Rightarrow> bool) \<Rightarrow> string \<Rightarrow> string \<Rightarrow> (addr \<times> agent_data) list \<Rightarrow> string + (addr \<times> agent_data)" where
  "kill_decision own j victim xs =
     (case find (\<lambda>(a, i, p, s). victim = s_id s) xs of
        None \<Rightarrow> Inl ''Session to kill does not exists''
      | Some e \<Rightarrow>
          (case find (\<lambda>(a, i, p, s). j = i) xs of
             None \<Rightarrow> Inl ''You are unknown client''
           | Some (a, i, p, s) \<Rightarrow> if own s then Inl ''Killing own session requested'' else Inr e))"

lemma kill_decision_Inr: "kill_decision own j victim xs = Inr (a, i, p, s) \<Longrightarrow> (a, i, p, s) \<in> set xs \<and> s_id s = victim"
  by (auto simp: kill_decision_def dest: find_entry split: option.splits if_splits)

text \<open>libnetconf's dummy sessions are created and keep what they are created with.\<close>

definition dummy_ok :: "(string \<Rightarrow> string \<Rightarrow> string list \<Rightarrow> nc_session option) \<Rightarrow> bool" where
  "dummy_ok f \<longleftrightarrow> (\<forall>n u c. \<exists>s. f n u c = Some s \<and> s_id s = n \<and> s_user s = u \<and> s_cpblts s = c)"

lemma dummy_okD:
  assumes "dummy_ok f"
  shows "f n u c = Some \<lparr>s_id = n, s_user = u, s_cpblts = c\<rparr>"
proof -
  obtain s where "f n u c = Some s" "s_id s = n" "s_user s = u" "s_cpblts s = c"
    using assms unfolding dummy_ok_def by blast
  then show ?thesis by (cases s) simp
qed

section \<open>The contract\<close>

text \<open>
  What a transport can rely on: a registry denotes a list of entries in the order of their arrival, each with a handle.
  Keys are the id of the agent and the id of its NETCONF session.
\<close>

locale session_registry =
  fixes denotes :: "'s \<Rightarrow> ('p \<times> agent_data) list \<Rightarrow> bool"
    and add :: "string \<Rightarrow> int \<Rightarrow> nc_session \<Rightarrow> 's \<Rightarrow> 's option"
    and by_ncsid :: "string \<Rightarrow> 's \<Rightarrow> 'p option option" and by_agentid :: "string \<Rightarrow> 's \<Rightarrow> 'p option option"
    and remove :: "'p \<Rightarrow> 's \<Rightarrow> 's option"
  assumes add: "denotes l xs \<Longrightarrow> \<exists>l' p. add i pid s l = Some l' \<and> denotes l' (xs @ [(p, i, pid, s)])"
    and by_ncsid: "denotes l xs \<Longrightarrow> by_ncsid n l = Some (map_option fst (find (\<lambda>(p, i, pid, s). n = s_id s) xs))"
    and by_agentid: "denotes l xs \<Longrightarrow> by_agentid j l = Some (map_option fst (find (\<lambda>(p, i, pid, s). j = i) xs))"
    and remove: "denotes l (ys @ (p, d) # zs) \<Longrightarrow> \<exists>l'. remove p l = Some l' \<and> denotes l' (ys @ zs)"
begin

text \<open>An agent that registers is found by its id, unless an older one has the same id.\<close>

lemma found_after_add:
  assumes "denotes l xs" and "i \<notin> (\<lambda>x. fst (snd x)) ` set xs"
  shows "\<exists>l' p. add i pid s l = Some l' \<and> by_agentid i l' = Some (Some p) \<and> denotes l' (xs @ [(p, i, pid, s)])"
proof -
  obtain l' p where l': "add i pid s l = Some l'" "denotes l' (xs @ [(p, i, pid, s)])" using add [OF assms(1)] by blast
  have "find (\<lambda>(p, j, pid, s). i = j) xs = None" using assms(2) by (force simp: find_None_iff)
  then have "find (\<lambda>(p, j, pid, s). i = j) (xs @ [(p, i, pid, s)]) = Some (p, i, pid, s)"
    by (induction xs) (auto split: if_splits)
  then show ?thesis using l' by_agentid [OF l'(2), of i] by auto
qed

text \<open>What is found can be removed, and with distinct keys it is not found any more.\<close>

lemma removed_is_gone:
  assumes "denotes l xs" and "distinct (map (\<lambda>x. fst (snd x)) xs)" and "by_agentid i l = Some (Some p)"
  shows "\<exists>l'. remove p l = Some l' \<and> by_agentid i l' = Some None \<and> denotes l' (filter (\<lambda>x. fst (snd x) \<noteq> i) xs)"
proof -
  have "find (\<lambda>(p, j, pid, s). i = j) xs \<noteq> None" using assms(3) by_agentid [OF assms(1), of i] by auto
  then obtain x where f: "find (\<lambda>(p, j, pid, s). i = j) xs = Some x" "fst x = p"
    using assms(3) by_agentid [OF assms(1), of i] by auto
  then obtain d where x: "x = (p, d)" by (cases x) auto
  have "x \<in> set xs" "i = fst (snd x)" using f(1) by (auto simp: find_Some_iff split_def)
  then have mem: "(p, d) \<in> set xs" "i = fst d" by (simp_all add: x)
  then obtain ys zs where xs: "xs = ys @ (p, d) # zs" by (meson split_list)
  have "fst d \<notin> (\<lambda>x. fst (snd x)) ` (set ys \<union> set zs)" using assms(2) unfolding xs by auto
  then have other: "\<forall>y \<in> set ys \<union> set zs. fst (snd y) \<noteq> i" using mem(2) by (metis imageI)
  then have "filter (\<lambda>x. fst (snd x) \<noteq> i) ys = ys" "filter (\<lambda>x. fst (snd x) \<noteq> i) zs = zs"
    unfolding filter_id_conv by blast+
  then have "filter (\<lambda>x. fst (snd x) \<noteq> i) xs = ys @ zs" using mem(2) by (simp add: xs)
  moreover obtain l' where l': "remove p l = Some l'" "denotes l' (ys @ zs)"
    using remove [of l ys p d zs] assms(1) unfolding xs by blast
  moreover have "find (\<lambda>(p, j, pid, s). i = j) (ys @ zs) = None"
    using other unfolding find_None_iff split_def set_append by blast
  ultimately show ?thesis using by_agentid [OF l'(2), of i] by (metis option.map(1))
qed

end

interpretation agent_registry: session_registry represents "\<lambda>i pid s. append_agent i pid (Some s)"
  srv_get_agent_by_ncsid srv_get_agent_by_agentid srv_agent_stop
proof unfold_locales
  fix l xs i pid s
  assume "represents l xs"
  then show "\<exists>l' p. append_agent i pid (Some s) l = Some l' \<and> represents l' (xs @ [(p, i, pid, s)])"
    using append_agent_represents by blast
next
  fix l xs and n :: string
  assume "represents l xs"
  then show "srv_get_agent_by_ncsid n l = Some (map_option fst (find (\<lambda>(p, i, pid, s). n = s_id s) xs))"
    by (rule lookups_represent)
next
  fix l xs and j :: string
  assume "represents l xs"
  then show "srv_get_agent_by_agentid j l = Some (map_option fst (find (\<lambda>(p, i, pid, s). j = i) xs))"
    by (rule lookups_represent)
next
  fix l ys p d zs
  assume "represents l (ys @ (p, d) # zs)"
  then show "\<exists>l'. srv_agent_stop p l = Some l' \<and> represents l' (ys @ zs)"
    using stop_represents by blast
qed

section \<open>Properties\<close>

text \<open>
  C6: the linked list of agents refines a list of sessions. On a list that represents \<open>xs\<close> no operation follows a bad
  pointer or loops: a new agent is appended at the end, the two searches return the first entry with the key,
  \<^verbatim>\<open>srv_agent_stop\<close> takes out just the entry it is given, and \<^verbatim>\<open>srv_agent_kill\<close> signals its process as well.
\<close>

theorem agent_list_refines_sessions:
  assumes "represents l xs" and "dummy_ok nc_session_dummy"
  shows "(\<exists>l' a. srv_agent_new nc_session_dummy ncsid user cpblts agentid pid l = Some l'
             \<and> represents l' (xs @ [(a, agentid, uint pid, \<lparr>s_id = ncsid, s_user = user, s_cpblts = cpblts\<rparr>)]))
    \<and> srv_get_agent_by_ncsid n l = Some (map_option fst (find (\<lambda>(a, i, p, s). n = s_id s) xs))
    \<and> srv_get_agent_by_agentid j l = Some (map_option fst (find (\<lambda>(a, i, p, s). j = i) xs))
    \<and> (\<forall>ys a i p s zs. xs = ys @ (a, i, p, s) # zs \<longrightarrow>
         (\<exists>l'. srv_agent_stop a l = Some l' \<and> represents l' (ys @ zs) \<and> signals l' = signals l)
       \<and> (\<exists>l'. srv_agent_kill a l = Some l' \<and> represents l' (ys @ zs) \<and> signals l' = signals l @ [p]))"
proof -
  have "\<exists>l' a. srv_agent_new nc_session_dummy ncsid user cpblts agentid pid l = Some l'
      \<and> represents l' (xs @ [(a, agentid, uint pid, \<lparr>s_id = ncsid, s_user = user, s_cpblts = cpblts\<rparr>)])"
    using append_agent_represents [OF assms(1)] dummy_okD [OF assms(2)] by (fastforce simp: srv_agent_new_def)
  then show ?thesis
    using lookups_represent [OF assms(1)] stop_represents kill_represents assms(1) by auto
qed

definition no_agents :: agent_list where
  "no_agents = \<lparr>agents = None, heap = (\<lambda>_. None), brk = 1, signals = []\<rparr>"

definition demo_dummy :: "string \<Rightarrow> string \<Rightarrow> string list \<Rightarrow> nc_session option" where
  "demo_dummy n u c = Some \<lparr>s_id = n, s_user = u, s_cpblts = c\<rparr>"

lemma no_agents_represent: "represents no_agents []"
  by (simp add: represents_def no_agents_def)

theorem agent_list_refines_sessions_witness:
  "\<exists>l a. srv_agent_new demo_dummy ''7'' ''admin'' [] '':1.42'' 4711 no_agents = Some l
      \<and> represents l [(a, '':1.42'', 4711, \<lparr>s_id = ''7'', s_user = ''admin'', s_cpblts = []\<rparr>)]"
  using agent_list_refines_sessions [OF no_agents_represent, of demo_dummy "''7''" "''admin''" "[]" "'':1.42''" 4711]
  by (simp add: demo_dummy_def dummy_ok_def)

end
