(* ===== verification/Comm_Socket.thy ===== *)
theory Comm_Socket
  imports Agents
begin

text \<open>
  The transport over a UNIX socket (\<^verbatim>\<open>comm_socket.c\<close>, \<^verbatim>\<open>server_comm_socket.c\<close>, \<^verbatim>\<open>agent_comm_socket.c\<close>): how
  messages are put on the wire by the agent, taken off by the server, and what the server does for each of them.

  A connection is what arrives (chunks of bytes and errors, as \<^verbatim>\<open>recv\<close> delivers them one after the other; at the end the
  peer has closed) and what has been sent. \<open>None\<close> is a call that goes wrong, in particular one that uses a variable or
  a buffer which \<^verbatim>\<open>recv\<close> has not filled. \<^verbatim>\<open>send\<close> and the allocation of memory do not fail. Integers are in the byte
  order of the machine, which is the same on both sides; little endian is chosen here.
\<close>

section \<open>Bytes\<close>

fun le_bytes :: "nat \<Rightarrow> nat \<Rightarrow> string" where
  "le_bytes 0 n = []"
| "le_bytes (Suc k) n = char_of (n mod 256) # le_bytes k (n div 256)"

fun le_value :: "string \<Rightarrow> nat" where
  "le_value [] = 0"
| "le_value (c # cs) = of_char c + 256 * le_value cs"

lemma length_le_bytes [simp]: "length (le_bytes k n) = k"
  by (induction k arbitrary: n) simp_all

lemma le_value_bytes [simp]: "le_value (le_bytes k n) = n mod 256 ^ k"
  by (induction k arbitrary: n) (simp_all add: mod_mult2_eq [of _ 256] of_char_of)

definition int_bytes :: "32 word \<Rightarrow> string" where
  "int_bytes w = le_bytes 4 (unat w)"

definition pid_bytes :: "16 word \<Rightarrow> string" where
  "pid_bytes w = le_bytes 2 (unat w)"

lemma int_bytes_value [simp]: "word_of_nat (le_value (int_bytes w)) = w" "length (int_bytes w) = 4"
proof -
  have "unat w < 2 ^ LENGTH(32)" by (rule unsigned_less)
  then show "word_of_nat (le_value (int_bytes w)) = w" "length (int_bytes w) = 4" by (simp_all add: int_bytes_def)
qed

lemma pid_bytes_value [simp]: "word_of_nat (le_value (pid_bytes w)) = w" "length (pid_bytes w) = 2"
proof -
  have "unat w < 2 ^ LENGTH(16)" by (rule unsigned_less)
  then show "word_of_nat (le_value (pid_bytes w)) = w" "length (pid_bytes w) = 2" by (simp_all add: pid_bytes_def)
qed

text \<open>A string goes out with its length, including the terminating NUL, in front.\<close>

definition str_bytes :: "string \<Rightarrow> string" where
  "str_bytes s = int_bytes (word_of_nat (length s + 1)) @ s @ [NUL]"

section \<open>Connections\<close>

datatype sock_errno = EAGAIN | EINTR | EOTHER

datatype rx_event = Data string | RxError sock_errno

record peer =
  rx :: "rx_event list"
  tx :: string

text \<open>\<^verbatim>\<open>recv\<close> of at most \<open>n\<close> bytes: the bytes, or nothing when the peer has closed or an error is reported.\<close>

fun recv :: "nat \<Rightarrow> rx_event list \<Rightarrow> string \<times> rx_event list" where
  "recv n [] = ([], [])"
| "recv n (RxError e # es) = ([], es)"
| "recv n (Data bs # es) = (take n bs, if length bs \<le> n then es else Data (drop n bs) # es)"

text \<open>The loop of \<^verbatim>\<open>recv_msg\<close>, which goes on until it has \<open>n\<close> bytes; \<open>None\<close> is the NULL it returns on a failure.\<close>

fun recv_loop :: "nat \<Rightarrow> rx_event list \<Rightarrow> string \<Rightarrow> string option \<times> rx_event list" where
  "recv_loop 0 es acc = (Some acc, es)"
| "recv_loop (Suc n) [] acc = (None, [])"
| "recv_loop (Suc n) (RxError e # es) acc =
     (if e = EAGAIN \<or> e = EINTR then recv_loop (Suc n) es acc else (None, es))"
| "recv_loop (Suc n) (Data bs # es) acc =
     (if bs = [] then (None, es)
      else if length bs \<le> Suc n then recv_loop (Suc n - length bs) es (acc @ bs)
      else (Some (acc @ take (Suc n) bs), Data (drop (Suc n) bs) # es))"

definition recv_msg :: "nat \<Rightarrow> peer \<Rightarrow> string option \<times> peer" where
  "recv_msg len p = (let (m, es) = recv_loop len (rx p) [] in (m, p\<lparr>rx := es\<rparr>))"

definition comm_failed :: nc_err where
  "comm_failed = err_text NC_ERR_OP_FAILED ''agent-server communication failed.''"

text \<open>A buffer used as a string must have a NUL; a variable filled by one \<^verbatim>\<open>recv\<close> must have got all its bytes.\<close>

definition c_string :: "string \<Rightarrow> string option" where
  "c_string buf = (if NUL \<in> set buf then Some (takeWhile (\<lambda>c. c \<noteq> NUL) buf) else None)"

definition recv_var :: "nat \<Rightarrow> peer \<Rightarrow> (string \<times> peer) option" where
  "recv_var n p = (let (bs, es) = recv n (rx p) in if length bs = n then Some (bs, p\<lparr>rx := es\<rparr>) else None)"

definition recv_int :: "peer \<Rightarrow> (32 word \<times> peer) option" where
  "recv_int p = map_option (\<lambda>(bs, p). (word_of_nat (le_value bs), p)) (recv_var 4 p)"

text \<open>A variable that has a value already keeps it when nothing arrives.\<close>

definition recv_int_or :: "32 word \<Rightarrow> peer \<Rightarrow> (32 word \<times> peer) option" where
  "recv_int_or v p = (let (bs, es) = recv 4 (rx p) in if bs = [] then Some (v, p\<lparr>rx := es\<rparr>) else recv_int p)"

definition sends :: "string \<Rightarrow> peer \<Rightarrow> peer" where
  "sends bs p = p\<lparr>tx := tx p @ bs\<rparr>"

definition COMM_SOCK_RESULT_ERROR :: "32 word" where "COMM_SOCK_RESULT_ERROR = -1"
definition COMM_SOCK_GET_CPBLTS :: "32 word" where "COMM_SOCK_GET_CPBLTS = 1"
definition COMM_SOCK_SET_SESSION :: "32 word" where "COMM_SOCK_SET_SESSION = 2"
definition COMM_SOCK_CLOSE_SESSION :: "32 word" where "COMM_SOCK_CLOSE_SESSION = 3"
definition COMM_SOCK_KILL_SESSION :: "32 word" where "COMM_SOCK_KILL_SESSION = 4"
definition COMM_SOCK_GENERICOP :: "32 word" where "COMM_SOCK_GENERICOP = 5"

lemmas COMM_SOCK_defs = COMM_SOCK_RESULT_ERROR_def COMM_SOCK_GET_CPBLTS_def COMM_SOCK_SET_SESSION_def
  COMM_SOCK_CLOSE_SESSION_def COMM_SOCK_KILL_SESSION_def COMM_SOCK_GENERICOP_def

section \<open>Server\<close>

record 'a sock_env =
  nc_dummy :: "string \<Rightarrow> string \<Rightarrow> string list \<Rightarrow> nc_session option"
  default_cpblts :: "string list"
  apply_rpc2all :: "nc_session option \<Rightarrow> string \<Rightarrow> rpc_result"
  reply_dump :: "nc_reply \<Rightarrow> string"

text \<open>The id of an agent: its socket as a decimal number in a buffer of six characters.\<close>

definition sock_id :: "nat \<Rightarrow> string" where
  "sock_id fd = take 5 (show_nat fd)"

definition get_capabilities :: "'a sock_env \<Rightarrow> peer \<Rightarrow> peer" where
  "get_capabilities env p =
     sends (int_bytes COMM_SOCK_GET_CPBLTS @ int_bytes (word_of_nat (length (default_cpblts env)))
            @ concat (map str_bytes (default_cpblts env))) p"

text \<open>The loop that receives the capabilities; \<open>None\<close> inside the result is a failed \<^verbatim>\<open>recv_msg\<close>.\<close>

fun recv_cpblts :: "nat \<Rightarrow> peer \<Rightarrow> (string list option \<times> peer) option" where
  "recv_cpblts 0 p = Some (Some [], p)"
| "recv_cpblts (Suc n) p =
     do { (len, p1) \<leftarrow> recv_int p;
          case recv_msg (unat len) p1 of
            (None, p2) \<Rightarrow> Some (None, p2)
          | (Some buf, p2) \<Rightarrow>
              do { (cs, p3) \<leftarrow> recv_cpblts n p2;
                   case cs of
                     None \<Rightarrow> Some (None, p3)
                   | Some cs \<Rightarrow> do { c \<leftarrow> c_string buf; Some (Some (c # cs), p3) } } }"

definition set_session :: "'a sock_env \<Rightarrow> nat \<Rightarrow> peer \<times> agent_list \<Rightarrow> (peer \<times> agent_list) option" where
  "set_session env fd st =
     do { (len, p1) \<leftarrow> recv_int (fst st);
          (sid, p2) \<leftarrow> recv_var (unat len) p1;
          (pid, p3) \<leftarrow> recv_var 2 p2;
          (len, p4) \<leftarrow> recv_int p3;
          (user, p5) \<leftarrow> recv_var (unat len) p4;
          (count, p6) \<leftarrow> recv_int p5;
          if sint count < 0 then None
          else do {
            (cs, p7) \<leftarrow> recv_cpblts (unat count) p6;
            case cs of
              None \<Rightarrow> Some (sends (int_bytes COMM_SOCK_RESULT_ERROR) p7, snd st)
            | Some cs \<Rightarrow>
                do { ncsid \<leftarrow> c_string sid;
                     username \<leftarrow> c_string user;
                     l \<leftarrow> srv_agent_new (nc_dummy env) ncsid username cs (sock_id fd) (word_of_nat (le_value pid)) (snd st);
                     Some (sends (int_bytes COMM_SOCK_SET_SESSION) p7, l) } } }"

definition close_session :: "nat \<Rightarrow> peer \<times> agent_list \<Rightarrow> (peer \<times> agent_list) option" where
  "close_session fd st =
     do { found \<leftarrow> srv_get_agent_by_agentid (sock_id fd) (snd st);
          case found of
            None \<Rightarrow> Some st
          | Some a \<Rightarrow> do { l \<leftarrow> srv_agent_stop a (snd st); Some (sends (int_bytes COMM_SOCK_CLOSE_SESSION) (fst st), l) } }"

definition refuse :: "string \<Rightarrow> peer \<times> agent_list \<Rightarrow> peer \<times> agent_list" where
  "refuse errmsg st = (sends (int_bytes COMM_SOCK_RESULT_ERROR @ str_bytes errmsg) (fst st), snd st)"

definition kill_session :: "nat \<Rightarrow> peer \<times> agent_list \<Rightarrow> (peer \<times> agent_list) option" where
  "kill_session fd st =
     do { (len, p1) \<leftarrow> recv_int_or 0 (fst st);
          case recv_msg (unat len) p1 of
            (None, p2) \<Rightarrow> Some (refuse ''SessionID expected as a string value'' (p2, snd st))
          | (Some buf, p2) \<Rightarrow>
              do { ncsid2kill \<leftarrow> c_string buf;
                   found \<leftarrow> srv_get_agent_by_ncsid ncsid2kill (snd st);
                   case found of
                     None \<Rightarrow> Some (refuse ''Session to kill does not exists'' (p2, snd st))
                   | Some session \<Rightarrow>
                       do { sender \<leftarrow> srv_get_agent_by_agentid (sock_id fd) (snd st);
                            case sender of
                              None \<Rightarrow> Some (refuse ''You are unknown client'' (p2, snd st))
                            | Some a \<Rightarrow>
                                do { own \<leftarrow> session_id_of a (snd st);
                                     if own = ncsid2kill
                                     then Some (refuse ''Killing own session requested'' (p2, snd st))
                                     else do { l \<leftarrow> srv_agent_kill session (snd st);
                                               Some (sends (int_bytes COMM_SOCK_KILL_SESSION) p2, l) } } } } }"

definition send_reply :: "'a sock_env \<Rightarrow> nc_reply \<Rightarrow> peer \<Rightarrow> peer" where
  "send_reply env reply p = sends (int_bytes COMM_SOCK_GENERICOP @ str_bytes (reply_dump env reply)) p"

definition process_operation :: "'a sock_env \<Rightarrow> nat \<Rightarrow> peer \<times> agent_list \<Rightarrow> (peer \<times> agent_list) option" where
  "process_operation env fd st =
     do { (len, p1) \<leftarrow> recv_int (fst st);
          case recv_msg (unat len) p1 of
            (None, p2) \<Rightarrow> Some (send_reply env (ReplyError comm_failed) p2, snd st)
          | (Some buf, p2) \<Rightarrow>
              do { found \<leftarrow> srv_get_agent_by_agentid (sock_id fd) (snd st);
                   case found of
                     None \<Rightarrow>
                       Some (send_reply env (ReplyError (err_text NC_ERR_OP_FAILED ''request from unknown agent'')) p2, snd st)
                   | Some a \<Rightarrow>
                       do { ag \<leftarrow> heap (snd st) a;
                            rpc \<leftarrow> c_string buf;
                            Some (send_reply env (srv_process_rpc (apply_rpc2all env) (a_session ag) rpc) p2, snd st) } } }"

section \<open>Agent\<close>

text \<open>
  What the agent sends for each request, and what it makes of the answer. Sending comes first, then the answer is
  received. The functions are for an open descriptor; the test at the beginning of each, which returns \<open>r\<close> for the descriptor -1,
  is \<open>guarded\<close>. The iterator over the capabilities of a session is at its start.
\<close>

definition guarded :: "'r \<Rightarrow> (peer \<Rightarrow> ('r \<times> peer) option) \<Rightarrow> nat option \<times> peer \<Rightarrow> ('r \<times> nat option \<times> peer) option" where
  "guarded r f cp =
     (case cp of (c, p) \<Rightarrow> if c = None then Some (r, c, p) else map_option (\<lambda>(x, p1). (x, c, p1)) (f p))"

definition cpblts_request :: string where
  "cpblts_request = int_bytes COMM_SOCK_GET_CPBLTS"

definition comm_get_srv_cpblts :: "peer \<Rightarrow> (string list option \<times> peer) option" where
  "comm_get_srv_cpblts p =
     do { (result, p1) \<leftarrow> recv_int_or 0 (sends cpblts_request p);
          if result \<noteq> COMM_SOCK_GET_CPBLTS then Some (None, p1)
          else do { (count, p2) \<leftarrow> recv_int p1;
                    if sint count < 0 then None else recv_cpblts (unat count) p2 } }"

definition session_request :: "string \<Rightarrow> int \<Rightarrow> string \<Rightarrow> string list \<Rightarrow> string" where
  "session_request sid pid username cpblts =
     int_bytes COMM_SOCK_SET_SESSION @ str_bytes sid @ pid_bytes (word_of_int pid) @ str_bytes username
     @ int_bytes (word_of_nat (length cpblts)) @ concat (map str_bytes cpblts)"

definition comm_session_info_send :: "int \<Rightarrow> string \<Rightarrow> string \<Rightarrow> string list \<Rightarrow> peer \<Rightarrow> (bool \<times> peer) option" where
  "comm_session_info_send pid username sid cpblts p =
     do { (result, p1) \<leftarrow> recv_int_or 0 (sends (session_request sid pid username cpblts) p);
          Some (result = COMM_SOCK_SET_SESSION, p1) }"

definition operation_request :: "string \<Rightarrow> string" where
  "operation_request rpc = int_bytes COMM_SOCK_GENERICOP @ str_bytes rpc"

definition comm_operation :: "(string \<Rightarrow> nc_reply option) \<Rightarrow> string \<Rightarrow> peer \<Rightarrow> (nc_reply option \<times> peer) option" where
  "comm_operation nc_reply_build rpc p =
     do { (result, p1) \<leftarrow> recv_int_or 0 (sends (operation_request rpc) p);
          if result \<noteq> COMM_SOCK_GENERICOP then Some (Some (ReplyError comm_failed), p1)
          else do { (len, p2) \<leftarrow> recv_int p1;
                    case recv_msg (unat len) p2 of
                      (None, p3) \<Rightarrow> Some (Some (ReplyError comm_failed), p3)
                    | (Some buf, p3) \<Rightarrow> do { m \<leftarrow> c_string buf; Some (nc_reply_build m, p3) } } }"

definition comm_close :: "peer \<Rightarrow> (bool \<times> peer) option" where
  "comm_close p =
     do { (result, p1) \<leftarrow> recv_int_or 0 (sends (int_bytes COMM_SOCK_CLOSE_SESSION) p);
          Some (result = COMM_SOCK_CLOSE_SESSION, p1) }"

definition kill_request :: "string \<Rightarrow> string" where
  "kill_request sid = int_bytes COMM_SOCK_KILL_SESSION @ str_bytes sid"

definition comm_kill_session :: "string \<Rightarrow> peer \<Rightarrow> (nc_reply \<times> peer) option" where
  "comm_kill_session sid p =
     do { (result, p1) \<leftarrow> recv_int_or 0 (sends (kill_request sid) p);
          if result = COMM_SOCK_RESULT_ERROR then
            do { (len, p2) \<leftarrow> recv_int p1;
                 case recv_msg (unat len) p2 of
                   (None, p3) \<Rightarrow> Some (ReplyError op_failed, p3)
                 | (Some buf, p3) \<Rightarrow> do { m \<leftarrow> c_string buf; Some (ReplyError (err_text NC_ERR_OP_FAILED m), p3) } }
          else Some (if result = COMM_SOCK_KILL_SESSION then ReplyOk else ReplyError op_failed, p1) }"

text \<open>The descriptor of the agent: \<open>None\<close> is -1. \<open>connected\<close> tells whether \<^verbatim>\<open>connect\<close> succeeds.\<close>

definition agent_comm_init :: "nat option \<Rightarrow> bool \<Rightarrow> nat option" where
  "agent_comm_init new_socket connected = (if connected then new_socket else None)"

definition agent_comm_destroy :: "nat option \<Rightarrow> peer \<Rightarrow> (nat option \<times> peer) option" where
  "agent_comm_destroy c p = (if c = None then Some (None, p) else map_option (\<lambda>(r, p). (None, p)) (comm_close p))"

section \<open>Receiving what was sent\<close>

text \<open>\<open>arrives bs es\<close>: the events deliver \<open>bs\<close> in some chunks, with interruptions in between.\<close>

inductive arrives :: "string \<Rightarrow> rx_event list \<Rightarrow> bool" where
  arrives_end: "arrives [] []"
| arrives_retry: "arrives bs es \<Longrightarrow> e = EAGAIN \<or> e = EINTR \<Longrightarrow> arrives bs (RxError e # es)"
| arrives_chunk: "c \<noteq> [] \<Longrightarrow> arrives bs es \<Longrightarrow> arrives (c @ bs) (Data c # es)"

lemma recv_loop_arrives:
  "arrives bs es \<Longrightarrow> n \<le> length bs \<Longrightarrow> \<exists>es'. recv_loop n es acc = (Some (acc @ take n bs), es') \<and> arrives (drop n bs) es'"
proof (induction arbitrary: n acc rule: arrives.induct)
  case arrives_end
  then show ?case by (simp add: arrives.arrives_end)
next
  case (arrives_retry bs es e)
  then show ?case
    by (cases n) (auto intro: arrives.arrives_retry)
next
  case (arrives_chunk c bs es)
  show ?case
  proof (cases "n = 0")
    case True
    then show ?thesis using arrives_chunk by (auto intro: arrives.arrives_chunk)
  next
    case False
    then obtain m where n: "n = Suc m" by (cases n) auto
    show ?thesis
    proof (cases "length c \<le> n")
      case True
      have "n - length c \<le> length bs" using arrives_chunk.prems by simp
      then obtain es' where "recv_loop (n - length c) es (acc @ c) = (Some ((acc @ c) @ take (n - length c) bs), es')"
        "arrives (drop (n - length c) bs) es'"
        using arrives_chunk.IH [of "n - length c" "acc @ c"] by blast
      then show ?thesis using n True arrives_chunk.hyps(1) by simp
    next
      case False
      then have "arrives (drop n c @ bs) (Data (drop n c) # es)"
        using arrives_chunk.hyps by (intro arrives.arrives_chunk) auto
      then show ?thesis using n False arrives_chunk.hyps(1) by simp
    qed
  qed
qed

text \<open>The bytes \<open>bs\<close> are there in one piece, before the other events.\<close>

definition inbox :: "string \<Rightarrow> rx_event list \<Rightarrow> rx_event list" where
  "inbox bs es = (if bs = [] then es else Data bs # es)"

lemma recv_var_inbox:
  "length a = n \<Longrightarrow> 0 < n \<Longrightarrow> recv_var n (p\<lparr>rx := inbox (a @ b) es\<rparr>) = Some (a, p\<lparr>rx := inbox b es\<rparr>)"
  by (auto simp: recv_var_def inbox_def)

lemma recv_int_inbox [simp]:
  "recv_int (p\<lparr>rx := inbox (int_bytes w @ b) es\<rparr>) = Some (w, p\<lparr>rx := inbox b es\<rparr>)"
  using recv_var_inbox [where a = "int_bytes w" and n = 4 and p = p and b = b and es = es] by (simp add: recv_int_def)

lemma recv_int_or_inbox [simp]:
  "recv_int_or v (p\<lparr>rx := inbox (int_bytes w @ b) es\<rparr>) = Some (w, p\<lparr>rx := inbox b es\<rparr>)"
proof -
  have "int_bytes w \<noteq> []" using int_bytes_value(2) [of w] by (metis list.size(3) zero_neq_numeral)
  then show ?thesis using recv_int_inbox [where p = p and w = w and b = b and es = es] by (simp add: recv_int_or_def inbox_def)
qed

lemma recv_msg_inbox:
  assumes "length a = n" and "0 < n"
  shows "recv_msg n (p\<lparr>rx := inbox (a @ b) es\<rparr>) = (Some a, p\<lparr>rx := inbox b es\<rparr>)"
proof -
  obtain m where "n = Suc m" using assms by (cases n) auto
  then show ?thesis using assms by (auto simp: recv_msg_def inbox_def)
qed

definition sendable :: "string \<Rightarrow> bool" where
  "sendable s \<longleftrightarrow> NUL \<notin> set s \<and> length s + 1 < 2 ^ 32"

lemma sendable_length: "sendable s \<Longrightarrow> unat (word_of_nat (length s + 1) :: 32 word) = length s + 1"
  unfolding unat_of_nat sendable_def by simp

lemma c_string_NUL [simp]: "NUL \<notin> set s \<Longrightarrow> c_string (s @ [NUL]) = Some s"
  by (simp add: c_string_def takeWhile_append)

text \<open>A string is received as it was sent, by one \<^verbatim>\<open>recv\<close> or by \<^verbatim>\<open>recv_msg\<close>.\<close>

lemma recv_string:
  assumes "sendable s"
  shows "do { (len, p1) \<leftarrow> recv_int (p\<lparr>rx := inbox (str_bytes s @ b) es\<rparr>); (buf, p2) \<leftarrow> recv_var (unat len) p1; f buf p2 }
     = f (s @ [NUL]) (p\<lparr>rx := inbox b es\<rparr>)"
  using sendable_length [OF assms] recv_var_inbox [where a = "s @ [NUL]" and n = "length s + 1" and p = p and b = b and es = es]
  by (simp add: str_bytes_def)

lemma recv_message:
  assumes "sendable s"
  shows "recv_int (p\<lparr>rx := inbox (str_bytes s @ b) es\<rparr>)
       = Some (word_of_nat (length s + 1), p\<lparr>rx := inbox ((s @ [NUL]) @ b) es\<rparr>)"
    and "recv_msg (unat (word_of_nat (length s + 1) :: 32 word)) (p\<lparr>rx := inbox ((s @ [NUL]) @ b) es\<rparr>)
       = (Some (s @ [NUL]), p\<lparr>rx := inbox b es\<rparr>)"
  unfolding sendable_length [OF assms] by (simp add: str_bytes_def, intro recv_msg_inbox, simp_all)

lemma recv_cpblts_inbox:
  "\<forall>c \<in> set cs. sendable c \<Longrightarrow>
   recv_cpblts (length cs) (p\<lparr>rx := inbox (concat (map str_bytes cs) @ b) es\<rparr>) = Some (Some cs, p\<lparr>rx := inbox b es\<rparr>)"
proof (induction cs)
  case (Cons c cs)
  then have c: "sendable c" "NUL \<notin> set c" by (auto simp: sendable_def)
  show ?case
    using Cons recv_message [OF c(1), where p = p and b = "concat (map str_bytes cs) @ b" and es = es] c(2) by (simp del: of_nat_add of_nat_Suc)
qed simp

section \<open>Requests and their effect\<close>

definition session_body :: "string \<Rightarrow> int \<Rightarrow> string \<Rightarrow> string list \<Rightarrow> string" where
  "session_body sid pid username cpblts =
     str_bytes sid @ pid_bytes (word_of_int pid) @ str_bytes username
     @ int_bytes (word_of_nat (length cpblts)) @ concat (map str_bytes cpblts)"

lemma session_request_body:
  "session_request sid pid user cs = int_bytes COMM_SOCK_SET_SESSION @ session_body sid pid user cs"
  by (simp add: session_request_def session_body_def)

lemma small_count: "n < 2 ^ 31 \<Longrightarrow> unat (word_of_nat n :: 32 word) = n \<and> \<not> sint (word_of_nat n :: 32 word) < 0"
  unfolding unat_of_nat by (simp add: signed_of_nat signed_take_bit_int_eq_self)

lemma set_session_inbox:
  assumes "sendable sid" and "sendable user" and "\<forall>c \<in> set cs. sendable c" and "length cs < 2 ^ 31"
    and "dummy_ok (nc_dummy env)"
  shows "set_session env fd (p\<lparr>rx := inbox (session_body sid pid user cs @ b) es\<rparr>, l)
     = map_option (Pair (sends (int_bytes COMM_SOCK_SET_SESSION) (p\<lparr>rx := inbox b es\<rparr>)))
         (append_agent (sock_id fd) (pid mod 2 ^ 16) (Some \<lparr>s_id = sid, s_user = user, s_cpblts = cs\<rparr>) l)"
proof -
  have n: "NUL \<notin> set sid" "NUL \<notin> set user" using assms(1,2) by (auto simp: sendable_def)
  note d = dummy_okD [OF assms(5), of sid user cs]
  have pid: "uint (word_of_int pid :: 16 word) = pid mod 2 ^ 16" by (simp add: uint_word_of_int)
  show ?thesis
    unfolding set_session_def session_body_def fst_conv snd_conv append_assoc
    unfolding recv_string [OF assms(1)] recv_string [OF assms(2)]
    using n d pid small_count [OF assms(4)] recv_cpblts_inbox [OF assms(3)]
    by (cases "append_agent (sock_id fd) (pid mod 2 ^ 16) (Some \<lparr>s_id = sid, s_user = user, s_cpblts = cs\<rparr>) l")
      (simp_all add: recv_var_inbox recv_string [OF assms(2)] srv_agent_new_def)
qed

lemma kill_session_inbox:
  assumes "represents l xs" and "sendable victim"
  shows "case kill_decision (\<lambda>s. s_id s = victim) (sock_id fd) victim xs of
       Inl m \<Rightarrow> kill_session fd (p\<lparr>rx := inbox (str_bytes victim @ b) es\<rparr>, l) = Some (refuse m (p\<lparr>rx := inbox b es\<rparr>, l))
     | Inr (a, i, pid, s) \<Rightarrow>
         \<exists>l'. kill_session fd (p\<lparr>rx := inbox (str_bytes victim @ b) es\<rparr>, l)
                = Some (sends (int_bytes COMM_SOCK_KILL_SESSION) (p\<lparr>rx := inbox b es\<rparr>), l')
              \<and> represents l' (without a xs) \<and> signals l' = signals l @ [pid]"
proof -
  have v: "NUL \<notin> set victim" using assms(2) by (simp add: sendable_def)
  have "recv_int_or 0 (p\<lparr>rx := inbox (str_bytes victim @ b) es\<rparr>)
      = Some (word_of_nat (length victim + 1), p\<lparr>rx := inbox ((victim @ [NUL]) @ b) es\<rparr>)"
    using recv_int_or_inbox [of 0 "word_of_nat (length victim + 1)" "(victim @ [NUL]) @ b" es p] by (simp add: str_bytes_def)
  then have start: "kill_session fd (p\<lparr>rx := inbox (str_bytes victim @ b) es\<rparr>, l) =
     (case map_option fst (find (\<lambda>(a, i, p, s). victim = s_id s) xs) of
        None \<Rightarrow> Some (refuse ''Session to kill does not exists'' (p\<lparr>rx := inbox b es\<rparr>, l))
      | Some session \<Rightarrow>
          (case map_option fst (find (\<lambda>(a, i, p, s). sock_id fd = i) xs) of
             None \<Rightarrow> Some (refuse ''You are unknown client'' (p\<lparr>rx := inbox b es\<rparr>, l))
           | Some a \<Rightarrow>
               do { own \<leftarrow> session_id_of a l;
                    if own = victim then Some (refuse ''Killing own session requested'' (p\<lparr>rx := inbox b es\<rparr>, l))
                    else do { l' \<leftarrow> srv_agent_kill session l;
                              Some (sends (int_bytes COMM_SOCK_KILL_SESSION) (p\<lparr>rx := inbox b es\<rparr>), l') } }))"
    using recv_message(2) [OF assms(2), where p = p and b = b and es = es] v
    unfolding kill_session_def fst_conv snd_conv lookups_represent [OF assms(1)] by (simp del: case_map_option)
  show ?thesis
  proof (cases "find (\<lambda>(a, i, p, s). victim = s_id s) xs")
    case None
    then show ?thesis unfolding start by (simp add: kill_decision_def)
  next
    case (Some e)
    note e = this
    obtain a i pid s where es: "e = (a, i, pid, s)" by (cases e)
    show ?thesis
    proof (cases "find (\<lambda>(a, i, p, s). sock_id fd = i) xs")
      case None
      then show ?thesis unfolding start by (simp add: kill_decision_def e)
    next
      case (Some x)
      obtain a' i' pid' s' where x: "x = (a', i', pid', s')" by (cases x)
      have "session_id_of a' l = Some (s_id s')" using entry_session [OF assms(1)] find_entry [OF Some] x by blast
      then show ?thesis
        using entry_removed(2) [OF assms(1)] find_entry [OF e] Some x e es unfolding start
        by (fastforce simp: kill_decision_def)
    qed
  qed
qed

section \<open>The loop of the server\<close>

text \<open>
  The table of polled descriptors: entry 0 is the socket the server listens on, switched off while the table is full,
  the others belong to agents. The outcome of \<^verbatim>\<open>poll\<close> and the connections that \<^verbatim>\<open>accept\<close> returns come from outside.
\<close>

definition AGENTS_QUEUE :: nat where
  "AGENTS_QUEUE = 10"

record revent =
  broken :: bool
  readable :: bool

datatype polled = PollEintr | PollFailed | PollTimeout | PollReady "revent list"

record sock_server =
  listen_sock :: "nat option"
  fds :: "nat option list"
  connected_agents :: nat
  peers :: "nat \<Rightarrow> peer"
  alist :: agent_list

text \<open>
  Starting to listen: what the operating system answers comes in as \<open>os\<close>. A socket left over from a crash is removed, any
  other one belongs to a running server. The build without a group for the socket is modelled.
\<close>

record sock_os =
  path_exists :: bool
  unlink_ok :: bool
  new_socket :: "nat option"
  bind_ok :: bool
  listen_ok :: bool

definition comm_init :: "sock_os \<Rightarrow> bool \<Rightarrow> sock_server \<Rightarrow> bool \<times> sock_server" where
  "comm_init os crashed st =
     (if listen_sock st \<noteq> None then (True, st)
      else if path_exists os \<and> (\<not> crashed \<or> \<not> unlink_ok os) then (False, st)
      else (case new_socket os of
              None \<Rightarrow> (False, st)
            | Some s \<Rightarrow>
                if bind_ok os \<and> listen_ok os
                then (True, st\<lparr>listen_sock := Some s, fds := Some s # replicate AGENTS_QUEUE None\<rparr>)
                else (False, st)))"

text \<open>A slot becomes free, and listening is switched on again if it was off.\<close>

definition drop_agent :: "nat \<Rightarrow> sock_server \<Rightarrow> sock_server" where
  "drop_agent i st =
     (let fs = (fds st)[i := None] in
      st\<lparr>fds := (if fs ! 0 = None then fs[0 := listen_sock st] else fs), connected_agents := connected_agents st - 1\<rparr>)"

definition with_peer ::
  "nat \<Rightarrow> (peer \<times> agent_list \<Rightarrow> (peer \<times> agent_list) option) \<Rightarrow> sock_server \<Rightarrow> sock_server option" where
  "with_peer fd f st =
     do { (p, l) \<leftarrow> f (peers st fd, alist st); Some (st\<lparr>peers := (peers st)(fd := p), alist := l\<rparr>) }"

text \<open>One request. Without a complete operation code nothing is done; the code must not arrive in parts.\<close>

definition dispatch :: "'a sock_env \<Rightarrow> nat \<Rightarrow> nat \<Rightarrow> 32 word \<Rightarrow> sock_server \<Rightarrow> sock_server option" where
  "dispatch env i fd op st =
     (if op = COMM_SOCK_GET_CPBLTS then with_peer fd (\<lambda>(p, l). Some (get_capabilities env p, l)) st
      else if op = COMM_SOCK_SET_SESSION then with_peer fd (set_session env fd) st
      else if op = COMM_SOCK_CLOSE_SESSION then map_option (drop_agent i) (with_peer fd (close_session fd) st)
      else if op = COMM_SOCK_KILL_SESSION then with_peer fd (kill_session fd) st
      else if op = COMM_SOCK_GENERICOP then with_peer fd (process_operation env fd) st
      else with_peer fd (\<lambda>(p, l). Some (sends (int_bytes COMM_SOCK_RESULT_ERROR) p, l)) st)"

text \<open>
  The loop over the slots; the first component of the result tells that all events are served and the call returns
  early. \<open>ret\<close> counts the events that are left.
\<close>

fun serve_agents :: "'a sock_env \<Rightarrow> revent list \<Rightarrow> nat list \<Rightarrow> nat \<Rightarrow> sock_server \<Rightarrow> (bool \<times> sock_server) option" where
  "serve_agents env revs [] ret st = Some (False, st)"
| "serve_agents env revs (i # is) ret st =
     (if connected_agents st = 0 then Some (False, st)
      else if broken (revs ! i) then serve_agents env revs is ret (drop_agent i st)
      else if readable (revs ! i) then
        (case fds st ! i of
           None \<Rightarrow> serve_agents env revs is (ret - 1) st
         | Some fd \<Rightarrow>
             (let (bs, es) = recv 4 (rx (peers st fd)); st1 = st\<lparr>peers := (peers st)(fd := (peers st fd)\<lparr>rx := es\<rparr>)\<rparr> in
              if bs = [] then serve_agents env revs is (ret - 1) st1
              else if length bs \<noteq> 4 then None
              else do { st2 \<leftarrow> dispatch env i fd (word_of_nat (le_value bs)) st1;
                        if ret - 1 = 0 then Some (True, st2) else serve_agents env revs is (ret - 1) st2 }))
      else serve_agents env revs is ret st)"

definition comm_destroy :: "sock_server \<Rightarrow> sock_server" where
  "comm_destroy st = (if listen_sock st = None then st else st\<lparr>listen_sock := None, connected_agents := 0\<rparr>)"

text \<open>
  New connections until \<^verbatim>\<open>accept\<close> fails; \<open>again\<close> tells that it fails with \<^verbatim>\<open>EAGAIN\<close>. Each goes to the first free slot, and
  writing to a slot behind the table is what must not happen.
\<close>

definition free_slot :: "nat option list \<Rightarrow> nat" where
  "free_slot fs = (case find (\<lambda>i. fs ! i = None) [1..<AGENTS_QUEUE + 1] of Some i \<Rightarrow> i | None \<Rightarrow> AGENTS_QUEUE + 1)"

fun accept_agents :: "bool \<Rightarrow> nat list \<Rightarrow> sock_server \<Rightarrow> (bool \<times> sock_server) option" where
  "accept_agents again [] st = Some (if again then (True, st) else (False, comm_destroy st))"
| "accept_agents again (s # ss) st =
     (let i = free_slot (fds st) in
      if i < length (fds st) then
        (let st1 = st\<lparr>fds := (fds st)[i := Some s], connected_agents := connected_agents st + 1\<rparr> in
         if connected_agents st1 = AGENTS_QUEUE then Some (True, st1\<lparr>fds := (fds st1)[0 := None]\<rparr>)
         else accept_agents again ss st1)
      else None)"

definition comm_round :: "'a sock_env \<Rightarrow> revent list \<Rightarrow> bool \<Rightarrow> nat list \<Rightarrow> sock_server \<Rightarrow> (bool \<times> sock_server) option" where
  "comm_round env revs again ss st =
     do { (served, st1) \<leftarrow> serve_agents env revs [1..<AGENTS_QUEUE + 1]
            (length (filter (\<lambda>r. broken r \<or> readable r) revs)) st;
          if served then Some (True, st1)
          else if broken (revs ! 0) then Some (False, comm_destroy st1)
          else if readable (revs ! 0) then accept_agents again ss st1
          else Some (True, st1) }"

text \<open>
  One call of \<^verbatim>\<open>comm_loop\<close>; the outcomes of \<^verbatim>\<open>poll\<close> are taken from a list, since an interrupted call is repeated, and
  \<open>None\<close> with the list used up is a call that still waits.
\<close>

fun comm_loop :: "'a sock_env \<Rightarrow> polled list \<Rightarrow> bool \<Rightarrow> nat list \<Rightarrow> sock_server \<Rightarrow> (bool \<times> sock_server) option" where
  "comm_loop env [] again ss st = (if listen_sock st = None then Some (False, st) else None)"
| "comm_loop env (ev # evs) again ss st =
     (if listen_sock st = None then Some (False, st)
      else (case ev of
              PollEintr \<Rightarrow> comm_loop env evs again ss st
            | PollFailed \<Rightarrow> Some (False, comm_destroy st)
            | PollTimeout \<Rightarrow> Some (True, st)
            | PollReady revs \<Rightarrow> comm_round env revs again ss st))"

section \<open>The table of descriptors\<close>

definition busy :: "nat option list \<Rightarrow> nat" where
  "busy fs = length (filter (\<lambda>f. f \<noteq> None) (tl fs))"

definition table_ok :: "sock_server \<Rightarrow> bool" where
  "table_ok st \<longleftrightarrow> length (fds st) = AGENTS_QUEUE + 1 \<and> listen_sock st \<noteq> None
     \<and> connected_agents st = busy (fds st) \<and> (fds st ! 0 = None \<longleftrightarrow> connected_agents st = AGENTS_QUEUE)"

text \<open>\<^verbatim>\<open>poll\<close> reports nothing for a slot that is switched off.\<close>

definition polls_ok :: "revent list \<Rightarrow> sock_server \<Rightarrow> bool" where
  "polls_ok revs st \<longleftrightarrow> length revs = AGENTS_QUEUE + 1
     \<and> (\<forall>i \<le> AGENTS_QUEUE. fds st ! i = None \<longrightarrow> \<not> broken (revs ! i) \<and> \<not> readable (revs ! i))"

lemma filter_update:
  "j < length xs \<Longrightarrow>
   length (filter P (xs[j := v])) + (if P (xs ! j) then 1 else 0) = length (filter P xs) + (if P v then 1 else 0)"
proof (induction xs arbitrary: j)
  case (Cons x xs)
  then show ?case using Cons.IH [of "j - 1"] by (cases j) auto
qed simp

lemma busy_update:
  assumes "0 < i" and "i < length fs"
  shows "busy (fs[i := v]) + (if fs ! i = None then 0 else 1) = busy fs + (if v = None then 0 else 1)"
proof -
  have "tl (fs[i := v]) = (tl fs)[i - 1 := v]" "tl fs ! (i - 1) = fs ! i"
    using assms by (cases fs; cases i; simp)+
  then show ?thesis
    using filter_update [of "i - 1" "tl fs" "\<lambda>f. f \<noteq> None" v] assms by (auto simp: busy_def split: if_splits)
qed

lemma busy_first [simp]: "busy (fs[0 := v]) = busy fs"
  by (cases fs) (simp_all add: busy_def)

lemma comm_init_ok:
  "comm_init os crashed st = (True, st') \<Longrightarrow> listen_sock st = None \<Longrightarrow> connected_agents st = 0 \<Longrightarrow> table_ok st'"
  by (auto simp: comm_init_def table_ok_def busy_def AGENTS_QUEUE_def split: if_splits option.splits)

lemma drop_agent_ok:
  assumes "table_ok st" and "1 \<le> i" and "i \<le> AGENTS_QUEUE" and "fds st ! i \<noteq> None"
  shows "table_ok (drop_agent i st) \<and> connected_agents (drop_agent i st) < connected_agents st
    \<and> (\<forall>j. 0 < j \<longrightarrow> j \<noteq> i \<longrightarrow> fds (drop_agent i st) ! j = fds st ! j)"
proof -
  have len: "length (fds st) = AGENTS_QUEUE + 1" "i < length (fds st)" using assms by (auto simp: table_ok_def)
  then have "busy ((fds st)[i := None]) + 1 = busy (fds st)" using busy_update [of i "fds st" None] assms by auto
  moreover have "busy (fds st) \<le> AGENTS_QUEUE"
    using len length_filter_le [of "\<lambda>f. f \<noteq> None" "tl (fds st)"] by (simp add: busy_def)
  ultimately show ?thesis using assms len by (auto simp: table_ok_def drop_agent_def Let_def)
qed

lemma with_peer_ok: "with_peer fd f st = Some st' \<Longrightarrow>
   table_ok st' = table_ok st \<and> fds st' = fds st \<and> connected_agents st' = connected_agents st"
  by (auto simp: with_peer_def table_ok_def Option.bind_eq_Some_conv)

lemma dispatch_ok:
  assumes "dispatch env i fd op st = Some st'" and "table_ok st" and "1 \<le> i" and "i \<le> AGENTS_QUEUE" and "fds st ! i \<noteq> None"
  shows "table_ok st' \<and> connected_agents st' \<le> connected_agents st \<and> (\<forall>j. 0 < j \<longrightarrow> j \<noteq> i \<longrightarrow> fds st' ! j = fds st ! j)"
proof (cases "op = COMM_SOCK_CLOSE_SESSION")
  case True
  then obtain st1 where st1: "with_peer fd (close_session fd) st = Some st1" "st' = drop_agent i st1"
    using assms(1) by (auto simp: dispatch_def COMM_SOCK_defs)
  then show ?thesis using with_peer_ok [OF st1(1)] drop_agent_ok [of st1 i] assms by auto
next
  case False
  then obtain f where "with_peer fd f st = Some st'" using assms(1) by (auto simp: dispatch_def split: if_splits)
  then show ?thesis using with_peer_ok [of fd f st st'] assms by auto
qed

definition slots_ok :: "revent list \<Rightarrow> nat list \<Rightarrow> sock_server \<Rightarrow> bool" where
  "slots_ok revs is st \<longleftrightarrow>
     (\<forall>i \<in> set is. 1 \<le> i \<and> i \<le> AGENTS_QUEUE \<and> (broken (revs ! i) \<or> readable (revs ! i) \<longrightarrow> fds st ! i \<noteq> None))"

lemma slots_ok_next:
  assumes "slots_ok revs (i # is) st" and "i \<notin> set is" and "\<forall>j. 0 < j \<longrightarrow> j \<noteq> i \<longrightarrow> fds st' ! j = fds st ! j"
  shows "slots_ok revs is st'"
proof -
  have "fds st' ! j = fds st ! j" if "j \<in> set is" for j
    using assms that by (metis One_nat_def Suc_le_eq list.set_intros(2) slots_ok_def)
  then show ?thesis using assms(1) by (simp add: slots_ok_def)
qed

lemma serve_agents_ok:
  "serve_agents env revs is ret st = Some (b, st') \<Longrightarrow> table_ok st \<Longrightarrow> distinct is \<Longrightarrow> slots_ok revs is st \<Longrightarrow>
   table_ok st' \<and> connected_agents st' \<le> connected_agents st"
proof (induction "is" arbitrary: ret st)
  case (Cons i "is")
  have i: "1 \<le> i" "i \<le> AGENTS_QUEUE" and dist: "i \<notin> set is" "distinct is"
    using Cons.prems(3,4) by (auto simp: slots_ok_def)
  have step: "table_ok st' \<and> connected_agents st' \<le> connected_agents st"
    if "serve_agents env revs is ret' st1 = Some (b, st')" "table_ok st1" "connected_agents st1 \<le> connected_agents st"
      "\<forall>j. 0 < j \<longrightarrow> j \<noteq> i \<longrightarrow> fds st1 ! j = fds st ! j" for ret' st1
    using Cons.IH [OF that(1,2) dist(2) slots_ok_next [OF Cons.prems(4) dist(1) that(4)]] that(3) by simp
  consider (idle) "connected_agents st = 0" | (bad) "connected_agents st \<noteq> 0" "broken (revs ! i)"
    | (read) "connected_agents st \<noteq> 0" "\<not> broken (revs ! i)" "readable (revs ! i)"
    | (quiet) "connected_agents st \<noteq> 0" "\<not> broken (revs ! i)" "\<not> readable (revs ! i)" by blast
  then show ?case
  proof cases
    case bad
    then have "fds st ! i \<noteq> None" using Cons.prems(4) by (simp add: slots_ok_def)
    then show ?thesis
      using drop_agent_ok [OF Cons.prems(2) i] bad Cons.prems(1) by (intro step [of ret "drop_agent i st"]) auto
  next
    case read
    then obtain fd where fd: "fds st ! i = Some fd" using Cons.prems(4) by (auto simp: slots_ok_def)
    obtain bs es where r: "recv 4 (rx (peers st fd)) = (bs, es)" by fastforce
    let ?st1 = "st\<lparr>peers := (peers st)(fd := (peers st fd)\<lparr>rx := es\<rparr>)\<rparr>"
    have st1: "table_ok ?st1" "fds ?st1 = fds st" "connected_agents ?st1 = connected_agents st"
      using Cons.prems(2) by (simp_all add: table_ok_def)
    show ?thesis
    proof (cases "bs = []")
      case True
      then show ?thesis using Cons.prems(1) read fd r st1 by (intro step [of "ret - 1" ?st1]) auto
    next
      case False
      then obtain st2 where st2: "dispatch env i fd (word_of_nat (le_value bs)) ?st1 = Some st2"
        and rest: "(if ret - 1 = 0 then Some (True, st2) else serve_agents env revs is (ret - 1) st2) = Some (b, st')"
        using Cons.prems(1) read fd r by (auto simp: Option.bind_eq_Some_conv split: if_splits)
      have "table_ok st2 \<and> connected_agents st2 \<le> connected_agents st \<and> (\<forall>j. 0 < j \<longrightarrow> j \<noteq> i \<longrightarrow> fds st2 ! j = fds st ! j)"
        using dispatch_ok [OF st2 st1(1) i] fd by simp
      then show ?thesis using rest step [of "ret - 1" st2] by (auto split: if_splits)
    qed
  next
    case quiet
    then show ?thesis using Cons.prems(1,2) by (intro step [of ret st]) auto
  qed (use Cons.prems in simp)
qed simp

lemma free_slot_ok:
  assumes "length fs = AGENTS_QUEUE + 1" and "busy fs < AGENTS_QUEUE"
  shows "0 < free_slot fs \<and> free_slot fs < length fs \<and> fs ! free_slot fs = None"
proof (cases "find (\<lambda>i. fs ! i = None) [1..<AGENTS_QUEUE + 1]")
  case None
  then have all: "\<forall>i. 1 \<le> i \<and> i \<le> AGENTS_QUEUE \<longrightarrow> fs ! i \<noteq> None" by (auto simp: find_None_iff)
  have "f \<noteq> None" if f: "f \<in> set (tl fs)" for f
  proof -
    obtain k where "k < length (tl fs)" "f = tl fs ! k" using f by (metis in_set_conv_nth)
    then show ?thesis using all [rule_format, of "Suc k"] assms(1) by (simp add: nth_tl)
  qed
  then have "filter (\<lambda>f. f \<noteq> None) (tl fs) = tl fs" by (simp add: filter_id_conv)
  then show ?thesis using assms by (simp add: busy_def)
next
  case (Some i)
  then show ?thesis using find_entry [OF Some] assms(1) by (auto simp: free_slot_def)
qed

lemma accept_agents_ok:
  "table_ok st \<Longrightarrow> connected_agents st < AGENTS_QUEUE \<Longrightarrow>
   \<exists>b st'. accept_agents again ss st = Some (b, st') \<and> (b \<longrightarrow> table_ok st')"
proof (induction ss arbitrary: st)
  case Nil
  then show ?case by (cases again) auto
next
  case (Cons s ss)
  let ?i = "free_slot (fds st)"
  let ?st1 = "st\<lparr>fds := (fds st)[?i := Some s], connected_agents := connected_agents st + 1\<rparr>"
  have f: "0 < ?i" "?i < length (fds st)" "fds st ! ?i = None"
    using free_slot_ok [of "fds st"] Cons.prems by (auto simp: table_ok_def)
  then have b: "busy (fds ?st1) = connected_agents ?st1"
    using busy_update [of ?i "fds st" "Some s"] Cons.prems(1) by (simp add: table_ok_def)
  have zero: "fds ?st1 ! 0 \<noteq> None" using Cons.prems f(1) by (auto simp: table_ok_def)
  show ?case
  proof (cases "connected_agents ?st1 = AGENTS_QUEUE")
    case True
    then show ?thesis using f b Cons.prems(1) by (auto simp: table_ok_def Let_def)
  next
    case False
    then have "table_ok ?st1" "connected_agents ?st1 < AGENTS_QUEUE"
      using b zero Cons.prems by (auto simp: table_ok_def)
    then show ?thesis using Cons.IH [of ?st1] f False by (simp add: Let_def)
  qed
qed

section \<open>Properties\<close>

text \<open>
  C37: \<^verbatim>\<open>recv_msg\<close> collects a message however the socket cuts it up. If the peer's bytes arrive in any non-empty chunks with
  any number of interruptions between them, and at least \<open>n\<close> of them come, the loop ends and returns exactly the first \<open>n\<close>
  bytes; the rest is still there for the next call.
\<close>

theorem recv_msg_collects:
  assumes "arrives bs (rx p)" and "n \<le> length bs"
  shows "\<exists>p'. recv_msg n p = (Some (take n bs), p') \<and> arrives (drop n bs) (rx p') \<and> tx p' = tx p"
  using recv_loop_arrives [OF assms, of "[]"] by (auto simp: recv_msg_def)

theorem recv_msg_collects_witness:
  "\<exists>p'. recv_msg 4 \<lparr>rx = [Data ''ab'', RxError EINTR, Data ''cdef''], tx = []\<rparr> = (Some ''abcd'', p') \<and> arrives ''ef'' (rx p')"
proof -
  have "arrives (''ab'' @ ''cdef'' @ []) [Data ''ab'', RxError EINTR, Data ''cdef'']"
    by (intro arrives.intros) simp_all
  then show ?thesis
    using recv_msg_collects [of "''abcdef''" "\<lparr>rx = [Data ''ab'', RxError EINTR, Data ''cdef''], tx = []\<rparr>" 4] by auto
qed

lemma comm_round_keeps_table:
  assumes "table_ok st" and "polls_ok revs st"
  shows "(\<forall>b st'. comm_round env revs again ss st = Some (b, st') \<longrightarrow> (if b then table_ok st' else listen_sock st' = None))
    \<and> (comm_round env revs again ss st = None \<longrightarrow>
         serve_agents env revs [1..<AGENTS_QUEUE + 1] (length (filter (\<lambda>r. broken r \<or> readable r) revs)) st = None)"
proof (cases "serve_agents env revs [1..<AGENTS_QUEUE + 1] (length (filter (\<lambda>r. broken r \<or> readable r) revs)) st")
  case None
  then show ?thesis by (simp add: comm_round_def)
next
  case (Some x)
  then obtain served st1 where s:
    "serve_agents env revs [1..<AGENTS_QUEUE + 1] (length (filter (\<lambda>r. broken r \<or> readable r) revs)) st = Some (served, st1)"
    by (cases x) auto
  have "slots_ok revs [1..<AGENTS_QUEUE + 1] st" using assms(2) unfolding slots_ok_def polls_ok_def by fastforce
  then have st1: "table_ok st1" "connected_agents st1 \<le> connected_agents st"
    using serve_agents_ok [OF s assms(1)] by auto
  have gone: "accept_agents again ss st2 = Some (False, st') \<Longrightarrow> listen_sock st' = None" for st2 st'
    by (induction ss arbitrary: st2) (auto simp: comm_destroy_def Let_def split: if_splits)
  have "connected_agents st1 < AGENTS_QUEUE" if "readable (revs ! 0)"
  proof -
    have "fds st ! 0 \<noteq> None" using assms(2) that by (auto simp: polls_ok_def)
    moreover have "busy (fds st) \<le> AGENTS_QUEUE"
      using assms(1) length_filter_le [of "\<lambda>f. f \<noteq> None" "tl (fds st)"] by (simp add: table_ok_def busy_def)
    ultimately show ?thesis using assms(1) st1(2) by (auto simp: table_ok_def)
  qed
  then show ?thesis
    using s st1(1) accept_agents_ok [OF st1(1), of again ss] gone [of st1]
    by (auto simp: comm_round_def comm_destroy_def split: if_splits)
qed

definition demo_sock :: "(nat \<Rightarrow> peer) \<Rightarrow> sock_server" where
  "demo_sock ps = \<lparr>listen_sock = Some 3, fds = [Some 3, Some 5] @ replicate 9 None, connected_agents = 1, peers = ps, alist = no_agents\<rparr>"

definition demo_sock_env :: "unit sock_env" where
  "demo_sock_env = \<lparr>nc_dummy = demo_dummy, default_cpblts = [], apply_rpc2all = (\<lambda>s r. RpcNull), reply_dump = (\<lambda>r. [])\<rparr>"

text \<open>
  The states of a server: it has started to listen, and then \<^verbatim>\<open>comm_loop\<close> has been called any number of times, with whatever
  \<^verbatim>\<open>poll\<close> reports, connections are waiting and agents send.
\<close>

inductive sock_reach :: "'a sock_env \<Rightarrow> sock_server \<Rightarrow> bool" for env where
  sock_start: "listen_sock st = None \<Longrightarrow> connected_agents st = 0 \<Longrightarrow> comm_init os crashed st = (True, st') \<Longrightarrow> sock_reach env st'"
| sock_loop: "sock_reach env st \<Longrightarrow> (\<And>revs. PollReady revs \<in> set evs \<Longrightarrow> polls_ok revs st) \<Longrightarrow>
     comm_loop env evs again ss st = Some (b, st') \<Longrightarrow> sock_reach env st'"

lemma comm_loop_keeps_table:
  assumes "table_ok st" and "\<And>revs. PollReady revs \<in> set evs \<Longrightarrow> polls_ok revs st"
    and "comm_loop env evs again ss st = Some (b, st')"
  shows "listen_sock st' = None \<or> table_ok st'"
  using assms
proof (induction evs)
  case (Cons ev evs)
  then have up: "listen_sock st \<noteq> None" by (simp add: table_ok_def)
  show ?case
  proof (cases ev)
    case (PollReady revs)
    then have "comm_round env revs again ss st = Some (b, st')" using Cons.prems(3) up by simp
    then show ?thesis
      using comm_round_keeps_table [OF assms(1), of revs env again ss] Cons.prems(2) PollReady by (metis list.set_intros(1))
  qed (use Cons up in \<open>auto simp: comm_destroy_def\<close>)
qed (auto simp: table_ok_def)

lemma sock_reach_table:
  assumes "sock_reach env st"
  shows "listen_sock st = None \<or> table_ok st"
  using assms
proof (induction rule: sock_reach.induct)
  case (sock_start st os crashed st')
  then show ?case using comm_init_ok by blast
next
  case (sock_loop st evs again ss b st')
  have down: "st' = st" if "listen_sock st = None" using that sock_loop.hyps(3) by (cases evs) simp_all
  have up: "listen_sock st' = None \<or> table_ok st'" if "table_ok st"
    using that sock_loop.hyps(2) sock_loop.hyps(3) by (rule comm_loop_keeps_table)
  show ?case using sock_loop.IH down up by (elim disjE) simp_all
qed

text \<open>
  C9: the table of descriptors of the socket server stays in order. In every state the server can reach, while it listens, the number
  of connected agents is the number of used slots and at most the size of the table, and polling the listening socket is
  switched off exactly while the table is full. Accepting connections, however many are waiting, never goes wrong: a round
  can do so only while it serves the agents, there is always a free slot inside the table.
\<close>

theorem socket_table_in_order:
  assumes "sock_reach env st" and "listen_sock st \<noteq> None" and "polls_ok revs st"
  shows "length (fds st) = AGENTS_QUEUE + 1 \<and> connected_agents st = busy (fds st) \<and> connected_agents st \<le> AGENTS_QUEUE
    \<and> (fds st ! 0 = None \<longleftrightarrow> connected_agents st = AGENTS_QUEUE)
    \<and> (comm_round env revs again ss st = None \<longrightarrow>
         serve_agents env revs [1..<AGENTS_QUEUE + 1] (length (filter (\<lambda>r. broken r \<or> readable r) revs)) st = None)"
proof -
  have ok: "table_ok st" using sock_reach_table [OF assms(1)] assms(2) by blast
  then have "busy (fds st) \<le> AGENTS_QUEUE"
    using length_filter_le [of "\<lambda>f. f \<noteq> None" "tl (fds st)"] by (simp add: table_ok_def busy_def)
  then show ?thesis using ok comm_round_keeps_table [OF ok assms(3)] by (simp add: table_ok_def)
qed

definition demo_listen :: sock_server where
  "demo_listen = \<lparr>listen_sock = Some 3, fds = Some 3 # replicate AGENTS_QUEUE None, connected_agents = 0, peers = (\<lambda>_. \<lparr>rx = [], tx = []\<rparr>),
     alist = no_agents\<rparr>"

lemma demo_listen_reached: "sock_reach env demo_listen"
  by (rule sock_start [where st = "demo_listen\<lparr>listen_sock := None, fds := []\<rparr>" and crashed = True
        and os = "\<lparr>path_exists = True, unlink_ok = True, new_socket = Some 3, bind_ok = True, listen_ok = True\<rparr>"])
    (simp_all add: demo_listen_def comm_init_def)

theorem socket_table_in_order_witness:
  "\<exists>st. comm_loop demo_sock_env [PollReady (\<lparr>broken = False, readable = True\<rparr> # replicate 10 \<lparr>broken = False, readable = False\<rparr>)] True
          [6, 7] demo_listen = Some (True, st)
     \<and> connected_agents st = 2 \<and> busy (fds st) = 2 \<and> fds st ! 0 \<noteq> None"
proof -
  let ?revs = "\<lparr>broken = False, readable = True\<rparr> # replicate 10 \<lparr>broken = False, readable = False\<rparr>"
  let ?quiet = "replicate 11 \<lparr>broken = False, readable = False\<rparr>"
  have "map_option (\<lambda>(b, st). (b, connected_agents st, listen_sock st)) (comm_loop demo_sock_env [PollReady ?revs] True [6, 7] demo_listen)
      = Some (True, 2, Some 3)"
    by code_simp
  then obtain st where st: "comm_loop demo_sock_env [PollReady ?revs] True [6, 7] demo_listen = Some (True, st)"
    "connected_agents st = 2" "listen_sock st = Some 3" by auto
  have "polls_ok ?revs demo_listen"
    by (auto simp: polls_ok_def demo_listen_def AGENTS_QUEUE_def nth_Cons split: nat.split)
  then have "sock_reach demo_sock_env st" by (intro sock_loop [OF demo_listen_reached _ st(1)]) simp
  moreover have "polls_ok ?quiet st" by (simp add: polls_ok_def AGENTS_QUEUE_def less_Suc_eq_le)
  ultimately show ?thesis
    using socket_table_in_order [of demo_sock_env st ?quiet] st by (simp add: AGENTS_QUEUE_def)
qed

lemma op_and_body:
  assumes "fds st ! i = Some fd" and "connected_agents st \<noteq> 0" and "\<not> broken (revs ! i)" and "readable (revs ! i)"
    and "peers st fd = p\<lparr>rx := inbox (int_bytes op @ body) es\<rparr>"
  shows "serve_agents env revs [i] 1 st
    = map_option (Pair True) (dispatch env i fd op (st\<lparr>peers := (peers st)(fd := p\<lparr>rx := inbox body es\<rparr>)\<rparr>))"
proof -
  have "int_bytes op \<noteq> []" using int_bytes_value(2) [of op] by (metis list.size(3) zero_neq_numeral)
  then have r: "recv 4 (rx (peers st fd)) = (int_bytes op, inbox body es)" by (simp add: assms(5) inbox_def)
  show ?thesis
    using \<open>int_bytes op \<noteq> []\<close>
    by (cases "dispatch env i fd op (st\<lparr>peers := (peers st)(fd := p\<lparr>rx := inbox body es\<rparr>)\<rparr>)")
      (simp_all add: assms(1-4) r Let_def, simp_all add: assms(5))
qed

text \<open>
  C8: a session goes over the socket unchanged. The request \<^verbatim>\<open>comm_session_info_send\<close> writes is read by the server's loop
  as one message: the registry gets one new entry at its end, with the NETCONF session id, the user and the capabilities
  that were sent, the low 16 bits of the process id, and the socket as the id of the agent. From the answer
  \<^verbatim>\<open>comm_session_info_send\<close> reports success.
\<close>

theorem session_goes_over_socket:
  assumes "represents (alist st) xs" and "dummy_ok (nc_dummy env)"
    and "sendable sid" and "sendable user" and "\<forall>c \<in> set cs. sendable c" and "length cs < 2 ^ 31"
    and "fds st ! i = Some fd" and "connected_agents st \<noteq> 0" and "\<not> broken (revs ! i)" and "readable (revs ! i)"
    and "peers st fd = p\<lparr>rx := inbox (session_request sid pid user cs) es\<rparr>"
  shows "\<exists>st' a answer. serve_agents env revs [i] 1 st = Some (True, st')
    \<and> represents (alist st') (xs @ [(a, sock_id fd, pid mod 2 ^ 16, \<lparr>s_id = sid, s_user = user, s_cpblts = cs\<rparr>)])
    \<and> tx (peers st' fd) = tx p @ answer
    \<and> map_option fst (comm_session_info_send pid user sid cs (q\<lparr>rx := inbox answer es'\<rparr>)) = Some True"
proof -
  let ?body = "session_body sid pid user cs"
  let ?s = "\<lparr>s_id = sid, s_user = user, s_cpblts = cs\<rparr>"
  obtain l a where l: "append_agent (sock_id fd) (pid mod 2 ^ 16) (Some ?s) (alist st) = Some l"
    "represents l (xs @ [(a, sock_id fd, pid mod 2 ^ 16, ?s)])"
    using append_agent_represents [OF assms(1)] by blast
  have set: "set_session env fd (p\<lparr>rx := inbox ?body es\<rparr>, alist st)
      = Some (sends (int_bytes COMM_SOCK_SET_SESSION) (p\<lparr>rx := inbox [] es\<rparr>), l)"
    using set_session_inbox [OF assms(3-6,2), where b = "[]"] l(1) by simp
  have "serve_agents env revs [i] 1 st = map_option (Pair True)
      (dispatch env i fd COMM_SOCK_SET_SESSION (st\<lparr>peers := (peers st)(fd := p\<lparr>rx := inbox ?body es\<rparr>)\<rparr>))"
    using assms(11) by (intro op_and_body [OF assms(7-10)]) (simp add: session_request_body)
  then have "\<exists>st'. serve_agents env revs [i] 1 st = Some (True, st') \<and> alist st' = l
      \<and> tx (peers st' fd) = tx p @ int_bytes COMM_SOCK_SET_SESSION"
    using set by (simp add: dispatch_def with_peer_def COMM_SOCK_GET_CPBLTS_def COMM_SOCK_SET_SESSION_def sends_def)
  moreover have "sends bs (q\<lparr>rx := es''\<rparr>) = (sends bs q)\<lparr>rx := es''\<rparr>" for bs es'' by (simp add: sends_def)
  then have "map_option fst (comm_session_info_send pid user sid cs (q\<lparr>rx := inbox (int_bytes COMM_SOCK_SET_SESSION) es'\<rparr>)) = Some True"
    using recv_int_or_inbox [where b = "[]"] by (simp add: comm_session_info_send_def)
  ultimately show ?thesis using l(2) by blast
qed

theorem session_goes_over_socket_witness:
  "\<exists>st' a. serve_agents demo_sock_env (replicate 11 \<lparr>broken = False, readable = True\<rparr>) [1] 1
        (demo_sock (\<lambda>_. \<lparr>rx = inbox (session_request ''17'' 70000 ''admin'' [''base'']) [], tx = []\<rparr>)) = Some (True, st')
    \<and> represents (alist st') [(a, sock_id 5, 4464, \<lparr>s_id = ''17'', s_user = ''admin'', s_cpblts = [''base'']\<rparr>)]"
proof -
  let ?p = "\<lparr>rx = [], tx = []\<rparr>" and ?in = "inbox (session_request ''17'' 70000 ''admin'' [''base'']) []"
  let ?st = "demo_sock (\<lambda>_. \<lparr>rx = ?in, tx = []\<rparr>)" and ?revs = "replicate 11 \<lparr>broken = False, readable = True\<rparr>"
  have "represents (alist ?st) []" using no_agents_represent by (simp add: demo_sock_def)
  moreover have "dummy_ok (nc_dummy demo_sock_env)" by (simp add: dummy_ok_def demo_sock_env_def demo_dummy_def)
  moreover have "peers ?st 5 = ?p\<lparr>rx := ?in\<rparr>" by (simp add: demo_sock_def)
  moreover have "fds ?st ! 1 = Some 5" "connected_agents ?st \<noteq> 0" by (simp_all add: demo_sock_def)
  moreover have "\<not> broken (?revs ! 1)" "readable (?revs ! 1)" by simp_all
  ultimately show ?thesis
    using session_goes_over_socket [where st = ?st and xs = "[]" and env = demo_sock_env and sid = "''17''" and user = "''admin''"
        and cs = "[''base'']" and i = 1 and fd = 5 and revs = ?revs and p = ?p and pid = 70000 and es = "[]" and q = ?p and es' = "[]"]
    by (fastforce simp: sendable_def)
qed

lemma kill_decided:
  assumes "represents l xs" and "sendable victim" and "q' = q\<lparr>rx := inbox answer es'\<rparr>"
    and "kill_session fd (p\<lparr>rx := inbox (str_bytes victim) es\<rparr>, l) = Some (p', l')" and "tx p' = tx p @ answer"
  shows "case kill_decision (\<lambda>s. s_id s = victim) (sock_id fd) victim xs of
      Inl m \<Rightarrow> l' = l \<and> map_option fst (comm_kill_session victim q') = Some (ReplyError (err_text NC_ERR_OP_FAILED m))
    | Inr (a, i, pid, s) \<Rightarrow> (a, i, pid, s) \<in> set xs \<and> s_id s = victim \<and> represents l' (without a xs)
        \<and> signals l' = signals l @ [pid] \<and> map_option fst (comm_kill_session victim q') = Some ReplyOk"
proof -
  have upd: "sends bs (q\<lparr>rx := es''\<rparr>) = (sends bs q)\<lparr>rx := es''\<rparr>" for bs es'' by (simp add: sends_def)
  note kill = kill_session_inbox [OF assms(1,2), where fd = fd and p = p and b = "[]" and es = es]
  show ?thesis
  proof (cases "kill_decision (\<lambda>s. s_id s = victim) (sock_id fd) victim xs")
    case (Inl m)
    have m: "sendable m" using Inl by (auto simp: kill_decision_def sendable_def split: option.splits if_splits)
    then have n: "NUL \<notin> set m" by (simp add: sendable_def)
    have "p' = fst (refuse m (p\<lparr>rx := inbox [] es\<rparr>, l))" "l' = l" using kill Inl assms(4) by (auto simp: refuse_def)
    then have a: "answer = int_bytes COMM_SOCK_RESULT_ERROR @ str_bytes m"
      using assms(5) by (simp add: refuse_def sends_def)
    have "map_option fst (comm_kill_session victim q') = Some (ReplyError (err_text NC_ERR_OP_FAILED m))"
      unfolding assms(3) a comm_kill_session_def upd
      using recv_message [OF m, where b = "[]"] n by (simp del: of_nat_Suc of_nat_add)
    then show ?thesis using Inl \<open>l' = l\<close> by simp
  next
    case (Inr e)
    obtain a i pid s where e: "e = (a, i, pid, s)" by (cases e)
    then have k: "p' = sends (int_bytes COMM_SOCK_KILL_SESSION) (p\<lparr>rx := inbox [] es\<rparr>)" "represents l' (without a xs)"
      "signals l' = signals l @ [pid]"
      using kill Inr assms(4) by auto
    then have ans: "answer = int_bytes COMM_SOCK_KILL_SESSION" using assms(5) by (simp add: sends_def)
    have "map_option fst (comm_kill_session victim q') = Some ReplyOk"
      unfolding assms(3) ans comm_kill_session_def upd
      using recv_int_or_inbox [where b = "[]"] by (simp add: COMM_SOCK_defs)
    then show ?thesis using Inr e k kill_decision_Inr [of _ _ _ xs a i pid s] by simp
  qed
qed

lemma kill_session_answers:
  assumes "represents l xs" and "sendable victim"
  shows "\<exists>p' l' answer. kill_session fd (p\<lparr>rx := inbox (str_bytes victim) es\<rparr>, l) = Some (p', l') \<and> tx p' = tx p @ answer"
  using kill_session_inbox [OF assms, where fd = fd and p = p and b = "[]" and es = es]
  by (cases "kill_decision (\<lambda>s. s_id s = victim) (sock_id fd) victim xs") (auto simp: refuse_def sends_def)

text \<open>
  C15: a request to kill a session over the socket does what it says. The server ends the first session with the id that
  was sent and signals its process, unless there is none, or the sender is unknown or asks for its own session; then
  nothing changes. The agent reports success exactly in the first case and the reason in the others.
\<close>

theorem kill_request_decided:
  assumes "represents l xs" and "sendable victim"
  shows "\<exists>p' l' answer. kill_session fd (p\<lparr>rx := inbox (str_bytes victim) es\<rparr>, l) = Some (p', l') \<and> tx p' = tx p @ answer
    \<and> (let reply = map_option fst (comm_kill_session victim (q\<lparr>rx := inbox answer es'\<rparr>))
       in case kill_decision (\<lambda>s. s_id s = victim) (sock_id fd) victim xs of
            Inl m \<Rightarrow> l' = l \<and> reply = Some (ReplyError (err_text NC_ERR_OP_FAILED m))
          | Inr (a, i, pid, s) \<Rightarrow> (a, i, pid, s) \<in> set xs \<and> s_id s = victim \<and> represents l' (without a xs)
              \<and> signals l' = signals l @ [pid] \<and> reply = Some ReplyOk)"
  using kill_session_answers [OF assms, where fd = fd and p = p and es = es] kill_decided [OF assms refl, where fd = fd and p = p and es = es]
  unfolding Let_def by blast

theorem kill_request_decided_witness:
  "\<exists>l l' p' a pid. srv_get_agent_by_ncsid ''2'' l = Some (Some a)
     \<and> kill_session 5 (\<lparr>rx = inbox (str_bytes ''2'') [], tx = []\<rparr>, l) = Some (p', l')
     \<and> srv_get_agent_by_ncsid ''2'' l' = Some None \<and> signals l' = signals l @ [4711]"
proof -
  let ?s = "\<lambda>n. \<lparr>s_id = n, s_user = ''admin'', s_cpblts = []\<rparr>" and ?p = "\<lparr>rx = [], tx = []\<rparr>"
  obtain l1 a1 where l1: "represents l1 [(a1, ''5'', 4710, ?s ''1'')]"
    using append_agent_represents [OF no_agents_represent, of "''5''" 4710 "?s ''1''"] by auto
  obtain l2 a2 where l2: "represents l2 [(a1, ''5'', 4710, ?s ''1''), (a2, ''6'', 4711, ?s ''2'')]"
    using append_agent_represents [OF l1, of "''6''" 4711 "?s ''2''"] by auto
  have "sock_id 5 = ''5''" by code_simp
  then have d: "kill_decision (\<lambda>s. s_id s = ''2'') (sock_id 5) ''2'' [(a1, ''5'', 4710, ?s ''1''), (a2, ''6'', 4711, ?s ''2'')]
      = Inr (a2, ''6'', 4711, ?s ''2'')"
    by (simp add: kill_decision_def)
  have ne: "a1 \<noteq> a2" using l2 by (simp add: represents_def)
  obtain p' l' where k: "kill_session 5 (?p\<lparr>rx := inbox (str_bytes ''2'') []\<rparr>, l2) = Some (p', l')"
    "represents l' [(a1, ''5'', 4710, ?s ''1'')]" "signals l' = signals l2 @ [4711]"
    using kill_request_decided [OF l2, where victim = "''2''" and fd = 5 and p = ?p and es = "[]" and q = ?p and es' = "[]"] d ne
    by (auto simp: sendable_def without_def)
  then show ?thesis using lookups_represent(1) [OF l2, of "''2''"] lookups_represent(1) [OF k(2), of "''2''"] by auto
qed

end
