(* ===== verification/Comm_Dbus.thy ===== *)
theory Comm_Dbus
  imports Agents
begin

text \<open>
  The transport over D-Bus (\<^verbatim>\<open>server_comm_dbus.c\<close>, \<^verbatim>\<open>agent_comm_dbus.c\<close>). A message is its type, interface, member, sender
  and arguments; a reply is a method return with arguments or an error with a name and a text. libdbus delivers them: the
  server gets a list of messages and collects the replies it sends, the agent gets the result of a blocking call from the
  parameter \<open>call\<close>. Appending an argument and sending do not fail, which libdbus does only when memory runs out. The number of
  capabilities is an \<^verbatim>\<open>int\<close> of which libdbus takes and sets 16 bits, on a little endian machine the low ones.

  \<open>None\<close> is a call that goes wrong.
\<close>

section \<open>Messages\<close>

datatype dbus_arg = DString string | DUint16 "16 word" | DBool bool

record dbus_msg =
  m_call :: bool
  m_if :: string
  m_member :: string
  m_sender :: string
  m_args :: "dbus_arg list"

datatype dbus_reply = DReturn "dbus_arg list" | DError string string

definition DBUS_ERROR_FAILED :: string where
  "DBUS_ERROR_FAILED = ''org.freedesktop.DBus.Error.Failed''"

definition DBUS_ERROR_UNKNOWN_METHOD :: string where
  "DBUS_ERROR_UNKNOWN_METHOD = ''org.freedesktop.DBus.Error.UnknownMethod''"

definition DBUS_STDIF_PEER :: string where "DBUS_STDIF_PEER = ''org.freedesktop.DBus.Peer''"
definition DBUS_STDIF_INTR :: string where "DBUS_STDIF_INTR = ''org.freedesktop.DBus.Introspectable''"
definition DBUS_STDIF_PROP :: string where "DBUS_STDIF_PROP = ''org.freedesktop.DBus.Properties''"

definition OFC_DBUS_IF :: string where "OFC_DBUS_IF = ''org.opennetworking.ofc.server''"
definition OFC_DBUS_GETCAPABILITIES :: string where "OFC_DBUS_GETCAPABILITIES = ''GetCapabilities''"
definition OFC_DBUS_PROCESSOP :: string where "OFC_DBUS_PROCESSOP = ''GenericOperation''"
definition OFC_DBUS_KILLSESSION :: string where "OFC_DBUS_KILLSESSION = ''KillSession''"
definition OFC_DBUS_CLOSESESSION :: string where "OFC_DBUS_CLOSESESSION = ''CloseSession''"
definition OFC_DBUS_SETSESSION :: string where "OFC_DBUS_SETSESSION = ''SetSessionParams''"

lemmas dbus_names = DBUS_STDIF_PEER_def DBUS_STDIF_INTR_def DBUS_STDIF_PROP_def OFC_DBUS_IF_def OFC_DBUS_GETCAPABILITIES_def
  OFC_DBUS_PROCESSOP_def OFC_DBUS_KILLSESSION_def OFC_DBUS_CLOSESESSION_def OFC_DBUS_SETSESSION_def

section \<open>Server\<close>

record dbus_env =
  d_dummy :: "string \<Rightarrow> string \<Rightarrow> string list \<Rightarrow> nc_session option"
  d_cpblts :: "string list"
  d_apply :: "nc_session option \<Rightarrow> string \<Rightarrow> rpc_result"
  d_dump :: "nc_reply \<Rightarrow> string option"
  machine_id :: string

record dbus_server =
  registry :: agent_list
  replies :: "dbus_reply list"

definition dbus_error_reply :: "string option \<Rightarrow> string \<Rightarrow> dbus_server \<Rightarrow> dbus_server" where
  "dbus_error_reply error_name error_message st =
     st\<lparr>replies := replies st @ [DError (case error_name of None \<Rightarrow> DBUS_ERROR_FAILED | Some n \<Rightarrow> n) error_message]\<rparr>"

definition dbus_return :: "dbus_arg list \<Rightarrow> dbus_server \<Rightarrow> dbus_server" where
  "dbus_return as st = st\<lparr>replies := replies st @ [DReturn as]\<rparr>"

definition dbus_positive_reply :: "dbus_server \<Rightarrow> dbus_server" where
  "dbus_positive_reply = dbus_return [DBool True]"

definition dbus_failed :: "string \<Rightarrow> dbus_server \<Rightarrow> dbus_server" where
  "dbus_failed = dbus_error_reply (Some DBUS_ERROR_FAILED)"

text \<open>The standard interfaces; the first component of the result is the return value.\<close>

definition introspect :: string where
  "introspect =
     ''<!DOCTYPE node PUBLIC '' @ [CHR 0x22] @ ''-//freedesktop//DTD D-BUS Object Introspection 1.0//EN'' @ [CHR 0x22, CHR 0x0A, CHR 0x22]
     @ ''http://www.freedesktop.org/standards/dbus/1.0/introspect.dtd'' @ [CHR 0x22] @ ''>'' @ [CHR 0x0A] @ ''<node/>''"

definition unknown_method :: "dbus_server \<Rightarrow> int \<times> dbus_server" where
  "unknown_method st = (-1, dbus_error_reply (Some DBUS_ERROR_UNKNOWN_METHOD) ''Unknown method invoked'' st)"

definition dbus_handlestdif :: "dbus_env \<Rightarrow> dbus_msg \<Rightarrow> dbus_server \<Rightarrow> int \<times> dbus_server" where
  "dbus_handlestdif env msg st =
     (if \<not> m_call msg then (0, st)
      else if m_if msg = DBUS_STDIF_PEER then
        (if m_member msg = ''Ping'' then (1, dbus_positive_reply st)
         else if m_member msg = ''GetMachineId'' then (1, dbus_return [DString (machine_id env)] st)
         else unknown_method st)
      else if m_if msg = DBUS_STDIF_INTR then
        (if m_member msg = ''Introspect'' then (1, dbus_return [DString introspect] st)
         else unknown_method st)
      else if m_if msg = DBUS_STDIF_PROP then
        (-1, dbus_error_reply (Some DBUS_ERROR_UNKNOWN_METHOD) (''Not used interface '' @ DBUS_STDIF_PROP) st)
      else (0, st))"

definition dbus_get_capabilities :: "dbus_env \<Rightarrow> dbus_server \<Rightarrow> dbus_server" where
  "dbus_get_capabilities env st =
     dbus_return (DUint16 (word_of_nat (length (d_cpblts env))) # map DString (d_cpblts env)) st"

fun cpblt_args :: "nat \<Rightarrow> dbus_arg list \<Rightarrow> string list option" where
  "cpblt_args 0 as = Some []"
| "cpblt_args (Suc n) (DString c # as) = map_option ((#) c) (cpblt_args n as)"
| "cpblt_args (Suc n) as = None"

definition dbus_set_session :: "dbus_env \<Rightarrow> dbus_msg \<Rightarrow> dbus_server \<Rightarrow> dbus_server option" where
  "dbus_set_session env msg st =
     (case m_args msg of
        [] \<Rightarrow> Some (dbus_failed ''Invalid format (no attributes).'' st)
      | DString session_id # as1 \<Rightarrow>
          (case as1 of
             DUint16 pid # as2 \<Rightarrow>
               (case as2 of
                  DString username # as3 \<Rightarrow>
                    (case as3 of
                       DUint16 cpblts_count # as4 \<Rightarrow>
                         (case cpblt_args (unat cpblts_count) as4 of
                            None \<Rightarrow> Some (dbus_failed ''Capability expected as a string value'' st)
                          | Some cpblts \<Rightarrow>
                              do { l \<leftarrow> srv_agent_new (d_dummy env) session_id username cpblts (m_sender msg) pid (registry st);
                                   Some (dbus_positive_reply (st\<lparr>registry := l\<rparr>)) })
                     | _ \<Rightarrow> Some (dbus_failed ''CapabilitiesCount expected as a uint16 value'' st))
                | _ \<Rightarrow> Some (dbus_failed ''Username expected as a string value'' st))
           | _ \<Rightarrow> Some (dbus_failed ''PID expected as a uint16 value'' st))
      | _ \<Rightarrow> Some (dbus_failed ''SessionID expected as a string value'' st))"

definition dbus_close_session :: "dbus_msg \<Rightarrow> dbus_server \<Rightarrow> dbus_server option" where
  "dbus_close_session msg st =
     do { found \<leftarrow> srv_get_agent_by_agentid (m_sender msg) (registry st);
          case found of
            None \<Rightarrow> Some st
          | Some a \<Rightarrow> do { l \<leftarrow> srv_agent_stop a (registry st); Some (st\<lparr>registry := l\<rparr>) } }"

text \<open>The session of the sender is compared with the bus name of the sender, not with the session to kill.\<close>

definition dbus_kill_session :: "dbus_msg \<Rightarrow> dbus_server \<Rightarrow> dbus_server option" where
  "dbus_kill_session msg st =
     (case m_args msg of
        [] \<Rightarrow> Some (dbus_failed ''Invalid format (no attributes).'' st)
      | DString id2kill # as \<Rightarrow>
          do { found \<leftarrow> srv_get_agent_by_ncsid id2kill (registry st);
               case found of
                 None \<Rightarrow> Some (dbus_failed ''Session to kill does not exists'' st)
               | Some session \<Rightarrow>
                   do { sender \<leftarrow> srv_get_agent_by_agentid (m_sender msg) (registry st);
                        case sender of
                          None \<Rightarrow> Some (dbus_failed ''You are unknown client'' st)
                        | Some a \<Rightarrow>
                            do { own \<leftarrow> session_id_of a (registry st);
                                 if own = m_sender msg then Some (dbus_failed ''Killing own session requested'' st)
                                 else do { l \<leftarrow> srv_agent_kill session (registry st);
                                           Some (dbus_positive_reply (st\<lparr>registry := l\<rparr>)) } } } }
      | _ \<Rightarrow> Some (dbus_failed ''SessionID expected as a string value'' st))"

definition dbus_process_operation :: "dbus_env \<Rightarrow> dbus_msg \<Rightarrow> dbus_server \<Rightarrow> dbus_server option" where
  "dbus_process_operation env msg st =
     do { found \<leftarrow> srv_get_agent_by_agentid (m_sender msg) (registry st);
          case found of
            None \<Rightarrow> Some (dbus_failed ''Your session is no longer valid!'' st)
          | Some a \<Rightarrow>
              (case m_args msg of
                 [] \<Rightarrow> Some (dbus_failed ''Invalid format (no attributes).'' st)
               | DString rpcdump # as \<Rightarrow>
                   do { ag \<leftarrow> heap (registry st) a;
                        case d_dump env (srv_process_rpc (d_apply env) (a_session ag) rpcdump) of
                          None \<Rightarrow> Some (dbus_failed ''Invalid rpc-reply to send via D-Bus'' st)
                        | Some replydump \<Rightarrow> Some (dbus_return [DString replydump] st) }
               | _ \<Rightarrow> Some (dbus_failed ''RPC expected as a string value'' st)) }"

definition dbus_handle :: "dbus_env \<Rightarrow> dbus_msg \<Rightarrow> dbus_server \<Rightarrow> dbus_server option" where
  "dbus_handle env msg st =
     (case dbus_handlestdif env msg st of
        (ret, st1) \<Rightarrow>
          if ret \<noteq> 0 then Some st1
          else if \<not> m_call msg \<or> m_if msg \<noteq> OFC_DBUS_IF then Some st1
          else if m_member msg = OFC_DBUS_GETCAPABILITIES then Some (dbus_get_capabilities env st1)
          else if m_member msg = OFC_DBUS_SETSESSION then dbus_set_session env msg st1
          else if m_member msg = OFC_DBUS_CLOSESESSION then dbus_close_session msg st1
          else if m_member msg = OFC_DBUS_KILLSESSION then dbus_kill_session msg st1
          else if m_member msg = OFC_DBUS_PROCESSOP then dbus_process_operation env msg st1
          else Some st1)"

fun dbus_comm_loop :: "dbus_env \<Rightarrow> dbus_msg list \<Rightarrow> dbus_server \<Rightarrow> dbus_server option" where
  "dbus_comm_loop env [] st = Some st"
| "dbus_comm_loop env (msg # msgs) st = do { st1 \<leftarrow> dbus_handle env msg st; dbus_comm_loop env msgs st1 }"

text \<open>
  Starting: \<open>connection\<close> is what the system bus gives, \<open>name_error\<close> and \<open>primary\<close> are the outcome of the request for the name. A
  connection that does not own the name is closed, so there is one server on the bus.
\<close>

definition dbus_server_init :: "'c option \<Rightarrow> bool \<Rightarrow> bool \<Rightarrow> 'c option" where
  "dbus_server_init connection name_error primary =
     (case connection of
        None \<Rightarrow> None
      | Some c \<Rightarrow> (let ret = (if name_error then None else Some c) in if \<not> primary then None else ret))"

section \<open>Agent\<close>

text \<open>
  A blocking call gives the arguments of the answer or the message of an error, the latter also when no answer comes. A
  connection is usable when the server answers a ping; one that is not is closed again.
\<close>

datatype call_result = Answer "dbus_arg list" | CallError string

definition method_call :: "string \<Rightarrow> string \<Rightarrow> string \<Rightarrow> dbus_arg list \<Rightarrow> dbus_msg" where
  "method_call me interface member as = \<lparr>m_call = True, m_if = interface, m_member = member, m_sender = me, m_args = as\<rparr>"

definition dbus_agent_init :: "'c option \<Rightarrow> ('c \<Rightarrow> dbus_msg \<Rightarrow> call_result) \<Rightarrow> string \<Rightarrow> 'c option" where
  "dbus_agent_init connection call me =
     (case connection of
        None \<Rightarrow> None
      | Some c \<Rightarrow>
          (case call c (method_call me DBUS_STDIF_PEER ''Ping'' []) of
             CallError m \<Rightarrow> None
           | Answer as \<Rightarrow> Some c))"

text \<open>Capabilities: \<open>Some None\<close> is NULL. When an argument is no string the array returned holds freed strings.\<close>

definition dbus_get_srv_cpblts :: "(dbus_msg \<Rightarrow> call_result) \<Rightarrow> string \<Rightarrow> string list option option" where
  "dbus_get_srv_cpblts call me =
     (case call (method_call me OFC_DBUS_IF OFC_DBUS_GETCAPABILITIES []) of
        CallError m \<Rightarrow> Some None
      | Answer as \<Rightarrow>
          (case as of
             DUint16 cpblts_count # as1 \<Rightarrow>
               if cpblts_count = 0 then Some None
               else map_option Some (cpblt_args (unat cpblts_count) as1)
           | _ \<Rightarrow> Some None))"

definition session_args :: "string \<Rightarrow> int \<Rightarrow> string \<Rightarrow> string list \<Rightarrow> dbus_arg list" where
  "session_args sid pid username cpblts =
     [DString sid, DUint16 (word_of_int pid), DString username, DUint16 (word_of_nat (length cpblts))] @ map DString cpblts"

definition dbus_session_info_send :: "(dbus_msg \<Rightarrow> call_result) \<Rightarrow> string \<Rightarrow> int \<Rightarrow> string \<Rightarrow> string \<Rightarrow> string list \<Rightarrow> bool" where
  "dbus_session_info_send call me pid username sid cpblts =
     (case call (method_call me OFC_DBUS_IF OFC_DBUS_SETSESSION (session_args sid pid username cpblts)) of
        CallError m \<Rightarrow> False
      | Answer as \<Rightarrow> True)"

definition dbus_operation :: "(dbus_msg \<Rightarrow> call_result) \<Rightarrow> (string \<Rightarrow> nc_reply option) \<Rightarrow> string \<Rightarrow> string \<Rightarrow> nc_reply option" where
  "dbus_operation call nc_reply_build me rpc =
     (case call (method_call me OFC_DBUS_IF OFC_DBUS_PROCESSOP [DString rpc]) of
        CallError m \<Rightarrow> Some (ReplyError (err_text NC_ERR_OP_FAILED m))
      | Answer as \<Rightarrow> (case as of DString dump # _ \<Rightarrow> nc_reply_build dump | _ \<Rightarrow> Some (ReplyError op_failed)))"

definition dbus_close_msg :: "string \<Rightarrow> dbus_msg" where
  "dbus_close_msg me = method_call me OFC_DBUS_IF OFC_DBUS_CLOSESESSION []"

definition dbus_agent_kill :: "(dbus_msg \<Rightarrow> call_result) \<Rightarrow> string \<Rightarrow> string \<Rightarrow> nc_reply" where
  "dbus_agent_kill call me sid =
     (case call (method_call me OFC_DBUS_IF OFC_DBUS_KILLSESSION [DString sid]) of
        CallError m \<Rightarrow> ReplyError (err_text NC_ERR_OP_FAILED m)
      | Answer as \<Rightarrow> ReplyOk)"

text \<open>
  Closing the connection: on a handle that is not NULL and still connected, the request to close the session goes out first.
  \<open>out\<close> are the messages sent without waiting for an answer.
\<close>

definition dbus_agent_destroy :: "string \<Rightarrow> bool \<Rightarrow> dbus_msg list \<Rightarrow> dbus_msg list" where
  "dbus_agent_destroy me connected out = (if connected then out @ [dbus_close_msg me] else out)"

section \<open>Calls answered by the server\<close>

text \<open>
  The bus between the two: a call is handled by the server and the agent gets the reply that was sent. \<open>lost\<close> is the message of
  libdbus when there is none.
\<close>

definition call_server :: "dbus_env \<Rightarrow> string \<Rightarrow> dbus_server \<Rightarrow> dbus_msg \<Rightarrow> call_result" where
  "call_server env lost st msg =
     (case dbus_handle env msg (st\<lparr>replies := []\<rparr>) of
        None \<Rightarrow> CallError lost
      | Some st1 \<Rightarrow>
          (case replies st1 of
             [] \<Rightarrow> CallError lost
           | DReturn as # _ \<Rightarrow> Answer as
           | DError n m # _ \<Rightarrow> CallError m))"

lemma own_interface:
  "dbus_handlestdif env (method_call me OFC_DBUS_IF m as) st = (0, st)"
  by (simp add: dbus_handlestdif_def method_call_def dbus_names)

lemma dbus_handle_simps [simp]:
  "dbus_handle env (method_call me OFC_DBUS_IF OFC_DBUS_GETCAPABILITIES as) st = Some (dbus_get_capabilities env st)"
  "dbus_handle env (method_call me OFC_DBUS_IF OFC_DBUS_SETSESSION as) st =
     dbus_set_session env (method_call me OFC_DBUS_IF OFC_DBUS_SETSESSION as) st"
  "dbus_handle env (method_call me OFC_DBUS_IF OFC_DBUS_CLOSESESSION as) st =
     dbus_close_session (method_call me OFC_DBUS_IF OFC_DBUS_CLOSESESSION as) st"
  "dbus_handle env (method_call me OFC_DBUS_IF OFC_DBUS_KILLSESSION as) st =
     dbus_kill_session (method_call me OFC_DBUS_IF OFC_DBUS_KILLSESSION as) st"
  "dbus_handle env (method_call me OFC_DBUS_IF OFC_DBUS_PROCESSOP as) st =
     dbus_process_operation env (method_call me OFC_DBUS_IF OFC_DBUS_PROCESSOP as) st"
  unfolding dbus_handle_def own_interface by (simp_all add: method_call_def dbus_names)

lemma method_call_sel [simp]: "m_args (method_call me i m as) = as" "m_sender (method_call me i m as) = me"
  by (simp_all add: method_call_def)

lemma cpblt_args_map: "cpblt_args (length cs) (map DString cs) = Some cs"
  by (induction cs) simp_all

lemma small_uint16: "n < 2 ^ 16 \<Longrightarrow> unat (word_of_nat n :: 16 word) = n"
  unfolding unat_of_nat by simp

text \<open>Killing a session: the decision the handler takes, with the test it makes for the session of the sender.\<close>

lemma dbus_kill_decided:
  assumes "represents (registry st) xs"
  shows "case kill_decision (\<lambda>s. s_id s = m_sender msg) (m_sender msg) victim xs of
      Inl m \<Rightarrow> m_args msg = DString victim # as \<longrightarrow> dbus_kill_session msg st = Some (dbus_failed m st)
    | Inr (a, i, pid, s) \<Rightarrow> m_args msg = DString victim # as \<longrightarrow>
        (\<exists>l. dbus_kill_session msg st = Some (dbus_positive_reply (st\<lparr>registry := l\<rparr>))
             \<and> represents l (without a xs) \<and> signals l = signals (registry st) @ [pid])"
proof (cases "find (\<lambda>(a, i, p, s). victim = s_id s) xs")
  case None
  then show ?thesis using lookups_represent [OF assms] by (simp add: kill_decision_def dbus_kill_session_def)
next
  case (Some e)
  note e = this
  obtain a i pid s where es: "e = (a, i, pid, s)" by (cases e)
  show ?thesis
  proof (cases "find (\<lambda>(a, i, p, s). m_sender msg = i) xs")
    case None
    then show ?thesis using lookups_represent [OF assms] e by (simp add: kill_decision_def dbus_kill_session_def)
  next
    case (Some x)
    obtain a' i' pid' s' where x: "x = (a', i', pid', s')" by (cases x)
    have own: "session_id_of a' (registry st) = Some (s_id s')" using entry_session [OF assms] find_entry [OF Some] x by blast
    obtain l where "srv_agent_kill a (registry st) = Some l" "represents l (without a xs)" "signals l = signals (registry st) @ [pid]"
      using entry_removed(2) [OF assms] find_entry [OF e] es by blast
    then show ?thesis
      using lookups_represent [OF assms] e es Some x own by (auto simp: kill_decision_def dbus_kill_session_def)
  qed
qed

section \<open>Properties\<close>

text \<open>
  C38: a session goes over D-Bus unchanged. The server handles the call of \<^verbatim>\<open>comm_session_info_send\<close> by one new entry at the end of
  the registry, with the session id, user and capabilities that were sent, the low 16 bits of the process id and the bus
  name of the caller as the id of the agent, and the agent reports success.
\<close>

theorem session_goes_over_dbus:
  assumes "represents (registry st) xs" and "dummy_ok (d_dummy env)" and "length cs < 2 ^ 16"
  shows "\<exists>st' a. dbus_handle env (method_call me OFC_DBUS_IF OFC_DBUS_SETSESSION (session_args sid pid user cs)) st = Some st'
    \<and> represents (registry st') (xs @ [(a, me, pid mod 2 ^ 16, \<lparr>s_id = sid, s_user = user, s_cpblts = cs\<rparr>)])
    \<and> dbus_session_info_send (call_server env lost st) me pid user sid cs"
proof -
  let ?s = "\<lparr>s_id = sid, s_user = user, s_cpblts = cs\<rparr>"
  obtain l a where l: "append_agent me (pid mod 2 ^ 16) (Some ?s) (registry st) = Some l"
    "represents l (xs @ [(a, me, pid mod 2 ^ 16, ?s)])"
    using append_agent_represents [OF assms(1)] by blast
  have pid: "uint (word_of_int pid :: 16 word) = pid mod 2 ^ 16" by (simp add: uint_word_of_int)
  have "dbus_set_session env (method_call me OFC_DBUS_IF OFC_DBUS_SETSESSION (session_args sid pid user cs)) st'
      = Some (dbus_positive_reply (st'\<lparr>registry := l\<rparr>))" if "registry st' = registry st" for st'
    using l(1) that small_uint16 [OF assms(3)] cpblt_args_map [of cs] dummy_okD [OF assms(2), of sid user cs] pid
    by (simp add: dbus_set_session_def session_args_def srv_agent_new_def)
  then show ?thesis
    using l(2) by (simp add: dbus_session_info_send_def call_server_def dbus_positive_reply_def dbus_return_def) blast
qed

definition demo_dbus_env :: dbus_env where
  "demo_dbus_env = \<lparr>d_dummy = demo_dummy, d_cpblts = [''base''], d_apply = (\<lambda>s r. RpcNull), d_dump = (\<lambda>r. Some []), machine_id = []\<rparr>"

theorem session_goes_over_dbus_witness:
  "\<exists>st' a. dbus_handle demo_dbus_env (method_call '':1.7'' OFC_DBUS_IF OFC_DBUS_SETSESSION (session_args ''17'' 70000 ''admin'' [''base'']))
      \<lparr>registry = no_agents, replies = []\<rparr> = Some st'
    \<and> represents (registry st') [(a, '':1.7'', 4464, \<lparr>s_id = ''17'', s_user = ''admin'', s_cpblts = [''base'']\<rparr>)]"
  using session_goes_over_dbus [of "\<lparr>registry = no_agents, replies = []\<rparr>" "[]" demo_dbus_env "[''base'']" "'':1.7''" "''17''" 70000 "''admin''"]
    no_agents_represent
  by (simp add: demo_dbus_env_def demo_dummy_def dummy_ok_def) blast

text \<open>
  C39: over D-Bus an agent can kill its own session. The handler compares the session of the sender with the bus name of the
  sender instead of the session to kill, so unless a session id happens to be a bus name, the request of an agent for its own
  session is not refused: the entry is removed, the process signalled and the agent told that all is well.
\<close>

theorem dbus_own_session_killed:
  assumes "represents (registry st) xs"
    and "find (\<lambda>(a, i, p, s). me = i) xs = Some (a, me, pid, s)" and "find (\<lambda>(a, i, p, s'). s_id s = s_id s') xs = Some (a, me, pid, s)"
    and "s_id s \<noteq> me"
  shows "\<exists>st'. dbus_handle env (method_call me OFC_DBUS_IF OFC_DBUS_KILLSESSION [DString (s_id s)]) st = Some st'
    \<and> represents (registry st') (without a xs) \<and> signals (registry st') = signals (registry st) @ [pid]
    \<and> dbus_agent_kill (call_server env lost st) me (s_id s) = ReplyOk"
proof -
  let ?msg = "method_call me OFC_DBUS_IF OFC_DBUS_KILLSESSION [DString (s_id s)]"
  have d: "kill_decision (\<lambda>s'. s_id s' = me) me (s_id s) xs = Inr (a, me, pid, s)"
    using assms(2-4) by (simp add: kill_decision_def)
  have kill: "\<exists>l. dbus_kill_session ?msg st' = Some (dbus_positive_reply (st'\<lparr>registry := l\<rparr>))
      \<and> represents l (without a xs) \<and> signals l = signals (registry st') @ [pid]" if "registry st' = registry st" for st'
    using dbus_kill_decided [of st' xs ?msg "s_id s" "[]"] assms(1) that d by simp
  obtain l where "dbus_kill_session ?msg st = Some (dbus_positive_reply (st\<lparr>registry := l\<rparr>))"
    "represents l (without a xs)" "signals l = signals (registry st) @ [pid]"
    using kill [of st] by blast
  moreover have "dbus_agent_kill (call_server env lost st) me (s_id s) = ReplyOk"
    using kill [of "st\<lparr>replies := []\<rparr>"]
    by (auto simp: dbus_agent_kill_def call_server_def dbus_positive_reply_def dbus_return_def)
  ultimately show ?thesis by (simp add: dbus_positive_reply_def dbus_return_def)
qed

theorem dbus_own_session_killed_witness:
  "\<exists>l st'. srv_get_agent_by_ncsid ''17'' l \<noteq> Some None
    \<and> dbus_handle demo_dbus_env (method_call '':1.7'' OFC_DBUS_IF OFC_DBUS_KILLSESSION [DString ''17'']) \<lparr>registry = l, replies = []\<rparr> = Some st'
    \<and> srv_get_agent_by_ncsid ''17'' (registry st') = Some None \<and> signals (registry st') = signals l @ [4711]"
proof -
  let ?s = "\<lparr>s_id = ''17'', s_user = ''admin'', s_cpblts = []\<rparr>"
  obtain l a where l: "represents l [(a, '':1.7'', 4711, ?s)]"
    using append_agent_represents [OF no_agents_represent, of "'':1.7''" 4711 ?s] by auto
  then obtain st' where st': "dbus_handle demo_dbus_env (method_call '':1.7'' OFC_DBUS_IF OFC_DBUS_KILLSESSION [DString ''17''])
      \<lparr>registry = l, replies = []\<rparr> = Some st'" "represents (registry st') []" "signals (registry st') = signals l @ [4711]"
    using dbus_own_session_killed [of "\<lparr>registry = l, replies = []\<rparr>" "[(a, '':1.7'', 4711, ?s)]" "'':1.7''" a 4711 ?s demo_dbus_env]
    by (auto simp: without_def)
  have "srv_get_agent_by_ncsid ''17'' l \<noteq> Some None" "srv_get_agent_by_ncsid ''17'' (registry st') = Some None"
    using lookups_represent(1) [OF l, of "''17''"] lookups_represent(1) [OF st'(2), of "''17''"] by simp_all
  then show ?thesis using st'(1,3) by blast
qed

end
