(* ===== verification/Processes.thy ===== *)
theory Processes
  imports Comm_Socket Comm_Dbus Xml_Tree
begin

text \<open>
  The processes: what an agent does from its start to its end (\<^verbatim>\<open>agent.c\<close>) and how the server starts and runs
  (\<^verbatim>\<open>server.c\<close>), with the signal handler that both have.

  The agent is written against the interface of \<^verbatim>\<open>comm.h\<close>, which either transport provides: \<open>ops\<close> holds the functions it calls
  and \<open>'c\<close> is the state of the connection. What libnetconf tells about a request and its session comes with the request. The
  main loops are driven by a list of events, one for every call that waits; signals are taken in between, so the handler is
  not interleaved with the work on a request. The parsing of the command line, the log and memory that runs out are left out.
\<close>

section \<open>Signals\<close>

datatype signal = SIGINT | SIGTERM | SIGQUIT | SIGABRT | SIGKILL | SIGOTHER

text \<open>The first signal sets the flag that ends the main loop, a second or an unexpected one ends the process (\<open>None\<close>).\<close>

definition signal_handler :: "signal \<Rightarrow> bool \<Rightarrow> bool option" where
  "signal_handler sig mainloop = (if sig = SIGOTHER \<or> mainloop then None else Some True)"

section \<open>The agent\<close>

datatype nc_op = NC_OP_CLOSESESSION | NC_OP_KILLSESSION | NC_OP_CREATESUBSCRIPTION | NC_OP_OTHER

record rpc =
  r_op :: nc_op
  r_content :: "xmlnode option"
  r_dump :: string
  notif_capable :: bool
  notif_allowed :: bool
  subscription_check :: nc_reply
  thread_created :: bool

record 'c comm_ops =
  do_init :: "'c option"
  do_cpblts :: "'c \<Rightarrow> (string list option \<times> 'c) option"
  do_session :: "string \<Rightarrow> string \<Rightarrow> string list \<Rightarrow> 'c \<Rightarrow> (bool \<times> 'c) option"
  do_operation :: "string \<Rightarrow> 'c \<Rightarrow> (nc_reply option \<times> 'c) option"
  do_kill :: "string \<Rightarrow> 'c \<Rightarrow> (nc_reply option \<times> 'c) option"
  do_destroy :: "'c \<Rightarrow> 'c option"

text \<open>\<open>handle\<close> tells that the pointer to the connection is not NULL; \<open>conn\<close> stays as it was when the connection was destroyed.\<close>

record 'c agent_state =
  conn :: "'c option"
  handle :: bool
  mainloop :: bool
  sent :: "nc_reply list"

text \<open>A call through the handle, which must not be NULL, and the destruction of the connection, where it may.\<close>

definition through :: "('c \<Rightarrow> ('r \<times> 'c) option) \<Rightarrow> 'c agent_state \<Rightarrow> ('r \<times> 'c agent_state) option" where
  "through f st =
     (if handle st then do { c \<leftarrow> conn st; (r, c') \<leftarrow> f c; Some (r, st\<lparr>conn := Some c'\<rparr>) } else None)"

definition destroy_handle :: "'c comm_ops \<Rightarrow> 'c agent_state \<Rightarrow> 'c agent_state option" where
  "destroy_handle ops st =
     (if handle st then do { c \<leftarrow> conn st; c' \<leftarrow> do_destroy ops c; Some (st\<lparr>conn := Some c', handle := False\<rparr>) } else Some st)"

record accepted =
  acc_user :: "string option"
  acc_id :: "string option"
  acc_cpblts :: "string list option"

definition session_info :: "'c comm_ops \<Rightarrow> accepted \<Rightarrow> 'c agent_state \<Rightarrow> (bool \<times> 'c agent_state) option" where
  "session_info ops ncs st =
     (case acc_user ncs of
        None \<Rightarrow> Some (False, st)
      | Some username \<Rightarrow>
          (case acc_id ncs of
             None \<Rightarrow> Some (False, st)
           | Some sid \<Rightarrow>
               (case acc_cpblts ncs of
                  None \<Rightarrow> Some (False, st)
                | Some cpblts \<Rightarrow> through (do_session ops username sid cpblts) st)))"

definition missing_sid :: nc_err where
  "missing_sid = err_elem NC_ERR_MISSING_ELEM ''session-id''"

definition kill_reply :: "'c comm_ops \<Rightarrow> xmlnode option \<Rightarrow> 'c agent_state \<Rightarrow> (nc_reply option \<times> 'c agent_state) option" where
  "kill_reply ops opnode st =
     (case opnode of
        None \<Rightarrow> Some (Some (ReplyError op_failed), st)
      | Some n \<Rightarrow>
          if node_name n \<noteq> ''kill-session'' then Some (Some (ReplyError op_failed), st)
          else (case children n of
                  [] \<Rightarrow> Some (Some (ReplyError missing_sid), st)
                | c # cs \<Rightarrow>
                    if node_name c \<noteq> ''session-id'' then Some (Some (ReplyError missing_sid), st)
                    else through (do_kill ops (text_content c)) st))"

definition subscription_reply :: "rpc \<Rightarrow> nc_reply" where
  "subscription_reply r =
     (if \<not> notif_capable r then ReplyError (nc_err_new NC_ERR_OP_NOT_SUPPORTED)
      else if \<not> notif_allowed r then
        ReplyError ((err_text NC_ERR_OP_FAILED ''Another notification subscription is currently active on this session.'')
                    \<lparr>err_type := Some ''protocol''\<rparr>)
      else if subscription_check r \<noteq> ReplyOk then subscription_check r
      else if \<not> thread_created r then
        ReplyError (err_text NC_ERR_OP_FAILED ''Creating thread for sending Notifications failed.'')
      else ReplyOk)"

definition request_reply :: "'c comm_ops \<Rightarrow> rpc \<Rightarrow> 'c agent_state \<Rightarrow> (nc_reply option \<times> 'c agent_state) option" where
  "request_reply ops r st =
     (case r_op r of
        NC_OP_CLOSESESSION \<Rightarrow> do { st1 \<leftarrow> destroy_handle ops st; Some (Some ReplyOk, st1\<lparr>mainloop := True\<rparr>) }
      | NC_OP_KILLSESSION \<Rightarrow> kill_reply ops (r_content r) st
      | NC_OP_CREATESUBSCRIPTION \<Rightarrow> Some (Some (subscription_reply r), st)
      | NC_OP_OTHER \<Rightarrow> through (do_operation ops (r_dump r)) st)"

definition process_message :: "'c comm_ops \<Rightarrow> rpc option \<Rightarrow> 'c agent_state \<Rightarrow> (bool \<times> 'c agent_state) option" where
  "process_message ops r st =
     (case r of
        None \<Rightarrow> Some (False, st)
      | Some r \<Rightarrow>
          do { (reply, st1) \<leftarrow> request_reply ops r st;
               Some (True, st1\<lparr>sent := sent st1 @ [case reply of None \<Rightarrow> ReplyError op_failed | Some x \<Rightarrow> x]\<rparr>) })"

text \<open>
  What \<^verbatim>\<open>nc_session_recv_rpc\<close> gives, one after the other, and signals. With an unknown message the flag tells whether the session
  still works.
\<close>

datatype agent_event = MsgRpc rpc | MsgNone | MsgUnknown bool | MsgOther | Signalled signal

text \<open>The agent waits for the next event, has left its loop with a result, or was ended by a signal.\<close>

datatype 'c agent_end = Waiting "'c agent_state" | Leaving bool "'c agent_state" | Exited "'c agent_state"

fun agent_loop :: "'c comm_ops \<Rightarrow> agent_event list \<Rightarrow> 'c agent_state \<Rightarrow> 'c agent_end option" where
  "agent_loop ops [] st = Some (if mainloop st then Leaving True st else Waiting st)"
| "agent_loop ops (e # es) st =
     (if mainloop st then Some (Leaving True st)
      else (case e of
              MsgRpc r \<Rightarrow> do { (ok, st1) \<leftarrow> process_message ops (Some r) st; agent_loop ops es st1 }
            | MsgNone \<Rightarrow> agent_loop ops es st
            | MsgUnknown working \<Rightarrow> if working then agent_loop ops es st else Some (Leaving False st)
            | MsgOther \<Rightarrow> agent_loop ops es st
            | Signalled sig \<Rightarrow>
                (case signal_handler sig (mainloop st) of
                   None \<Rightarrow> Some (Exited st)
                 | Some flag \<Rightarrow> agent_loop ops es (st\<lparr>mainloop := flag\<rparr>))))"

definition agent_cleanup :: "'c comm_ops \<Rightarrow> 'c agent_end \<Rightarrow> 'c agent_end option" where
  "agent_cleanup ops e =
     (case e of Leaving ret st \<Rightarrow> map_option (Leaving ret) (destroy_handle ops st) | _ \<Rightarrow> Some e)"

text \<open>
  The whole process: \<open>nc_init_ok\<close> is the result of the initialisation of libnetconf, and \<open>accept\<close> the session libnetconf
  accepts with the given capabilities.
\<close>

definition agent_session ::
  "'c comm_ops \<Rightarrow> (string list \<Rightarrow> accepted option) \<Rightarrow> agent_event list \<Rightarrow> 'c agent_state \<Rightarrow> 'c agent_end option" where
  "agent_session ops accept es st =
     do { (cpblts, st1) \<leftarrow> through (do_cpblts ops) st;
          case cpblts of
            None \<Rightarrow> Some (Leaving False st1)
          | Some capabilities \<Rightarrow>
              (case accept capabilities of
                 None \<Rightarrow> Some (Leaving False st1)
               | Some ncs \<Rightarrow>
                   do { (ok, st2) \<leftarrow> session_info ops ncs st1;
                        if ok then agent_loop ops es st2 else Some (Leaving False st2) }) }"

definition agent_main ::
  "'c comm_ops \<Rightarrow> bool \<Rightarrow> (string list \<Rightarrow> accepted option) \<Rightarrow> agent_event list \<Rightarrow> 'c agent_end option" where
  "agent_main ops nc_init_ok accept es =
     (let st = \<lparr>conn = None, handle = False, mainloop = False, sent = []\<rparr> in
      case (if nc_init_ok then do_init ops else None) of
        None \<Rightarrow> agent_cleanup ops (Leaving False st)
      | Some c \<Rightarrow> do { e \<leftarrow> agent_session ops accept es (st\<lparr>conn := Some c, handle := True\<rparr>); agent_cleanup ops e })"

section \<open>The transports of the agent\<close>

text \<open>Over D-Bus the state of the connection is what was sent without waiting for an answer.\<close>

definition dbus_ops ::
  "dbus_msg list option \<Rightarrow> (dbus_msg \<Rightarrow> call_result) \<Rightarrow> (string \<Rightarrow> nc_reply option) \<Rightarrow> string \<Rightarrow> int \<Rightarrow> bool \<Rightarrow> dbus_msg list comm_ops" where
  "dbus_ops connection call build me pid connected =
     \<lparr>do_init = dbus_agent_init connection (\<lambda>c. call) me,
      do_cpblts = (\<lambda>out. map_option (\<lambda>r. (r, out)) (dbus_get_srv_cpblts call me)),
      do_session = (\<lambda>username sid cpblts out. Some (dbus_session_info_send call me pid username sid cpblts, out)),
      do_operation = (\<lambda>rpc out. Some (dbus_operation call build me rpc, out)),
      do_kill = (\<lambda>sid out. Some (Some (dbus_agent_kill call me sid), out)),
      do_destroy = (\<lambda>out. Some (dbus_agent_destroy me connected out))\<rparr>"

definition sock_ops :: "nat option \<Rightarrow> bool \<Rightarrow> peer \<Rightarrow> (string \<Rightarrow> nc_reply option) \<Rightarrow> int \<Rightarrow> (nat option \<times> peer) comm_ops" where
  "sock_ops new_sock connected p build pid =
     \<lparr>do_init = (case agent_comm_init new_sock connected of None \<Rightarrow> None | Some fd \<Rightarrow> Some (Some fd, p)),
      do_cpblts = guarded None comm_get_srv_cpblts,
      do_session = (\<lambda>username sid cpblts. guarded False (comm_session_info_send pid username sid cpblts)),
      do_operation = (\<lambda>rpc. guarded None (comm_operation build rpc)),
      do_kill = (\<lambda>sid. guarded None (\<lambda>p. map_option (\<lambda>(r, p1). (Some r, p1)) (comm_kill_session sid p))),
      do_destroy = (\<lambda>(c, p). agent_comm_destroy c p)\<rparr>"

section \<open>What an agent promises\<close>

text \<open>The requests that are answered: those before the event that ends the loop, and the one that closes the session.\<close>

fun served :: "agent_event list \<Rightarrow> rpc list" where
  "served [] = []"
| "served (MsgRpc r # es) = r # (if r_op r = NC_OP_CLOSESESSION then [] else served es)"
| "served (MsgUnknown working # es) = (if working then served es else [])"
| "served (Signalled sig # es) = []"
| "served (e # es) = served es"

text \<open>The session a request to kill names, or the error it gets for not naming one.\<close>

definition kill_target :: "xmlnode option \<Rightarrow> nc_err + string" where
  "kill_target opnode =
     (case opnode of
        None \<Rightarrow> Inl op_failed
      | Some n \<Rightarrow>
          if node_name n \<noteq> ''kill-session'' then Inl op_failed
          else (case children n of
                  [] \<Rightarrow> Inl missing_sid
                | c # cs \<Rightarrow> if node_name c = ''session-id'' then Inr (text_content c) else Inl missing_sid))"

definition or_failed :: "nc_reply option \<Rightarrow> nc_reply" where
  "or_failed r = (case r of None \<Rightarrow> ReplyError op_failed | Some x \<Rightarrow> x)"

text \<open>The reply to a request, given what the server answers to operations and to requests to kill a session.\<close>

definition reply_to :: "(string \<Rightarrow> nc_reply option) \<Rightarrow> (string \<Rightarrow> nc_reply option) \<Rightarrow> rpc \<Rightarrow> nc_reply" where
  "reply_to op_answer kill_answer q =
     (case r_op q of
        NC_OP_CLOSESESSION \<Rightarrow> ReplyOk
      | NC_OP_KILLSESSION \<Rightarrow>
          (case kill_target (r_content q) of Inl e \<Rightarrow> ReplyError e | Inr sid \<Rightarrow> or_failed (kill_answer sid))
      | NC_OP_CREATESUBSCRIPTION \<Rightarrow> subscription_reply q
      | NC_OP_OTHER \<Rightarrow> or_failed (op_answer (r_dump q)))"

lemma kill_reply_target:
  "kill_reply ops opnode st =
     (case kill_target opnode of Inl e \<Rightarrow> Some (Some (ReplyError e), st) | Inr sid \<Rightarrow> through (do_kill ops sid) st)"
  by (simp add: kill_reply_def kill_target_def split: option.split list.split)

fun end_state :: "'c agent_end \<Rightarrow> 'c agent_state" where
  "end_state (Waiting st) = st"
| "end_state (Leaving r st) = st"
| "end_state (Exited st) = st"

text \<open>
  The contract of a transport: a call through an open connection comes back with what the server answers, and only the
  destruction of the connection asks the server to close the session. \<open>closings\<close> counts these requests.
\<close>

locale transport =
  fixes ops :: "'c comm_ops" and op_answer kill_answer :: "string \<Rightarrow> nc_reply option" and closings :: "'c \<Rightarrow> nat"
  assumes operation_answered: "\<exists>c'. do_operation ops m c = Some (op_answer m, c') \<and> closings c' = closings c"
    and kill_answered: "\<exists>c'. do_kill ops m c = Some (kill_answer m, c') \<and> closings c' = closings c"
    and destroy_closes: "\<exists>c'. do_destroy ops c = Some c' \<and> closings c' = Suc (closings c)"
begin

text \<open>While the handle is there the session has not been closed, afterwards it has been closed once.\<close>

definition closed_once :: "'c agent_state \<Rightarrow> bool" where
  "closed_once st \<longleftrightarrow> (\<exists>c. conn st = Some c \<and> closings c = (if handle st then 0 else 1))"

definition ready :: "'c agent_state \<Rightarrow> bool" where
  "ready st \<longleftrightarrow> handle st \<and> \<not> mainloop st \<and> closed_once st"

lemma through_answers:
  assumes "ready st" and "\<And>c. \<exists>c'. f c = Some (r, c') \<and> closings c' = closings c"
  shows "\<exists>st'. through f st = Some (r, st') \<and> ready st' \<and> sent st' = sent st"
proof -
  obtain c where c: "conn st = Some c" "closings c = 0" using assms(1) by (auto simp: ready_def closed_once_def)
  moreover obtain c' where "f c = Some (r, c')" "closings c' = closings c" using assms(2) by blast
  ultimately show ?thesis using assms(1) by (simp add: through_def ready_def closed_once_def)
qed

lemma destroy_handle_closes:
  assumes "closed_once st"
  shows "\<exists>st'. destroy_handle ops st = Some st' \<and> \<not> handle st' \<and> closed_once st' \<and> sent st' = sent st"
proof (cases "handle st")
  case True
  then obtain c where "conn st = Some c" "closings c = 0" using assms by (auto simp: closed_once_def)
  moreover obtain c' where "do_destroy ops c = Some c'" "closings c' = Suc (closings c)" using destroy_closes by blast
  ultimately show ?thesis using True by (simp add: destroy_handle_def closed_once_def)
qed (use assms in \<open>simp add: destroy_handle_def\<close>)

text \<open>A request is answered; all but the one that closes the session leave the agent ready for the next.\<close>

lemma request_answered:
  assumes "ready st"
  shows "\<exists>r st'. request_reply ops q st = Some (r, st') \<and> or_failed r = reply_to op_answer kill_answer q \<and> sent st' = sent st
    \<and> closed_once st' \<and> (if r_op q = NC_OP_CLOSESESSION then mainloop st' else ready st')"
proof -
  have readyD: "ready x \<Longrightarrow> closed_once x" for x by (simp add: ready_def)
  note defs = request_reply_def reply_to_def or_failed_def
  show ?thesis
  proof (cases "r_op q")
    case NC_OP_CLOSESESSION
    obtain st' where "destroy_handle ops st = Some st'" "closed_once st'" "sent st' = sent st"
      using destroy_handle_closes readyD [OF assms] by blast
    then show ?thesis using NC_OP_CLOSESESSION by (simp add: defs closed_once_def)
  next
    case NC_OP_KILLSESSION
    have "\<exists>st'. through (do_kill ops m) st = Some (kill_answer m, st') \<and> ready st' \<and> sent st' = sent st" for m
      by (rule through_answers [OF assms]) (rule kill_answered)
    then have kill: "\<exists>st'. through (do_kill ops m) st = Some (kill_answer m, st') \<and> ready st' \<and> closed_once st' \<and> sent st' = sent st" for m
      using readyD by blast
    show ?thesis
    proof (cases "kill_target (r_content q)")
      case (Inr m)
      then show ?thesis using kill [of m] NC_OP_KILLSESSION by (auto simp: defs kill_reply_target)
    qed (use NC_OP_KILLSESSION assms readyD in \<open>simp add: defs kill_reply_target\<close>)
  next
    case NC_OP_OTHER
    have "\<exists>st'. through (do_operation ops (r_dump q)) st = Some (op_answer (r_dump q), st') \<and> ready st' \<and> sent st' = sent st"
      by (rule through_answers [OF assms]) (rule operation_answered)
    then show ?thesis using NC_OP_OTHER by (auto simp: defs intro: readyD)
  qed (use assms readyD in \<open>simp add: defs\<close>)
qed

lemma process_answers:
  assumes "ready st"
  shows "\<exists>st'. process_message ops (Some q) st = Some (True, st') \<and> sent st' = sent st @ [reply_to op_answer kill_answer q]
    \<and> closed_once st' \<and> (if r_op q = NC_OP_CLOSESESSION then mainloop st' else ready st')"
proof -
  obtain r st' where r: "request_reply ops q st = Some (r, st')" "or_failed r = reply_to op_answer kill_answer q"
    "sent st' = sent st" "closed_once st'" "if r_op q = NC_OP_CLOSESESSION then mainloop st' else ready st'"
    using request_answered [OF assms] by blast
  have "ready (x\<lparr>sent := l\<rparr>) = ready x" "closed_once (x\<lparr>sent := l\<rparr>) = closed_once x" for x l
    by (simp_all add: ready_def closed_once_def)
  then show ?thesis using r by (simp add: process_message_def or_failed_def [symmetric])
qed

text \<open>
  The loop gets through its events, answers exactly the requests served, in their order, and never closes the session
  twice.
\<close>

lemma loop_answers:
  assumes "ready st"
  shows "\<exists>e. agent_loop ops es st = Some e \<and> sent (end_state e) = sent st @ map (reply_to op_answer kill_answer) (served es)
    \<and> closed_once (end_state e) \<and> (case e of Leaving ret st' \<Rightarrow> True | _ \<Rightarrow> handle (end_state e))"
  using assms
proof (induction es arbitrary: st)
  case Nil
  then show ?case by (simp add: ready_def)
next
  case (Cons e es)
  then have run: "\<not> mainloop st" "closed_once st" "handle st" by (simp_all add: ready_def)
  have stop: "agent_loop ops es st' = Some (Leaving True st')" if "mainloop st'" for st' using that by (cases es) simp_all
  show ?case
  proof (cases e)
    case (MsgRpc q)
    obtain st' where "process_message ops (Some q) st = Some (True, st')" "sent st' = sent st @ [reply_to op_answer kill_answer q]"
      "closed_once st'" "if r_op q = NC_OP_CLOSESESSION then mainloop st' else ready st'"
      using process_answers [OF Cons.prems] by blast
    then show ?thesis using MsgRpc run stop [of st'] Cons.IH [of st'] by (cases "r_op q = NC_OP_CLOSESESSION") auto
  next
    case (Signalled sig)
    then show ?thesis using run stop [of "st\<lparr>mainloop := True\<rparr>"] by (simp add: signal_handler_def closed_once_def)
  qed (use run Cons in auto)
qed

lemma cleanup_closes:
  assumes "closed_once (end_state e)" and "case e of Leaving ret st \<Rightarrow> True | _ \<Rightarrow> handle (end_state e)"
  shows "\<exists>e' c. agent_cleanup ops e = Some e' \<and> sent (end_state e') = sent (end_state e) \<and> conn (end_state e') = Some c
    \<and> closings c = (case e' of Leaving ret st \<Rightarrow> 1 | _ \<Rightarrow> 0)"
proof (cases e)
  case (Leaving ret st)
  then obtain st' where "destroy_handle ops st = Some st'" "\<not> handle st'" "closed_once st'" "sent st' = sent st"
    using destroy_handle_closes assms(1) by auto
  then show ?thesis using Leaving by (auto simp: agent_cleanup_def closed_once_def)
qed (use assms in \<open>auto simp: agent_cleanup_def closed_once_def\<close>)

end

interpretation dbus_agent: transport "dbus_ops connection call build me pid True" "dbus_operation call build me"
  "\<lambda>sid. Some (dbus_agent_kill call me sid)" "\<lambda>out. length (filter (\<lambda>m. m = dbus_close_msg me) out)"
  for connection call build me pid
  by unfold_locales (simp_all add: dbus_ops_def dbus_agent_destroy_def)

lemma dbus_agent_started:
  assumes "call (method_call me DBUS_STDIF_PEER ''Ping'' []) = Answer as" and "dbus_get_srv_cpblts call me = Some (Some cs)"
    and "accept cs = Some \<lparr>acc_user = Some user, acc_id = Some sid, acc_cpblts = Some cs'\<rparr>"
    and "dbus_session_info_send call me pid user sid cs'"
  shows "agent_main (dbus_ops (Some []) call build me pid True) True accept es =
    do { e \<leftarrow> agent_loop (dbus_ops (Some []) call build me pid True) es \<lparr>conn = Some [], handle = True, mainloop = False, sent = []\<rparr>;
         agent_cleanup (dbus_ops (Some []) call build me pid True) e }"
  using assms by (simp add: agent_main_def agent_session_def through_def session_info_def dbus_ops_def dbus_agent_init_def)

text \<open>
  C7: an agent serves its client. When the server answers and libnetconf accepts the session, the agent over D-Bus gets
  through any sequence of messages and signals: it sends one reply for every request up to the one that closes the session or
  to a signal or a broken session, in the order of the requests, each the reply of the server, the
  answer to a subscription, or the error for a request that is not well-formed. Whenever it leaves its loop the server has been asked exactly once to close the session; while it
  waits, never.
\<close>

theorem agent_serves_client:
  assumes "call (method_call me DBUS_STDIF_PEER ''Ping'' []) = Answer as" and "dbus_get_srv_cpblts call me = Some (Some cs)"
    and "accept cs = Some \<lparr>acc_user = Some user, acc_id = Some sid, acc_cpblts = Some cs'\<rparr>"
    and "dbus_session_info_send call me pid user sid cs'"
  shows "\<exists>e out. agent_main (dbus_ops (Some []) call build me pid True) True accept es = Some e
    \<and> sent (end_state e) = map (reply_to (dbus_operation call build me) (\<lambda>sid. Some (dbus_agent_kill call me sid))) (served es)
    \<and> conn (end_state e) = Some out
    \<and> length (filter (\<lambda>m. m = dbus_close_msg me) out) = (case e of Leaving ret st \<Rightarrow> 1 | _ \<Rightarrow> 0)"
proof -
  let ?ops = "dbus_ops (Some []) call build me pid True" and ?st = "\<lparr>conn = Some [], handle = True, mainloop = False, sent = []\<rparr>"
  have "dbus_agent.ready me ?st" by (simp add: dbus_agent.ready_def dbus_agent.closed_once_def)
  then obtain e where e: "agent_loop ?ops es ?st = Some e"
    "sent (end_state e) = map (reply_to (dbus_operation call build me) (\<lambda>sid. Some (dbus_agent_kill call me sid))) (served es)"
    "dbus_agent.closed_once me (end_state e)" "case e of Leaving ret st' \<Rightarrow> True | _ \<Rightarrow> handle (end_state e)"
    using dbus_agent.loop_answers [where connection = "Some []" and pid = pid and es = es] by fastforce
  show ?thesis using dbus_agent.cleanup_closes [OF e(3,4), where connection = "Some []" and pid = pid and call = call and build = build] e(1,2)
    by (auto simp: dbus_agent_started [where call = call and me = me and accept = accept and cs = cs, OF assms])
qed

theorem agent_serves_client_witness:
  "\<exists>e. agent_main (dbus_ops (Some []) (\<lambda>m. if m_member m = OFC_DBUS_GETCAPABILITIES then Answer [DUint16 1, DString ''base'']
          else if m_member m = OFC_DBUS_PROCESSOP then Answer [DString ''reply''] else Answer [DBool True])
        (\<lambda>d. Some (ReplyData d)) '':1.7'' 70000 True) True
        (\<lambda>cs. Some \<lparr>acc_user = Some ''admin'', acc_id = Some ''17'', acc_cpblts = Some cs\<rparr>)
        [MsgRpc \<lparr>r_op = NC_OP_OTHER, r_content = None, r_dump = ''get'', notif_capable = False, notif_allowed = False,
                 subscription_check = ReplyOk, thread_created = True\<rparr>, MsgNone, Signalled SIGTERM] = Some e
     \<and> sent (end_state e) = [ReplyData ''reply'']"
proof -
  let ?call = "\<lambda>m. if m_member m = OFC_DBUS_GETCAPABILITIES then Answer [DUint16 1, DString ''base'']
     else if m_member m = OFC_DBUS_PROCESSOP then Answer [DString ''reply''] else Answer [DBool True]"
  have "?call (method_call '':1.7'' DBUS_STDIF_PEER ''Ping'' []) = Answer [DBool True]"
    by (simp add: method_call_def dbus_names)
  moreover have "dbus_get_srv_cpblts ?call '':1.7'' = Some (Some [''base''])"
    by (simp add: dbus_get_srv_cpblts_def method_call_def)
  moreover have "dbus_session_info_send ?call '':1.7'' 70000 ''admin'' ''17'' [''base'']"
    by (simp add: dbus_session_info_send_def method_call_def dbus_names)
  moreover have "dbus_operation ?call (\<lambda>d. Some (ReplyData d)) '':1.7'' ''get'' = Some (ReplyData ''reply'')"
    by (simp add: dbus_operation_def method_call_def dbus_names)
  ultimately show ?thesis
    using agent_serves_client [where call = ?call and me = "'':1.7''" and pid = 70000 and build = "\<lambda>d. Some (ReplyData d)"
        and accept = "\<lambda>cs. Some \<lparr>acc_user = Some ''admin'', acc_id = Some ''17'', acc_cpblts = Some cs\<rparr>"
        and cs = "[''base'']" and user = "''admin''" and sid = "''17''" and cs' = "[''base'']" and as = "[DBool True]"
        and es = "[MsgRpc \<lparr>r_op = NC_OP_OTHER, r_content = None, r_dump = ''get'', notif_capable = False, notif_allowed = False,
                 subscription_check = ReplyOk, thread_created = True\<rparr>, MsgNone, Signalled SIGTERM]"]
    by (auto simp: reply_to_def or_failed_def)
qed

section \<open>One answer, whichever the transport\<close>






section \<open>The server\<close>

text \<open>
  What the server needs from libnetconf and the operating system to start: \<open>init_result\<close> is what \<^verbatim>\<open>nc_init\<close> returns, negative
  for a failure and otherwise telling whether the last server crashed.
\<close>

record 'c server_env =
  daemon_ok :: bool
  init_result :: int
  server_comm_init :: "bool \<Rightarrow> 'c option"
  netconf_ds_new :: bool
  netconf_ds_init :: int
  ofc_ds_new :: bool
  ofc_ds_init :: int
  consolidate :: int
  netconf_device_init :: int
  ofc_device_init :: int

text \<open>\<open>Inl\<close> is an exit with a failure; its value tells whether libnetconf is closed before.\<close>

definition server_start :: "'c server_env \<Rightarrow> bool \<Rightarrow> bool + 'c" where
  "server_start env ofc_daemonize =
     (if ofc_daemonize \<and> \<not> daemon_ok env then Inl False
      else if init_result env < 0 then Inl False
      else (case server_comm_init env (init_result env \<noteq> 0) of
              None \<Rightarrow> Inl False
            | Some c \<Rightarrow>
                if \<not> netconf_ds_new env \<or> netconf_ds_init env < 0 \<or> \<not> ofc_ds_new env \<or> ofc_ds_init env < 0
                   \<or> consolidate env \<noteq> 0 \<or> netconf_device_init env \<noteq> 0 \<or> ofc_device_init env \<noteq> 0
                then Inl True
                else Inr c))"

text \<open>
  The main loop calls \<^verbatim>\<open>comm_loop\<close>, here \<open>step\<close> with what it gets from outside, until a signal has set the flag. The result of
  \<^verbatim>\<open>comm_loop\<close> is not used, and the communication is not destroyed at the end.
\<close>

datatype 'i server_event = Round 'i | ServerSignal signal

datatype 's server_end = Serving 's | Stopped 's | Killed 's

fun server_loop :: "('i \<Rightarrow> 's \<Rightarrow> (bool \<times> 's) option) \<Rightarrow> 'i server_event list \<Rightarrow> bool \<Rightarrow> 's \<Rightarrow> 's server_end option" where
  "server_loop step [] flag st = Some (if flag then Stopped st else Serving st)"
| "server_loop step (e # es) flag st =
     (if flag then Some (Stopped st)
      else (case e of
              Round i \<Rightarrow> do { (ret, st1) \<leftarrow> step i st; server_loop step es flag st1 }
            | ServerSignal sig \<Rightarrow>
                (case signal_handler sig flag of
                   None \<Rightarrow> Some (Killed st)
                 | Some flag1 \<Rightarrow> server_loop step es flag1 st)))"

text \<open>After the communication over sockets has failed the loop goes on without doing anything until a signal comes.\<close>

lemma comm_loop_down: "listen_sock st = None \<Longrightarrow> comm_loop env evs again ss st = Some (False, st)"
  by (cases evs) simp_all

lemma server_spins:
  "listen_sock st = None \<Longrightarrow>
   server_loop (\<lambda>(evs, again, ss). comm_loop env evs again ss) (map Round is) False st = Some (Serving st)"
  by (induction "is") (auto simp: comm_loop_down)

end
