(* ===== verification/Spec2Isabelle.thy ===== *)
theory Spec2Isabelle
  imports Datastore Ovs_State Netconf_Server Processes
begin

text \<open>
  A verification library for OF-CONFIG for Open vSwitch: the NETCONF server under \<^verbatim>\<open>src/server\<close> that lets a client read and
  change the configuration of a switch.

  \<^bold>\<open>The program.\<close> A client connects over SSH and gets an agent process (\<^verbatim>\<open>agent.c\<close>). The agent registers its session with the
  server and passes requests on, over a UNIX socket (\<^verbatim>\<open>agent_comm_socket.c\<close>, \<^verbatim>\<open>server_comm_socket.c\<close>, \<^verbatim>\<open>comm_socket.c\<close>) or over
  D-Bus (\<^verbatim>\<open>agent_comm_dbus.c\<close>, \<^verbatim>\<open>server_comm_dbus.c\<close>), as the build chooses. The server (\<^verbatim>\<open>server.c\<close>) keeps a list of agents
  (\<^verbatim>\<open>server_ops.c\<close>) and hands requests to libnetconf, which calls the datastore (\<^verbatim>\<open>ofconfig-datastore.c\<close>), the state callback
  (\<^verbatim>\<open>ofconfig-transapi.c\<close>) and the module that runs the SSH daemon (\<^verbatim>\<open>netconf-server-transapi.c\<close>). An edit is checked and carried
  out by \<^verbatim>\<open>edit-config.c\<close>, on documents for startup and candidate, and for running through \<^verbatim>\<open>ovs-data.c\<close>, which changes the
  database of Open vSwitch in a transaction, the flags of the kernel and, over OpenFlow, the ports of the switch.

  \<^bold>\<open>Theories.\<close> Definitions have the names of the C functions; a part of a long function is a definition of its own.

  \<^item> \<^verbatim>\<open>Prelude\<close>: errors, the type \<open>outcome\<close> of fallible operations on a state, C strings, string maps.
  \<^item> \<^verbatim>\<open>Xml_Tree\<close>: nodes of libxml2 with their addresses, \<^verbatim>\<open>go2node\<close>, \<^verbatim>\<open>get_key\<close>.
  \<^item> \<^verbatim>\<open>Edit_Match\<close>, \<^verbatim>\<open>Edit_Check\<close> (\<^verbatim>\<open>edit-config.c\<close>): comparing and finding elements; the operation attribute, the checks of an
    edit and its compaction. The searches and checks are shown equal to declarative descriptions.
  \<^item> \<^verbatim>\<open>Ovsdb\<close> (\<^verbatim>\<open>ovs-data.c\<close>): the tables of the database, the transaction, the wrappers of \<^verbatim>\<open>ioctl\<close>. The state is the record
    \<open>ofc\<close>. The locale \<open>table_of\<close> gives the laws of a table once, for all ten of them. \<open>in_txn\<close> and \<open>store_wf\<close> are the invariants:
    rows are unique and allocated, references go to allocated rows; \<open>wf_intros\<close> collects that every operation keeps them.
  \<^item> \<^verbatim>\<open>Ovs_Port\<close>, \<^verbatim>\<open>Ovs_Queue\<close>, \<^verbatim>\<open>Ovs_Bridge\<close>, \<^verbatim>\<open>Ovs_Cert\<close>, \<^verbatim>\<open>Ovs_OpenFlow\<close> (\<^verbatim>\<open>ovs-data.c\<close>): the operations \<^verbatim>\<open>txn_add_...\<close>,
    \<^verbatim>\<open>txn_del_...\<close>, \<^verbatim>\<open>txn_mod_...\<close> and the OpenFlow messages; what a creation puts into the database and that a deletion undoes it.
  \<^item> \<^verbatim>\<open>Edit_Run\<close>, \<^verbatim>\<open>Edit_Ops\<close> (\<^verbatim>\<open>edit-config.c\<close>): the calls of \<^verbatim>\<open>ovs-data.c\<close> for each kind of node, and the operations merge, replace,
    create, delete and remove on the pair of documents. The locale \<open>edit_invariant\<close> carries an invariant through all of them; it is
    interpreted for documents, where an edit always ends and leaves the switch alone, and for running, where a
    transaction stays open.
  \<^item> \<^verbatim>\<open>Ovs_Get\<close>, \<^verbatim>\<open>Ovs_State\<close> (\<^verbatim>\<open>ovs-data.c\<close>, \<^verbatim>\<open>ofconfig-transapi.c\<close>): the configuration and the state as XML text; the text is
    well-formed, and what was stored is printed.
  \<^item> \<^verbatim>\<open>Datastore\<close> (\<^verbatim>\<open>ofconfig-datastore.c\<close>): locks, get-config, edit-config, copy-config, delete-config and rollback. The locale
    \<open>lock_service\<close> is the contract of the locks, which refine a map of owners.
  \<^item> \<^verbatim>\<open>Agents\<close> (\<^verbatim>\<open>server_ops.c\<close>): the doubly linked list in an explicit heap refines a list of sessions; the contract is the locale
    \<open>session_registry\<close>.
  \<^item> \<^verbatim>\<open>Comm_Socket\<close>, \<^verbatim>\<open>Comm_Dbus\<close>: both ends of the two transports, the first at the level of bytes and descriptors; what one end
    sends is what the other gets.
  \<^item> \<^verbatim>\<open>Processes\<close> (\<^verbatim>\<open>agent.c\<close>, \<^verbatim>\<open>server.c\<close>): the agent over the interface of \<^verbatim>\<open>comm.h\<close>, whose contract is the locale \<open>transport\<close>;
    the start and the main loop of the server.
  \<^item> \<^verbatim>\<open>Netconf_Server\<close> (\<^verbatim>\<open>netconf-server-transapi.c\<close>): the SSH daemon.

  \<^bold>\<open>Code outside the repository\<close> is a parameter. \<open>env\<close> in the theories on \<^verbatim>\<open>ovs-data.c\<close> is what libovs, the kernel, the disk and
  the switch answer; the hypotheses \<open>idl_places\<close>, \<open>idl_columns\<close>, \<open>commit_wf\<close>, \<open>idl_run_wf\<close>, \<open>commits\<close> and \<open>disk_ok\<close> say what a theorem
  relies on. \<open>lib\<close> is the parser and printer of libxml2. For the transports the dummy sessions of libnetconf (\<open>dummy_ok\<close>), the
  application of a request to the datastores, and the calls of libdbus and the operating system are parameters or events.

  \<^bold>\<open>Results that go wrong.\<close> \<open>Undef\<close> and, in functions that do not change state, \<open>None\<close> stand for behaviour that C leaves
  undefined: a read through NULL, of a freed node or of a variable that was not set. Theorems that an operation succeeds exclude it.

  \<^bold>\<open>Loops and bounds.\<close> Loops over data are structural recursion. The loops of \<^verbatim>\<open>edit-config.c\<close> that go on until nothing is found
  are \<open>rounds\<close>, a partial function for which \<open>None\<close> is a call that does not return; the theorems on termination show that it
  returns, and one shows where it does not. Walks along the list of agents are partial functions too. The 30 attempts of
  \<^verbatim>\<open>of_open_vconn\<close> and the 10 slots for agents are the constants of the code. Main loops take a list of events, so a
  statement for all lists is one for all finite runs. Process ids on the wire and counts of capabilities are words of
  their width.

  \<^bold>\<open>Not modelled.\<close> Log output (\<^verbatim>\<open>common.c\<close>), because it has no effect on the state; the command line and the
  environment of the two programs; the tables that register callbacks with libnetconf; the build with a group for the socket;
  memory that runs out; the opening of the connection to the database in \<^verbatim>\<open>ofc_init\<close>; signals that arrive in the middle of a
  request; threads that send notifications, which run in libnetconf.
\<close>

end
